(* ===== verification/Prelude.thy ===== *)
theory Prelude
  imports
    Main
    "HOL-Library.AList"
    "HOL-Library.Char_ord"
    "HOL-Library.List_Lexorder"
    "HOL-Library.Multiset"
    "HOL-Library.Monad_Syntax"
    "HOL-Library.Sublist"
begin

section \<open>Shared vocabulary of the development\<close>

text \<open>
  What the components share: Go's maps and string sets, the string functions of Go's
  \<^verbatim>\<open>strings\<close> package that the sources call, nil-pointer panics, and a generic
  account of transition systems.

  \<^item> A Go map is an association list whose keys are distinct (\<open>gomap_ok\<close>). The
    order of the list is the order in which one \<^verbatim>\<open>range\<close> loop visits the entries, so
    a function that ranges over a map is a recursion over the list, and what does not
    depend on Go's random order is a lemma. Reading is \<^const>\<open>map_of\<close>, writing
    is \<^const>\<open>AList.update\<close>. Nil and empty maps and slices are identified, except where
    a source line tells them apart.
  \<^item> A \<^verbatim>\<open>sets.String\<close> is a list without repetitions, again in the order of one
    iteration.
  \<^item> A computation that can dereference a nil pointer has type \<open>'a option\<close>;
    \<^const>\<open>None\<close> is the panic.
\<close>

named_theorems go_simps \<open>unfolding rules of the Go library functions\<close>

type_synonym ('k, 'v) gomap = "('k \<times> 'v) list"
type_synonym goset = "string list"
type_synonym labels = "(string, string) gomap"

abbreviation (input) Panic :: "'a option" where
  "Panic \<equiv> None"

subsection \<open>Maps\<close>

definition gomap_ok :: "('k, 'v) gomap \<Rightarrow> bool" where
  "gomap_ok m \<longleftrightarrow> distinct (map fst m)"

definition gomap_set_all :: "('k, 'v) gomap \<Rightarrow> ('k, 'v) gomap \<Rightarrow> ('k, 'v) gomap" where
  \<comment> \<open>\<^verbatim>\<open>for k, v := range b { a[k] = v }\<close>\<close>
  "gomap_set_all a b = foldl (\<lambda>m kv. AList.update (fst kv) (snd kv) m) a b"

definition gomap_eq :: "('k, 'v) gomap \<Rightarrow> ('k, 'v) gomap \<Rightarrow> bool" where
  \<comment> \<open>\<^verbatim>\<open>reflect.DeepEqual\<close> on maps: equal lengths, and every entry of the one in the other\<close>
  "gomap_eq a b \<longleftrightarrow> length a = length b \<and> list_all (\<lambda>kv. map_of b (fst kv) = Some (snd kv)) a"

definition goget :: "labels \<Rightarrow> string \<Rightarrow> string" where
  \<comment> \<open>\<^verbatim>\<open>m[k]\<close> on a string map: the zero value for a missing key\<close>
  "goget m k = (case map_of m k of None \<Rightarrow> '''' | Some v \<Rightarrow> v)"

lemma map_of_gomap_set_all: "gomap_ok b \<Longrightarrow> map_of (gomap_set_all a b) = map_of a ++ map_of b"
proof (induction b arbitrary: a)
  case Nil
  show ?case by (simp add: gomap_set_all_def)
next
  case (Cons kv b)
  obtain k v where kv: "kv = (k, v)" by fastforce
  have ok: "gomap_ok b" and k: "k \<notin> fst ` set b"
    using Cons.prems by (auto simp: gomap_ok_def kv)
  have "map_of (gomap_set_all a (kv # b)) = map_of (gomap_set_all (AList.update k v a) b)"
    by (simp add: gomap_set_all_def kv)
  also have "\<dots> = (map_of a)(k \<mapsto> v) ++ map_of b"
    by (simp only: Cons.IH [OF ok] AList.update_conv')
  also have "\<dots> = map_of a ++ map_of (kv # b)"
    using k by (auto simp: kv map_add_def fun_eq_iff split: option.splits
        dest: map_of_SomeD intro: rev_image_eqI)
  finally show ?case .
qed

lemma gomap_ok_distinct: "gomap_ok m \<Longrightarrow> distinct m"
  by (auto simp: gomap_ok_def distinct_map)

lemma gomap_ok_set_all: "gomap_ok a \<Longrightarrow> gomap_ok (gomap_set_all a b)"
  by (induction b arbitrary: a)
    (simp_all add: gomap_set_all_def gomap_ok_def distinct_update)

lemma gomap_eq_refl [simp]: "gomap_ok a \<Longrightarrow> gomap_eq a a"
  by (auto simp: gomap_eq_def gomap_ok_def list_all_iff)

lemma gomap_eq_iff:
  assumes "gomap_ok a" and "gomap_ok b"
  shows "gomap_eq a b \<longleftrightarrow> map_of a = map_of b"
proof
  assume eq: "gomap_eq a b"
  have sub: "set a \<subseteq> set b"
    using eq by (force simp: gomap_eq_def list_all_iff dest: map_of_SomeD)
  have "card (set a) = length a" and "card (set b) = length b"
    using assms by (auto intro: distinct_card gomap_ok_distinct)
  with eq sub have "set a = set b"
    by (intro card_subset_eq) (auto simp: gomap_eq_def)
  with assms show "map_of a = map_of b"
    by (simp add: gomap_ok_def map_of_inject_set)
next
  assume eq: "map_of a = map_of b"
  then have "set a = set b"
    using assms by (simp add: gomap_ok_def map_of_inject_set)
  then have "length a = length b"
    using assms by (metis gomap_ok_distinct distinct_card)
  with eq assms show "gomap_eq a b"
    by (auto simp: gomap_eq_def gomap_ok_def list_all_iff simp flip: eq)
qed

definition goslice :: "'a list option \<Rightarrow> 'a list" where
  \<comment> \<open>what ranging over a slice sees, where the source tells a nil slice from an empty one\<close>
  "goslice s = (case s of None \<Rightarrow> [] | Some xs \<Rightarrow> xs)"

lemma goslice_simps [simp, go_simps]: "goslice None = []" "goslice (Some xs) = xs"
  by (simp_all add: goslice_def)

subsection \<open>String sets\<close>

definition set_insert :: "goset \<Rightarrow> string \<Rightarrow> goset" where
  \<comment> \<open>\<^verbatim>\<open>s.Insert(x)\<close>\<close>
  "set_insert s x = (if x \<in> set s then s else s @ [x])"

definition set_insert_all :: "goset \<Rightarrow> string list \<Rightarrow> goset" where
  \<comment> \<open>\<^verbatim>\<open>s.Insert(xs...)\<close>; with the empty set, \<^verbatim>\<open>sets.NewString(xs...)\<close>\<close>
  "set_insert_all s xs = foldl set_insert s xs"

definition set_difference :: "goset \<Rightarrow> goset \<Rightarrow> goset" where
  \<comment> \<open>\<^verbatim>\<open>s.Difference(t)\<close>\<close>
  "set_difference s t = filter (\<lambda>x. x \<notin> set t) s"

abbreviation NewString :: "string list \<Rightarrow> goset" where
  "NewString xs \<equiv> set_insert_all [] xs"

lemma set_set_insert [simp, go_simps]: "set (set_insert s x) = insert x (set s)"
  by (auto simp: set_insert_def)

lemma set_set_insert_all [simp, go_simps]: "set (set_insert_all s xs) = set s \<union> set xs"
  by (induction xs arbitrary: s) (auto simp: set_insert_all_def)

lemma set_set_difference [simp, go_simps]: "set (set_difference s t) = set s - set t"
  by (auto simp: set_difference_def)

lemma distinct_set_insert [simp]: "distinct (set_insert s x) = distinct s"
  by (auto simp: set_insert_def)

lemma distinct_set_insert_all [simp]: "distinct (set_insert_all s xs) = distinct s"
  by (induction xs arbitrary: s) (auto simp: set_insert_all_def)

lemma set_difference_Nil_iff: "set_difference s t = [] \<longleftrightarrow> set s \<subseteq> set t"
  by (auto simp: set_difference_def filter_empty_conv)

subsection \<open>Loops that stop at the first error\<close>

fun first_error :: "('a \<Rightarrow> 'e option) \<Rightarrow> 'a list \<Rightarrow> 'e option" where
  \<comment> \<open>\<^verbatim>\<open>for _, x := range xs { if err := f(x); err != nil { return err } }\<close>\<close>
  "first_error f [] = None"
| "first_error f (x # xs) = (case f x of Some e \<Rightarrow> Some e | None \<Rightarrow> first_error f xs)"

lemma first_error_None_iff [simp]: "first_error f xs = None \<longleftrightarrow> (\<forall>x\<in>set xs. f x = None)"
  by (induction xs) (auto split: option.splits)

lemma first_error_SomeD: "first_error f xs = Some e \<Longrightarrow> \<exists>x\<in>set xs. f x = Some e"
  by (induction xs) (auto split: option.splits)

subsection \<open>Strings\<close>

definition hasPrefix :: "string \<Rightarrow> string \<Rightarrow> bool" where
  "hasPrefix s p \<longleftrightarrow> take (length p) s = p"

definition hasSuffix :: "string \<Rightarrow> string \<Rightarrow> bool" where
  "hasSuffix s q \<longleftrightarrow> length q \<le> length s \<and> drop (length s - length q) s = q"

definition trimPrefix :: "string \<Rightarrow> string \<Rightarrow> string" where
  "trimPrefix s p = (if hasPrefix s p then drop (length p) s else s)"

definition trimSuffix :: "string \<Rightarrow> string \<Rightarrow> string" where
  "trimSuffix s q = (if hasSuffix s q then take (length s - length q) s else s)"

fun split_on :: "char \<Rightarrow> string \<Rightarrow> string list" where
  \<comment> \<open>\<^verbatim>\<open>strings.Split(s, sep)\<close> for a separator of one byte\<close>
  "split_on c [] = [[]]"
| "split_on c (x # xs) =
     (if x = c then [] # split_on c xs
      else (case split_on c xs of [] \<Rightarrow> [[x]] | w # ws \<Rightarrow> (x # w) # ws))"

fun join_with :: "string \<Rightarrow> string list \<Rightarrow> string" where
  \<comment> \<open>\<^verbatim>\<open>strings.Join(ws, sep)\<close>\<close>
  "join_with sep [] = []"
| "join_with sep [w] = w"
| "join_with sep (w # ws) = w @ sep @ join_with sep ws"

fun lastIndex :: "string \<Rightarrow> string \<Rightarrow> nat option" where
  \<comment> \<open>\<^verbatim>\<open>strings.LastIndex(s, sub)\<close>; \<^const>\<open>None\<close> is \<^verbatim>\<open>-1\<close>\<close>
  "lastIndex [] sub = (if sub = [] then Some 0 else None)"
| "lastIndex (x # xs) sub =
     (case lastIndex xs sub of
        Some i \<Rightarrow> Some (Suc i)
      | None \<Rightarrow> (if hasPrefix (x # xs) sub then Some 0 else None))"

lemma hasPrefix_iff: "hasPrefix s p \<longleftrightarrow> (\<exists>t. s = p @ t)"
  by (metis append_eq_conv_conj append_take_drop_id hasPrefix_def)

lemma hasPrefix_append [simp]: "hasPrefix (p @ t) p"
  by (auto simp: hasPrefix_iff)

lemma hasSuffix_iff: "hasSuffix s q \<longleftrightarrow> (\<exists>t. s = t @ q)"
  by (metis append_eq_append_conv append_take_drop_id diff_le_self hasSuffix_def
      length_append length_drop le_add2 diff_diff_cancel)

lemma split_on_not_Nil [simp]: "split_on c s \<noteq> []"
  by (cases s) (auto split: list.splits)

lemma join_split_on: "join_with [c] (split_on c s) = s"
proof (induction s)
  case Nil
  show ?case by simp
next
  case (Cons x xs)
  obtain w ws where w: "split_on c xs = w # ws"
    by (cases "split_on c xs") auto
  with Cons show ?case by (cases ws) auto
qed

lemma split_on_no_sep: "c \<notin> set w \<Longrightarrow> split_on c w = [w]"
  by (induction w) auto

lemma split_on_append_sep: "c \<notin> set w \<Longrightarrow> split_on c (w @ c # s) = w # split_on c s"
  by (induction w) auto

lemma split_join_on: "ws \<noteq> [] \<Longrightarrow> \<forall>w\<in>set ws. c \<notin> set w \<Longrightarrow> split_on c (join_with [c] ws) = ws"
  by (induction "[c]" ws rule: join_with.induct)
    (auto simp: split_on_no_sep split_on_append_sep)

lemma set_split_on_no_sep: "w \<in> set (split_on c s) \<Longrightarrow> c \<notin> set w"
  by (induction s arbitrary: w) (fastforce split: list.splits if_splits)+

lemma first_sep_inj:
  fixes xs :: string
  assumes "xs @ c # us = ys @ c # vs" and "c \<notin> set xs" and "c \<notin> set ys"
  shows "xs = ys \<and> us = vs"
proof -
  have "xs # split_on c us = ys # split_on c vs"
    using arg_cong [OF assms(1), of "split_on c"] by (simp only: split_on_append_sep [OF assms(2)] split_on_append_sep [OF assms(3)])
  with assms(1) show ?thesis by simp
qed

lemma lastIndex_Some_iff:
  "(\<exists>i. lastIndex s sub = Some i) \<longleftrightarrow> (\<exists>a b. s = a @ sub @ b)"
proof (induction s)
  case Nil
  show ?case by auto
next
  case (Cons x xs)
  show ?case
  proof (cases "lastIndex xs sub")
    case (Some i)
    then obtain a b where "xs = a @ sub @ b" using Cons by auto
    then have "x # xs = (x # a) @ sub @ b" by simp
    then have "\<exists>a b. x # xs = a @ sub @ b" by blast
    with Some show ?thesis by simp
  next
    case None
    then have no: "\<nexists>a b. xs = a @ sub @ b" using Cons by auto
    have "(\<exists>a b. x # xs = a @ sub @ b) \<longleftrightarrow> (\<exists>b. x # xs = sub @ b)"
      using no by (metis append_Nil append_eq_Cons_conv)
    with None show ?thesis by (auto simp: hasPrefix_iff)
  qed
qed

lemma lastIndex_SomeD:
  "lastIndex s sub = Some i \<Longrightarrow> i + length sub \<le> length s \<and> take (length sub) (drop i s) = sub"
proof (induction s arbitrary: i)
  case Nil
  then show ?case by (auto split: if_splits)
next
  case (Cons x xs)
  show ?case
  proof (cases "lastIndex xs sub")
    case (Some j)
    with Cons show ?thesis by auto
  next
    case None
    with Cons.prems have "hasPrefix (x # xs) sub" and "i = 0" by (auto split: if_splits)
    then obtain t where "x # xs = sub @ t" and "i = 0" by (auto simp: hasPrefix_iff)
    then show ?thesis by (simp only: length_append) simp
  qed
qed

subsection \<open>Decimal numbers\<close>

definition digit :: "nat \<Rightarrow> char" where
  "digit n = ''0123456789'' ! (n mod 10)"

definition digit_value :: "char \<Rightarrow> nat option" where
  "digit_value c = map_of (zip ''0123456789'' [0..<10]) c"

fun utoa :: "nat \<Rightarrow> string" where
  "utoa n = (if n < 10 then [digit n] else utoa (n div 10) @ [digit n])"

declare utoa.simps [simp del]

definition itoa :: "int \<Rightarrow> string" where
  \<comment> \<open>\<^verbatim>\<open>strconv.Itoa\<close>, and the verbs \<^verbatim>\<open>%d\<close> and \<^verbatim>\<open>%v\<close> on integers\<close>
  "itoa i = (if i < 0 then CHR ''-'' # utoa (nat (- i)) else utoa (nat i))"

fun atou_acc :: "nat \<Rightarrow> string \<Rightarrow> nat option" where
  "atou_acc n [] = Some n"
| "atou_acc n (c # cs) = (case digit_value c of None \<Rightarrow> None | Some d \<Rightarrow> atou_acc (10 * n + d) cs)"

definition atou :: "string \<Rightarrow> nat option" where
  "atou s = (if s = [] then None else atou_acc 0 s)"

definition parseInt :: "nat \<Rightarrow> string \<Rightarrow> int option" where
  \<comment> \<open>\<^verbatim>\<open>strconv.ParseInt(s, 10, w)\<close>: an optional sign, digits, and a range check\<close>
  "parseInt w s =
     (let (neg, t) = (case s of [] \<Rightarrow> (False, s) | c # cs \<Rightarrow>
            if c = CHR ''-'' then (True, cs) else if c = CHR ''+'' then (False, cs) else (False, s))
      in case atou t of
           None \<Rightarrow> None
         | Some n \<Rightarrow> (let i = (if neg then - int n else int n)
                     in if - (2 ^ (w - 1)) \<le> i \<and> i < 2 ^ (w - 1) then Some i else None))"

lemma digit_value_digit [simp]: "digit_value (digit n) = Some (n mod 10)"
proof -
  have "k < 10 \<Longrightarrow> digit_value (''0123456789'' ! k) = Some k" for k
    by (auto simp: digit_value_def less_Suc_eq upt_rec numeral_eq_Suc)
  then show ?thesis by (simp add: digit_def)
qed

lemma atou_acc_append: "atou_acc n (s @ t) = (case atou_acc n s of None \<Rightarrow> None | Some m \<Rightarrow> atou_acc m t)"
  by (induction s arbitrary: n) (auto split: option.splits)

lemma atou_acc_utoa: "atou_acc 0 (utoa n) = Some n"
proof (induction n rule: utoa.induct)
  case (1 n)
  show ?case
    by (cases "n < 10") (simp_all add: utoa.simps [of n] 1 atou_acc_append)
qed

lemma utoa_not_Nil [simp]: "utoa n \<noteq> []"
  by (simp add: utoa.simps [of n])

lemma atou_utoa [simp]: "atou (utoa n) = Some n"
  by (simp add: atou_def atou_acc_utoa)

lemma digit_not_sign: "digit n \<noteq> CHR ''-''" "digit n \<noteq> CHR ''+''"
proof -
  have "digit_value CHR ''-'' = None" "digit_value CHR ''+'' = None"
    by (simp_all add: digit_value_def upt_rec)
  then show "digit n \<noteq> CHR ''-''" "digit n \<noteq> CHR ''+''"
    by (metis digit_value_digit option.distinct(1))+
qed

lemma hd_utoa: "\<exists>m. hd (utoa n) = digit m"
proof (induction n rule: utoa.induct)
  case (1 n)
  then show ?case by (cases "n < 10") (auto simp: utoa.simps [of n] hd_append)
qed

lemma parseInt_itoa:
  assumes "- (2 ^ (w - 1)) \<le> i" and "i < 2 ^ (w - 1)"
  shows "parseInt w (itoa i) = Some i"
proof (cases "i < 0")
  case True
  with assms show ?thesis by (simp add: parseInt_def itoa_def Let_def)
next
  case False
  obtain c cs m where "utoa (nat i) = c # cs" and "c = digit m"
    using hd_utoa [of "nat i"] by (cases "utoa (nat i)") auto
  with False assms show ?thesis
    using atou_utoa [of "nat i"] by (simp add: parseInt_def itoa_def Let_def digit_not_sign)
qed

subsection \<open>Sorting by a key\<close>

text \<open>
  \<^verbatim>\<open>sort.SliceStable\<close> with a comparison of keys is \<^const>\<open>sort_key\<close>, which is stable. Its
  result does not depend on the order of the input when the keys are distinct.
\<close>

lemma sort_key_eq_of_mset:
  assumes "mset xs = mset ys" and "distinct (map f xs)"
  shows "sort_key f xs = sort_key f ys"
proof (rule properties_for_sort_key)
  show "mset (sort_key f ys) = mset xs" using assms(1) by simp
  show "sorted (map f (sort_key f ys))" by simp
  fix k assume "k \<in> set (sort_key f ys)"
  have one: "length (filter (\<lambda>x. f k = f x) zs) \<le> 1" if "distinct (map f zs)" for zs
    using that by (induction zs) (auto simp: filter_empty_conv image_iff)
  let ?P = "\<lambda>x. f k = f x"
  have eq: "mset (filter ?P (sort_key f ys)) = mset (filter ?P xs)"
    using assms(1) by simp
  have "length (filter ?P xs) \<le> 1" by (rule one [OF assms(2)])
  with eq show "filter ?P (sort_key f ys) = filter ?P xs"
    by (cases "filter ?P xs") (simp_all del: mset_filter add: mset_single_iff)
qed

subsection \<open>Transition systems\<close>

inductive reachable :: "('s \<Rightarrow> bool) \<Rightarrow> ('s \<Rightarrow> 's \<Rightarrow> bool) \<Rightarrow> 's \<Rightarrow> bool"
  for init :: "'s \<Rightarrow> bool" and step :: "'s \<Rightarrow> 's \<Rightarrow> bool" where
  reachable_init: "init s \<Longrightarrow> reachable init step s"
| reachable_step: "reachable init step s \<Longrightarrow> step s t \<Longrightarrow> reachable init step t"

locale inductive_invariant =
  fixes init :: "'s \<Rightarrow> bool"
    and step :: "'s \<Rightarrow> 's \<Rightarrow> bool"
    and inv :: "'s \<Rightarrow> bool"
  assumes inv_init: "init s \<Longrightarrow> inv s"
    and inv_step: "inv s \<Longrightarrow> step s t \<Longrightarrow> inv t"
begin

lemma reachable_inv: "reachable init step s \<Longrightarrow> inv s"
  by (induction rule: reachable.induct) (auto intro: inv_init inv_step)

lemma steps_inv: "rtranclp step s t \<Longrightarrow> inv s \<Longrightarrow> inv t"
  by (induction rule: rtranclp_induct) (auto intro: inv_step)

end

end
