(* ===== verification/Label_Selector.thy ===== *)
theory Label_Selector
  imports Prelude
begin

section \<open>Label selectors (\<^verbatim>\<open>util/selector.go\<close>)\<close>

text \<open>
  The selectors of the API (\<open>label_selector\<close>), their merge and negation, and their
  compilation to the matcher of \<^verbatim>\<open>k8s.io/apimachinery/pkg/labels\<close>. The lemmas give the
  declarative meaning of a compiled selector (\<open>selector_sat\<close>), say when a merge is
  the conjunction of its arguments, and what a negation excludes.
\<close>

named_theorems selector_defs \<open>definitions of the selector operations\<close>

subsection \<open>Data\<close>

datatype label_op = OpIn | OpNotIn | OpExists | OpDoesNotExist | OpOther string

record label_requirement =
  lsr_key :: string
  lsr_operator :: label_op
  lsr_values :: "string list"

record label_selector =
  matchLabels :: labels
  matchExpressions :: "label_requirement list"

datatype selection_op = SelIn | SelNotIn | SelEquals | SelExists | SelDoesNotExist

record requirement =
  req_key :: string
  req_operator :: selection_op
  strValues :: "string list"

datatype selector = Nothing | Selector "requirement list"

abbreviation Everything :: selector where
  "Everything \<equiv> Selector []"

definition selector_ok :: "label_selector \<Rightarrow> bool" where
  "selector_ok s \<longleftrightarrow> gomap_ok (matchLabels s)"

definition selector_deep_equal :: "label_selector \<Rightarrow> label_selector \<Rightarrow> bool" where
  \<comment> \<open>\<^verbatim>\<open>reflect.DeepEqual\<close> on two selectors of the proxy: maps up to order, slices in order. These
     selectors are decoded from strings that the manager has encoded with \<^verbatim>\<open>omitempty\<close>, so that
     their empty maps and slices are nil, and merging and negating keep this\<close>
  "selector_deep_equal a b \<longleftrightarrow>
     gomap_eq (matchLabels a) (matchLabels b) \<and> matchExpressions a = matchExpressions b"

fun selector_opt_deep_equal :: "label_selector option \<Rightarrow> label_selector option \<Rightarrow> bool" where
  "selector_opt_deep_equal None None = True"
| "selector_opt_deep_equal (Some a) (Some b) = selector_deep_equal a b"
| "selector_opt_deep_equal _ _ = False"

subsection \<open>Merging and negating\<close>

definition merge_selectors :: "label_selector \<Rightarrow> label_selector \<Rightarrow> label_selector" where
  \<comment> \<open>the case of two non-nil arguments\<close>
  [selector_defs]:
  "merge_selectors a b =
     \<lparr>matchLabels = gomap_set_all (matchLabels a) (matchLabels b),
      matchExpressions = matchExpressions a @ matchExpressions b\<rparr>"

definition MergeLabelSelector ::
    "label_selector option \<Rightarrow> label_selector option \<Rightarrow> label_selector option" where
  [selector_defs]:
  "MergeLabelSelector selA selB =
     (case selB of
        None \<Rightarrow> selA
      | Some b \<Rightarrow>
          (case selA of
             None \<Rightarrow> selB
           | Some a \<Rightarrow> Some (merge_selectors a b)))"

definition negate_label :: "string \<times> string \<Rightarrow> label_requirement" where
  "negate_label kv = \<lparr>lsr_key = fst kv, lsr_operator = OpNotIn, lsr_values = [snd kv]\<rparr>"

fun negate_op :: "label_op \<Rightarrow> label_op" where
  "negate_op OpIn = OpNotIn"
| "negate_op OpNotIn = OpIn"
| "negate_op OpExists = OpDoesNotExist"
| "negate_op OpDoesNotExist = OpExists"
| "negate_op (OpOther _) = OpOther ''''"

definition negate_expr :: "label_requirement \<Rightarrow> label_requirement" where
  "negate_expr e = e\<lparr>lsr_operator := negate_op (lsr_operator e)\<rparr>"

definition negate_selector :: "label_selector \<Rightarrow> label_selector" where
  \<comment> \<open>the case of a non-nil argument\<close>
  [selector_defs]:
  "negate_selector s =
     \<lparr>matchLabels = [],
      matchExpressions =
        sort_key lsr_key (map negate_label (matchLabels s))
        @ map negate_expr (matchExpressions s)\<rparr>"

definition NegateLabelSelector :: "label_selector option \<Rightarrow> label_selector option" where
  [selector_defs]:
  "NegateLabelSelector sel = map_option negate_selector sel"

subsection \<open>Compilation\<close>

definition newRequirement :: "string \<Rightarrow> selection_op \<Rightarrow> string list \<Rightarrow> requirement" where
  "newRequirement key op vals = \<lparr>req_key = key, req_operator = op, strValues = vals\<rparr>"

definition selector_add :: "requirement list \<Rightarrow> requirement \<Rightarrow> requirement list" where
  \<comment> \<open>\<^verbatim>\<open>internalSelector.Add\<close>: append, then sort by key\<close>
  "selector_add s r = sort_key req_key (s @ [r])"

fun compile_op :: "label_op \<Rightarrow> string + selection_op" where
  "compile_op OpIn = Inr SelIn"
| "compile_op OpNotIn = Inr SelNotIn"
| "compile_op OpExists = Inr SelExists"
| "compile_op OpDoesNotExist = Inr SelDoesNotExist"
| "compile_op (OpOther op) = Inl op"

fun compile_exprs :: "requirement list \<Rightarrow> label_requirement list \<Rightarrow> string + requirement list" where
  "compile_exprs acc [] = Inr acc"
| "compile_exprs acc (e # es) =
     (case compile_op (lsr_operator e) of
        Inl op \<Rightarrow> Inl op
      | Inr op \<Rightarrow> compile_exprs (selector_add acc (newRequirement (lsr_key e) op (lsr_values e))) es)"

definition compile_labels :: "labels \<Rightarrow> requirement list" where
  "compile_labels m =
     foldl (\<lambda>acc kv. selector_add acc (newRequirement (fst kv) SelEquals [snd kv])) [] m"

definition ValidatedLabelSelectorAsSelector :: "label_selector option \<Rightarrow> string + selector" where
  [selector_defs]:
  "ValidatedLabelSelectorAsSelector ps =
     (case ps of
        None \<Rightarrow> Inr Nothing
      | Some s \<Rightarrow>
          (if length (matchLabels s) + length (matchExpressions s) = 0 then Inr Everything
           else (case compile_exprs (compile_labels (matchLabels s)) (matchExpressions s) of
                   Inl op \<Rightarrow> Inl op
                 | Inr rs \<Rightarrow> Inr (Selector rs))))"

definition requirement_matches :: "requirement \<Rightarrow> labels \<Rightarrow> bool" where
  "requirement_matches r ls =
     (case req_operator r of
        SelIn \<Rightarrow> (case map_of ls (req_key r) of None \<Rightarrow> False | Some v \<Rightarrow> v \<in> set (strValues r))
      | SelEquals \<Rightarrow> (case map_of ls (req_key r) of None \<Rightarrow> False | Some v \<Rightarrow> v \<in> set (strValues r))
      | SelNotIn \<Rightarrow> (case map_of ls (req_key r) of None \<Rightarrow> True | Some v \<Rightarrow> v \<notin> set (strValues r))
      | SelExists \<Rightarrow> map_of ls (req_key r) \<noteq> None
      | SelDoesNotExist \<Rightarrow> map_of ls (req_key r) = None)"

fun selector_matches :: "selector \<Rightarrow> labels \<Rightarrow> bool" where
  "selector_matches Nothing ls = False"
| "selector_matches (Selector rs) ls = list_all (\<lambda>r. requirement_matches r ls) rs"

subsection \<open>The declarative meaning\<close>

text \<open>
  \<open>selector_sat\<close> reads a selector off the API documentation: every label of
  \<^verbatim>\<open>matchLabels\<close> is present with its value and every expression holds.
\<close>

definition label_sat :: "string \<times> string \<Rightarrow> labels \<Rightarrow> bool" where
  "label_sat kv ls \<longleftrightarrow> map_of ls (fst kv) = Some (snd kv)"

definition expr_sat :: "label_requirement \<Rightarrow> labels \<Rightarrow> bool" where
  "expr_sat e ls =
     (case lsr_operator e of
        OpIn \<Rightarrow> (\<exists>v\<in>set (lsr_values e). map_of ls (lsr_key e) = Some v)
      | OpNotIn \<Rightarrow> (\<forall>v\<in>set (lsr_values e). map_of ls (lsr_key e) \<noteq> Some v)
      | OpExists \<Rightarrow> map_of ls (lsr_key e) \<noteq> None
      | OpDoesNotExist \<Rightarrow> map_of ls (lsr_key e) = None
      | OpOther _ \<Rightarrow> False)"

definition selector_sat :: "label_selector \<Rightarrow> labels \<Rightarrow> bool" where
  "selector_sat s ls \<longleftrightarrow>
     (\<forall>kv\<in>set (matchLabels s). label_sat kv ls) \<and> (\<forall>e\<in>set (matchExpressions s). expr_sat e ls)"

fun op_valid :: "label_op \<Rightarrow> bool" where
  "op_valid (OpOther _) = False"
| "op_valid _ = True"

definition ops_valid :: "label_selector \<Rightarrow> bool" where
  "ops_valid s \<longleftrightarrow> (\<forall>e\<in>set (matchExpressions s). op_valid (lsr_operator e))"

lemma set_selector_add [simp]: "set (selector_add s r) = insert r (set s)"
  by (simp add: selector_add_def)

lemma set_compile_labels: "set (compile_labels m) = (\<lambda>kv. newRequirement (fst kv) SelEquals [snd kv]) ` set m"
proof -
  have "set (foldl (\<lambda>acc kv. selector_add acc (newRequirement (fst kv) SelEquals [snd kv])) acc m)
      = set acc \<union> (\<lambda>kv. newRequirement (fst kv) SelEquals [snd kv]) ` set m" for acc
    by (induction m arbitrary: acc) auto
  then show ?thesis by (simp add: compile_labels_def)
qed

lemma requirement_matches_label:
  "requirement_matches (newRequirement k SelEquals [v]) ls \<longleftrightarrow> label_sat (k, v) ls"
  by (auto simp: newRequirement_def label_sat_def requirement_matches_def split: option.splits)

lemma requirement_matches_expr:
  "compile_op (lsr_operator e) = Inr op \<Longrightarrow>
   requirement_matches (newRequirement (lsr_key e) op (lsr_values e)) ls \<longleftrightarrow> expr_sat e ls"
  by (cases "lsr_operator e") (auto simp: newRequirement_def requirement_matches_def expr_sat_def split: option.splits)

lemma compile_exprs_matches:
  "compile_exprs acc es = Inr rs \<Longrightarrow>
   list_all (\<lambda>r. requirement_matches r ls) rs \<longleftrightarrow>
     list_all (\<lambda>r. requirement_matches r ls) acc \<and> (\<forall>e\<in>set es. expr_sat e ls)"
proof (induction es arbitrary: acc)
  case Nil
  then show ?case by simp
next
  case (Cons e es)
  from Cons.prems obtain op where op: "compile_op (lsr_operator e) = Inr op"
    and rest: "compile_exprs (selector_add acc (newRequirement (lsr_key e) op (lsr_values e))) es = Inr rs"
    by (auto split: sum.splits)
  show ?case
    unfolding Cons.IH [OF rest]
    by (auto simp: list_all_iff requirement_matches_expr [OF op])
qed

lemma compile_exprs_error:
  "(\<exists>op. compile_exprs acc es = Inl op) \<longleftrightarrow> (\<exists>e\<in>set es. \<not> op_valid (lsr_operator e))"
proof (induction es arbitrary: acc)
  case Nil
  show ?case by simp
next
  case (Cons e es)
  then show ?case by (cases "lsr_operator e") auto
qed

lemma compiled_selector_matches:
  assumes "ValidatedLabelSelectorAsSelector (Some s) = Inr sel"
  shows "selector_matches sel ls \<longleftrightarrow> selector_sat s ls"
proof (cases "length (matchLabels s) + length (matchExpressions s) = 0")
  case True
  with assms show ?thesis by (auto simp: selector_defs selector_sat_def)
next
  case False
  then obtain rs where sel: "sel = Selector rs"
    and rs: "compile_exprs (compile_labels (matchLabels s)) (matchExpressions s) = Inr rs"
    using assms by (auto simp: selector_defs split: sum.splits if_splits)
  have "list_all (\<lambda>r. requirement_matches r ls) (compile_labels (matchLabels s)) \<longleftrightarrow>
      (\<forall>kv\<in>set (matchLabels s). label_sat kv ls)"
    by (auto simp: list_all_iff set_compile_labels requirement_matches_label)
  then show ?thesis
    by (simp add: sel compile_exprs_matches [OF rs] selector_sat_def)
qed

lemma compiled_selector_error:
  "(\<exists>op. ValidatedLabelSelectorAsSelector (Some s) = Inl op) \<longleftrightarrow> \<not> ops_valid s"
  using compile_exprs_error [of "compile_labels (matchLabels s)" "matchExpressions s"]
  by (auto simp: selector_defs ops_valid_def split: sum.splits)

lemma compiled_selector_ok:
  "ops_valid s \<Longrightarrow> \<exists>sel. ValidatedLabelSelectorAsSelector (Some s) = Inr sel"
  using compiled_selector_error [of s]
  by (cases "ValidatedLabelSelectorAsSelector (Some s)") auto

subsection \<open>Merge as conjunction\<close>

lemma labels_sat_iff:
  assumes "gomap_ok m"
  shows "(\<forall>kv\<in>set m. label_sat kv ls) \<longleftrightarrow> map_of m \<subseteq>\<^sub>m map_of ls"
proof -
  have "(\<forall>kv\<in>set m. label_sat kv ls) \<longleftrightarrow> (\<forall>k v. map_of m k = Some v \<longrightarrow> map_of ls k = Some v)"
    using assms by (auto simp: label_sat_def gomap_ok_def)
  also have "\<dots> \<longleftrightarrow> map_of m \<subseteq>\<^sub>m map_of ls"
    by (auto simp: map_le_def dom_def)
  finally show ?thesis .
qed

lemma selector_sat_iff:
  "selector_ok s \<Longrightarrow>
   selector_sat s ls \<longleftrightarrow> map_of (matchLabels s) \<subseteq>\<^sub>m map_of ls \<and> (\<forall>e\<in>set (matchExpressions s). expr_sat e ls)"
  by (simp add: selector_sat_def selector_ok_def labels_sat_iff)

lemma selector_ok_merge: "selector_ok a \<Longrightarrow> selector_ok (merge_selectors a b)"
  by (simp add: selector_ok_def merge_selectors_def gomap_ok_set_all)

lemma selector_ok_negate [simp]: "selector_ok (negate_selector s)"
  by (simp add: selector_ok_def negate_selector_def gomap_ok_def)

lemma merge_selectors_sat:
  assumes "selector_ok a" and "selector_ok b"
  shows "selector_sat (merge_selectors a b) ls \<longleftrightarrow>
     (map_of (matchLabels a) ++ map_of (matchLabels b)) \<subseteq>\<^sub>m map_of ls \<and>
     (\<forall>e\<in>set (matchExpressions a @ matchExpressions b). expr_sat e ls)"
  unfolding selector_sat_iff [OF selector_ok_merge [OF assms(1)]]
  using assms(2)
  by (simp add: merge_selectors_def map_of_gomap_set_all selector_ok_def)

lemma map_add_le_iff:
  assumes "\<And>k v w. f k = Some v \<Longrightarrow> g k = Some w \<Longrightarrow> v = w"
  shows "f ++ g \<subseteq>\<^sub>m h \<longleftrightarrow> f \<subseteq>\<^sub>m h \<and> g \<subseteq>\<^sub>m h"
proof
  assume le: "f ++ g \<subseteq>\<^sub>m h"
  then have g: "g \<subseteq>\<^sub>m h" by (rule map_add_le_mapE)
  have "h k = Some v" if "f k = Some v" for k v
    using le g assms [OF that] that
    by (cases "g k") (force simp: map_le_def map_add_def dom_def)+
  then have "f \<subseteq>\<^sub>m h" by (auto simp: map_le_def dom_def)
  with g show "f \<subseteq>\<^sub>m h \<and> g \<subseteq>\<^sub>m h" by simp
qed (simp add: map_add_le_mapI)

subsection \<open>Negation\<close>

lemma negate_label_sat: "expr_sat (negate_label kv) ls \<longleftrightarrow> \<not> label_sat kv ls"
  by (simp add: negate_label_def label_sat_def expr_sat_def)

lemma negate_expr_sat:
  "op_valid (lsr_operator e) \<Longrightarrow> expr_sat (negate_expr e) ls \<longleftrightarrow> \<not> expr_sat e ls"
  by (cases "lsr_operator e") (auto simp: negate_expr_def expr_sat_def)

lemma negate_expr_sat_imp: "expr_sat (negate_expr e) ls \<Longrightarrow> \<not> expr_sat e ls"
  by (cases "lsr_operator e") (auto simp: negate_expr_def expr_sat_def)

lemma negate_selector_sat_iff:
  "selector_sat (negate_selector s) ls \<longleftrightarrow>
     (\<forall>kv\<in>set (matchLabels s). \<not> label_sat kv ls) \<and>
     (\<forall>e\<in>set (matchExpressions s). expr_sat (negate_expr e) ls)"
  by (simp add: selector_sat_def negate_selector_def ball_Un negate_label_sat)

definition nontrivial :: "label_selector \<Rightarrow> bool" where
  \<comment> \<open>the selector has at least one requirement\<close>
  "nontrivial s \<longleftrightarrow> matchLabels s \<noteq> [] \<or> matchExpressions s \<noteq> []"

lemma negate_selector_disjoint:
  assumes "nontrivial s" and "selector_sat (negate_selector s) ls"
  shows "\<not> selector_sat s ls"
proof -
  consider kv where "kv \<in> set (matchLabels s)" | e where "e \<in> set (matchExpressions s)"
    using assms(1) by (metis list.set_intros(1) neq_Nil_conv nontrivial_def)
  then show ?thesis
    using assms(2) negate_expr_sat_imp
    unfolding negate_selector_sat_iff
    by cases (auto simp: selector_sat_def)
qed

subsection \<open>The interface used by the router\<close>

text \<open>
  A client that builds one selector from many needs only these laws: the last selector
  merged in is enforced in full, the expressions of all of them are (\<open>core\<close>), and a
  negation excludes what a non-trivial selector selects.
\<close>

locale selector_algebra =
  fixes sat :: "'sel \<Rightarrow> 'o \<Rightarrow> bool"
    and core :: "'sel \<Rightarrow> 'o \<Rightarrow> bool"
    and merge :: "'sel \<Rightarrow> 'sel \<Rightarrow> 'sel"
    and neg :: "'sel \<Rightarrow> 'sel"
    and proper :: "'sel \<Rightarrow> bool"
    and ok :: "'sel \<Rightarrow> bool"
  assumes sat_merge_right: "ok a \<Longrightarrow> ok b \<Longrightarrow> sat (merge a b) x \<Longrightarrow> sat b x"
    and core_merge: "core (merge a b) x \<longleftrightarrow> core a x \<and> core b x"
    and sat_core: "sat a x \<Longrightarrow> core a x"
    and core_neg: "core (neg a) x \<Longrightarrow> proper a \<Longrightarrow> \<not> sat a x"
    and ok_merge: "ok a \<Longrightarrow> ok b \<Longrightarrow> ok (merge a b)"
begin

lemma core_fold: "core (foldl merge a xs) x \<longleftrightarrow> core a x \<and> (\<forall>b\<in>set xs. core b x)"
  by (induction xs arbitrary: a) (auto simp: core_merge)

lemma ok_fold: "ok a \<Longrightarrow> \<forall>b\<in>set xs. ok b \<Longrightarrow> ok (foldl merge a xs)"
  by (induction xs arbitrary: a) (auto intro: ok_merge)

lemma sat_fold_last:
  assumes "ok a" and "\<forall>b\<in>set xs. ok b" and "sat (foldl merge a xs) x" and "xs \<noteq> []"
  shows "sat (last xs) x"
proof -
  obtain ys y where xs: "xs = ys @ [y]" using assms(4) by (cases xs rule: rev_cases) auto
  have "sat (merge (foldl merge a ys) y) x" using assms(3) by (simp add: xs)
  moreover have "ok (foldl merge a ys)" and "ok y" using assms(1,2) by (auto simp: xs intro: ok_fold)
  ultimately show ?thesis by (auto simp: xs dest: sat_merge_right)
qed

text \<open>A selector that ends in \<open>y\<close> and one that merges in the negation of \<open>y\<close> select disjoint sets.\<close>

lemma fold_disjoint:
  assumes "ok a" and "\<forall>b\<in>set xs. ok b" and "xs \<noteq> []" and "proper (last xs)"
    and "sat (foldl merge a xs) x"
    and "neg (last xs) \<in> set (b # ys)"
  shows "\<not> sat (foldl merge b ys) x"
proof
  assume "sat (foldl merge b ys) x"
  then have "core (neg (last xs)) x"
    using assms(6) by (auto dest!: sat_core simp: core_fold)
  moreover have "sat (last xs) x"
    using assms(1-3,5) by (intro sat_fold_last)
  ultimately show False using assms(4) core_neg by blast
qed

end

definition exprs_sat :: "label_selector \<Rightarrow> labels \<Rightarrow> bool" where
  "exprs_sat s ls \<longleftrightarrow> (\<forall>e\<in>set (matchExpressions s). expr_sat e ls)"

interpretation lsel: selector_algebra
  selector_sat exprs_sat merge_selectors negate_selector nontrivial selector_ok
proof unfold_locales
  fix a b s :: label_selector and x :: labels
  show "selector_ok a \<Longrightarrow> selector_ok b \<Longrightarrow> selector_sat (merge_selectors a b) x \<Longrightarrow> selector_sat b x"
    using map_le_map_add map_le_trans
    by (fastforce simp: merge_selectors_sat selector_sat_iff)
  show "exprs_sat (merge_selectors a b) x \<longleftrightarrow> exprs_sat a x \<and> exprs_sat b x"
    by (auto simp: exprs_sat_def merge_selectors_def)
  show "selector_sat a x \<Longrightarrow> exprs_sat a x"
    by (simp add: exprs_sat_def selector_sat_def)
  show "\<not> selector_sat a x" if "exprs_sat (negate_selector a) x" and "nontrivial a"
  proof (rule negate_selector_disjoint [OF that(2)])
    show "selector_sat (negate_selector a) x"
      using that(1) by (simp add: exprs_sat_def selector_sat_def negate_selector_def)
  qed
  show "selector_ok a \<Longrightarrow> selector_ok b \<Longrightarrow> selector_ok (merge_selectors a b)"
    by (rule selector_ok_merge)
qed

subsection \<open>Properties\<close>

text \<open>
  C18. Compilation. A selector compiles exactly when all its operators are known, and the
  compiled matcher accepts exactly the label sets that satisfy every label and every
  expression; a nil selector matches nothing.
\<close>

theorem ValidatedLabelSelectorAsSelector_correct:
  "ValidatedLabelSelectorAsSelector None = Inr Nothing \<and> \<not> selector_matches Nothing ls
   \<and> (if ops_valid s
      then (case ValidatedLabelSelectorAsSelector (Some s) of
              Inr sel \<Rightarrow> selector_matches sel ls \<longleftrightarrow> selector_sat s ls | Inl _ \<Rightarrow> False)
      else \<exists>op. ValidatedLabelSelectorAsSelector (Some s) = Inl op)"
  using compiled_selector_ok [of s] compiled_selector_error [of s] compiled_selector_matches [of s _ ls]
  by (auto simp: ValidatedLabelSelectorAsSelector_def [of None])

text \<open>
  C19. Merging. Where the two selectors give no label two different values, their merge
  selects the intersection. Where they do, the code keeps the value of the second
  selector, and everything the merge selects violates the first one.
\<close>

theorem MergeLabelSelector_conjunction:
  assumes "selector_ok a" and "selector_ok b" and "MergeLabelSelector (Some a) (Some b) = Some m"
  shows "if \<forall>k\<in>dom (map_of (matchLabels a)) \<inter> dom (map_of (matchLabels b)).
              map_of (matchLabels a) k = map_of (matchLabels b) k
    then selector_sat m ls \<longleftrightarrow> selector_sat a ls \<and> selector_sat b ls
    else selector_sat m ls \<longrightarrow> selector_sat b ls \<and> \<not> selector_sat a ls"
proof -
  have m: "m = merge_selectors a b" using assms(3) by (simp add: MergeLabelSelector_def)
  show ?thesis
  proof (cases "\<forall>k\<in>dom (map_of (matchLabels a)) \<inter> dom (map_of (matchLabels b)).
      map_of (matchLabels a) k = map_of (matchLabels b) k")
    case True
    then have "map_of (matchLabels a) k = Some v \<Longrightarrow> map_of (matchLabels b) k = Some w \<Longrightarrow> v = w" for k v w
      by (metis IntI domI option.inject)
    with True show ?thesis
      by (auto simp: m merge_selectors_sat [OF assms(1,2)] selector_sat_iff assms map_add_le_iff)
  next
    case False
    then obtain k v w where kv: "map_of (matchLabels a) k = Some v"
      and kw: "map_of (matchLabels b) k = Some w" and "v \<noteq> w" by fastforce
    have "selector_sat m ls \<Longrightarrow> selector_sat b ls"
      unfolding m by (rule lsel.sat_merge_right [OF assms(1,2)])
    moreover have "selector_sat b ls \<Longrightarrow> \<not> selector_sat a ls"
      using kv kw \<open>v \<noteq> w\<close> by (force simp: selector_sat_iff assms map_le_def dom_def)
    ultimately show ?thesis using False by auto
  qed
qed

theorem MergeLabelSelector_conjunction_witness:
  "MergeLabelSelector (Some \<lparr>matchLabels = [(''a'', ''1'')], matchExpressions = []\<rparr>)
      (Some \<lparr>matchLabels = [(''a'', ''2'')], matchExpressions = []\<rparr>)
    = Some \<lparr>matchLabels = [(''a'', ''2'')], matchExpressions = []\<rparr>
   \<and> selector_sat \<lparr>matchLabels = [(''a'', ''2'')], matchExpressions = []\<rparr> [(''a'', ''2'')]
   \<and> \<not> selector_sat \<lparr>matchLabels = [(''a'', ''1'')], matchExpressions = []\<rparr> [(''a'', ''2'')]"
proof -
  let ?a = "\<lparr>matchLabels = [(''a'', ''1'')], matchExpressions = []\<rparr>"
    and ?b = "\<lparr>matchLabels = [(''a'', ''2'')], matchExpressions = []\<rparr>"
  have "selector_ok ?a" and "selector_ok ?b"
    by (simp_all add: selector_ok_def gomap_ok_def)
  moreover have m: "MergeLabelSelector (Some ?a) (Some ?b) = Some ?b"
    by (simp add: selector_defs gomap_set_all_def)
  ultimately have "selector_sat ?b [(''a'', ''2'')] \<longrightarrow> \<not> selector_sat ?a [(''a'', ''2'')]"
    using MergeLabelSelector_conjunction [of ?a ?b ?b "[(''a'', ''2'')]"] by simp
  with m show ?thesis by (simp add: selector_sat_def label_sat_def)
qed

text \<open>
  Negation. The negation selects exactly the label sets that satisfy none of the
  requirements (not merely: not all of them). So it is disjoint from a selector with at
  least one requirement, it is the complement of a selector with exactly one, and the
  result does not depend on the order in which Go visits \<^verbatim>\<open>matchLabels\<close>.
\<close>

theorem NegateLabelSelector_none_of:
  assumes "ops_valid s" and "NegateLabelSelector (Some s) = Some n"
  shows "(selector_sat n ls \<longleftrightarrow>
      (\<forall>kv\<in>set (matchLabels s). \<not> label_sat kv ls) \<and> (\<forall>e\<in>set (matchExpressions s). \<not> expr_sat e ls))
    \<and> (nontrivial s \<longrightarrow> \<not> (selector_sat n ls \<and> selector_sat s ls))
    \<and> (length (matchLabels s) + length (matchExpressions s) = 1 \<longrightarrow>
         (selector_sat n ls \<longleftrightarrow> \<not> selector_sat s ls))
    \<and> (selector_ok s \<longrightarrow> mset m = mset (matchLabels s) \<longrightarrow>
         NegateLabelSelector (Some (s\<lparr>matchLabels := m\<rparr>)) = Some n)"
proof -
  have n: "n = negate_selector s" using assms(2) by (simp add: NegateLabelSelector_def)
  have neg: "selector_sat n ls \<longleftrightarrow>
      (\<forall>kv\<in>set (matchLabels s). \<not> label_sat kv ls) \<and> (\<forall>e\<in>set (matchExpressions s). \<not> expr_sat e ls)"
    using assms(1) by (auto simp: n negate_selector_sat_iff negate_expr_sat ops_valid_def)
  moreover have "nontrivial s \<Longrightarrow> \<not> (selector_sat n ls \<and> selector_sat s ls)"
    using negate_selector_disjoint [of s ls] by (auto simp: n)
  moreover have "selector_sat n ls \<longleftrightarrow> \<not> selector_sat s ls"
    if one: "length (matchLabels s) + length (matchExpressions s) = 1"
  proof -
    consider kv where "matchLabels s = [kv]" "matchExpressions s = []"
      | e where "matchLabels s = []" "matchExpressions s = [e]"
      using one by (cases "matchLabels s"; cases "matchExpressions s") auto
    then show ?thesis unfolding neg by cases (simp_all add: selector_sat_def)
  qed
  moreover have "NegateLabelSelector (Some (s\<lparr>matchLabels := m\<rparr>)) = Some n"
    if "selector_ok s" and "mset m = mset (matchLabels s)"
  proof -
    have "distinct (map lsr_key (map negate_label (matchLabels s)))"
      using that(1) by (simp add: selector_ok_def gomap_ok_def negate_label_def comp_def)
    then have "sort_key lsr_key (map negate_label (matchLabels s)) = sort_key lsr_key (map negate_label m)"
      by (intro sort_key_eq_of_mset) (simp_all add: that(2))
    then show ?thesis by (simp add: n NegateLabelSelector_def negate_selector_def)
  qed
  ultimately show ?thesis by blast
qed

theorem NegateLabelSelector_none_of_witness:
  "NegateLabelSelector (Some \<lparr>matchLabels = [(''a'', ''1''), (''b'', ''2'')], matchExpressions = []\<rparr>)
    = Some \<lparr>matchLabels = [], matchExpressions =
        [\<lparr>lsr_key = ''a'', lsr_operator = OpNotIn, lsr_values = [''1'']\<rparr>,
         \<lparr>lsr_key = ''b'', lsr_operator = OpNotIn, lsr_values = [''2'']\<rparr>]\<rparr>
   \<and> \<not> selector_sat \<lparr>matchLabels = [], matchExpressions =
        [\<lparr>lsr_key = ''a'', lsr_operator = OpNotIn, lsr_values = [''1'']\<rparr>,
         \<lparr>lsr_key = ''b'', lsr_operator = OpNotIn, lsr_values = [''2'']\<rparr>]\<rparr> [(''a'', ''1''), (''b'', ''3'')]"
proof -
  let ?s = "\<lparr>matchLabels = [(''a'', ''1''), (''b'', ''2'')], matchExpressions = []\<rparr>"
  have v: "ops_valid ?s" by (simp add: ops_valid_def)
  have n: "NegateLabelSelector (Some ?s) = Some \<lparr>matchLabels = [], matchExpressions =
        [\<lparr>lsr_key = ''a'', lsr_operator = OpNotIn, lsr_values = [''1'']\<rparr>,
         \<lparr>lsr_key = ''b'', lsr_operator = OpNotIn, lsr_values = [''2'']\<rparr>]\<rparr>"
    by (simp add: selector_defs negate_label_def)
  from NegateLabelSelector_none_of [OF v n, of "[(''a'', ''1''), (''b'', ''3'')]" "[]"] n
  show ?thesis by (simp add: label_sat_def)
qed

end
