(* ===== verification/Internal_Spec.thy ===== *)
theory Internal_Spec
  imports Label_Selector
begin

section \<open>The proxy's routing rules (\<^verbatim>\<open>apis/ctrlmesh/proto\<close>)\<close>

text \<open>
  The messages the manager dispatches (\<^verbatim>\<open>ctrlmesh.proto\<close>), their conversion to the
  internal form, and the routing decisions of \<^verbatim>\<open>ctrlmesh_internal.go\<close>: which subset a
  namespace belongs to, whether a user agent or a namespace matches the proxy's own
  subset, which label selector a list or watch must carry, and which endpoints a webhook
  request is redirected to.

  A method of \<open>internal_spec\<close> dereferences the pointer \<^verbatim>\<open>routeInternal\<close>, which is nil
  when the message had no route: it returns an option whose \<^const>\<open>None\<close> is that panic.
  Decoding the JSON text of an object selector is Go's \<^verbatim>\<open>encoding/json\<close>; it is the
  parameter \<open>ju\<close>, which returns the value left in the target and the error, if any.
\<close>

named_theorems route_defs \<open>definitions of the routing functions\<close>

subsection \<open>Messages\<close>

record group_resource =
  gr_Group :: string
  gr_Resource :: string

definition gr_Empty :: "group_resource \<Rightarrow> bool" where
  "gr_Empty gr \<longleftrightarrow> gr_Group gr = '''' \<and> gr_Resource gr = ''''"

definition gr_String :: "group_resource \<Rightarrow> string" where
  "gr_String gr =
     (if gr_Group gr = '''' then gr_Resource gr else gr_Resource gr @ ''.'' @ gr_Group gr)"

record api_group_resource =
  agr_ApiGroups :: "string list"
  agr_Resources :: "string list"

record match_limit_rule_v1 =
  mlr_Namespaces :: "string list"
  mlr_ObjectSelector :: string
  mlr_Resources :: "api_group_resource list"

record subset_limit_v1 =
  sl_Subset :: string
  sl_Limits :: "match_limit_rule_v1 list"

record route_v1 =
  rt_Subset :: string
  rt_GlobalLimits :: "match_limit_rule_v1 list"
  rt_SubsetLimits :: "subset_limit_v1 list"
  rt_SubsetPublicResources :: "api_group_resource list"
  rt_SubsetDefaultOnlyUserAgents :: "string list"

record spec_meta_v1 =
  sm_VAppName :: string
  sm_Hash :: string

record endpoint_v1 =
  ep_Name :: string
  ep_Subset :: string
  ep_Ip :: string

record proxy_spec_v1 =
  ps_Meta :: "spec_meta_v1 option"
  ps_Route :: "route_v1 option"
  ps_Endpoints :: "endpoint_v1 list"

record self_info =
  si_Namespace :: string
  si_Name :: string

record meta_state_v1 =
  ms_Subset :: string
  ms_ExpectedHash :: string
  ms_CurrentHash :: string
  ms_HashUnloadReason :: string

record leader_election_state_v1 =
  le_Identity :: string
  le_IsLeader :: bool

record proxy_status_v1 =
  st_SelfInfo :: "self_info option"
  st_MetaState :: "meta_state_v1 option"
  st_LeaderElectionState :: "leader_election_state_v1 option"

definition AllSubsetPublic :: string where
  "AllSubsetPublic = ''AllSubsetPublic''"

definition ResourceAll :: string where
  "ResourceAll = ''*''"

record resource_request =
  rr_GR :: group_resource
  rr_ObjectSelector :: "label_selector option"
  rr_NamespacePassed :: goset
  rr_NamespaceDenied :: goset
  rr_UserAgentPassed :: "string option"
  rr_UserAgentDenied :: "string option"

subsection \<open>The internal form\<close>

record internal_match_limit_rule =
  lim_namespaces :: goset
  lim_objectSelector :: "label_selector option"
  lim_resources :: "api_group_resource list"

record internal_subset_limit =
  isl_subset :: string
  isl_limits :: "internal_match_limit_rule list"

record internal_route =
  ir_subset :: string
  ir_globalLimits :: "internal_match_limit_rule list"
  ir_subsetLimits :: "internal_subset_limit list"
  ir_subsetPublicResources :: "api_group_resource list"
  ir_subsetDefaultOnlyUserAgents :: goset

record internal_spec =
  is_spec :: proxy_spec_v1
  is_routeInternal :: "internal_route option"

type_synonym json_selector = "string \<Rightarrow> label_selector \<times> string option"

definition convertProtoMatchLimitRule :: "json_selector \<Rightarrow> match_limit_rule_v1 \<Rightarrow> internal_match_limit_rule" where
  "convertProtoMatchLimitRule ju limit =
     (if length (mlr_ObjectSelector limit) > 0
      then \<lparr>lim_namespaces = [], lim_objectSelector = Some (fst (ju (mlr_ObjectSelector limit))),
            lim_resources = mlr_Resources limit\<rparr>
      else \<lparr>lim_namespaces = NewString (mlr_Namespaces limit), lim_objectSelector = None,
            lim_resources = mlr_Resources limit\<rparr>)"

definition convertProtoMatchLimitRuleToInternal ::
    "json_selector \<Rightarrow> match_limit_rule_v1 list \<Rightarrow> internal_match_limit_rule list" where
  "convertProtoMatchLimitRuleToInternal ju limits = map (convertProtoMatchLimitRule ju) limits"

definition convertRoute :: "json_selector \<Rightarrow> route_v1 \<Rightarrow> internal_route" where
  "convertRoute ju r =
     \<lparr>ir_subset = rt_Subset r,
      ir_globalLimits = convertProtoMatchLimitRuleToInternal ju (rt_GlobalLimits r),
      ir_subsetLimits =
        map (\<lambda>l. \<lparr>isl_subset = sl_Subset l,
                  isl_limits = convertProtoMatchLimitRuleToInternal ju (sl_Limits l)\<rparr>)
          (rt_SubsetLimits r),
      ir_subsetPublicResources = rt_SubsetPublicResources r,
      ir_subsetDefaultOnlyUserAgents = NewString (rt_SubsetDefaultOnlyUserAgents r)\<rparr>"

definition ConvertProtoSpecToInternal :: "json_selector \<Rightarrow> proxy_spec_v1 \<Rightarrow> internal_spec" where
  "ConvertProtoSpecToInternal ju protoSpec =
     \<lparr>is_spec = protoSpec, is_routeInternal = map_option (convertRoute ju) (ps_Route protoSpec)\<rparr>"

subsection \<open>Matching resources\<close>

definition containsString :: "string \<Rightarrow> string list \<Rightarrow> string \<Rightarrow> bool" where
  "containsString x xs wildcard \<longleftrightarrow> (length xs = 1 \<and> hd xs = wildcard) \<or> x \<in> set xs"

fun isGRMatchedAPIResources :: "group_resource \<Rightarrow> api_group_resource list \<Rightarrow> bool" where
  "isGRMatchedAPIResources gr [] = False"
| "isGRMatchedAPIResources gr (r # rs) =
     (if containsString (gr_Group gr) (agr_ApiGroups r) ResourceAll
         \<and> containsString (gr_Resource gr) (agr_Resources r) ResourceAll
      then True else isGRMatchedAPIResources gr rs)"

subsection \<open>The subset of a namespace\<close>

fun globalLimitsAllow :: "string \<Rightarrow> group_resource \<Rightarrow> internal_match_limit_rule list \<Rightarrow> bool" where
  \<comment> \<open>the first loop: \<^const>\<open>False\<close> is its \<^verbatim>\<open>return "", false\<close>\<close>
  "globalLimitsAllow ns gr [] = True"
| "globalLimitsAllow ns gr (limit # ls) =
     (if lim_resources limit \<noteq> [] \<and> \<not> isGRMatchedAPIResources gr (lim_resources limit)
      then globalLimitsAllow ns gr ls
      else if lim_objectSelector limit \<noteq> None then globalLimitsAllow ns gr ls
      else if ns \<notin> set (lim_namespaces limit) then False
      else globalLimitsAllow ns gr ls)"

fun scanLimits ::
    "bool \<Rightarrow> string \<Rightarrow> group_resource \<Rightarrow> bool \<Rightarrow> internal_match_limit_rule list \<Rightarrow> bool \<times> bool" where
  \<comment> \<open>the inner loop over one subset's limits: whether it returned, and the value of
      \<^verbatim>\<open>isResourceMatchLimit\<close> after it\<close>
  "scanLimits public ns gr m [] = (False, m)"
| "scanLimits public ns gr m (limit # ls) =
     (if lim_objectSelector limit \<noteq> None then scanLimits public ns gr m ls
      else if lim_resources limit \<noteq> [] then
        (if \<not> isGRMatchedAPIResources gr (lim_resources limit) then scanLimits public ns gr m ls
         else if ns \<in> set (lim_namespaces limit) then (True, True)
         else scanLimits public ns gr True ls)
      else if public then scanLimits public ns gr m ls
      else if ns \<in> set (lim_namespaces limit) then (True, m)
      else scanLimits public ns gr m ls)"

fun scanSubsets ::
    "bool \<Rightarrow> string \<Rightarrow> group_resource \<Rightarrow> bool \<Rightarrow> internal_subset_limit list \<Rightarrow> string option \<times> bool" where
  "scanSubsets public ns gr m [] = (None, m)"
| "scanSubsets public ns gr m (sl # sls) =
     (case scanLimits public ns gr m (isl_limits sl) of
        (True, m') \<Rightarrow> (Some (isl_subset sl), m')
      | (False, m') \<Rightarrow> scanSubsets public ns gr m' sls)"

definition determineNamespaceSubset :: "internal_route \<Rightarrow> string \<Rightarrow> group_resource \<Rightarrow> string option" where
  \<comment> \<open>\<^term>\<open>Some s\<close> is \<^verbatim>\<open>(s, true)\<close>, \<^const>\<open>None\<close> is \<^verbatim>\<open>("", false)\<close>\<close>
  [route_defs]:
  "determineNamespaceSubset ir ns gr =
     (if ns = '''' then Some ''''
      else if \<not> globalLimitsAllow ns gr (ir_globalLimits ir) then None
      else
        (let isResourceMatchPublic = isGRMatchedAPIResources gr (ir_subsetPublicResources ir) in
         case scanSubsets isResourceMatchPublic ns gr False (ir_subsetLimits ir) of
           (Some s, _) \<Rightarrow> Some s
         | (None, isResourceMatchLimit) \<Rightarrow>
             if isResourceMatchPublic \<and> \<not> isResourceMatchLimit then Some AllSubsetPublic else None))"

subsection \<open>The selector of a resource\<close>

definition selector_applies :: "group_resource \<Rightarrow> internal_match_limit_rule \<Rightarrow> bool" where
  "selector_applies gr limit \<longleftrightarrow>
     lim_objectSelector limit \<noteq> None \<and>
     \<not> (lim_resources limit \<noteq> [] \<and> \<not> isGRMatchedAPIResources gr (lim_resources limit))"

fun mergeLimits ::
    "(label_selector option \<Rightarrow> label_selector option) \<Rightarrow> group_resource \<Rightarrow> label_selector option \<Rightarrow>
     internal_match_limit_rule list \<Rightarrow> label_selector option" where
  "mergeLimits f gr sel [] = sel"
| "mergeLimits f gr sel (limit # ls) =
     (if \<not> selector_applies gr limit then mergeLimits f gr sel ls
      else mergeLimits f gr (MergeLabelSelector sel (f (lim_objectSelector limit))) ls)"

fun mergeSubsets ::
    "string \<Rightarrow> group_resource \<Rightarrow> label_selector option \<Rightarrow> internal_subset_limit list \<Rightarrow> label_selector option" where
  "mergeSubsets self gr sel [] = sel"
| "mergeSubsets self gr sel (sl # sls) =
     (let isSelfSubset = (isl_subset sl = self) in
      if isSelfSubset then mergeLimits id gr sel (isl_limits sl)
      else mergeSubsets self gr (mergeLimits NegateLabelSelector gr sel (isl_limits sl)) sls)"

definition getObjectSelector :: "internal_route \<Rightarrow> group_resource \<Rightarrow> label_selector option" where
  [route_defs]:
  "getObjectSelector ir gr =
     mergeSubsets (ir_subset ir) gr (mergeLimits id gr None (ir_globalLimits ir)) (ir_subsetLimits ir)"

subsection \<open>Methods of the spec\<close>

definition route_IsUserAgentMatch :: "internal_route \<Rightarrow> string \<Rightarrow> bool" where
  [route_defs]:
  "route_IsUserAgentMatch ir userAgent =
     (if userAgent \<in> set (ir_subsetDefaultOnlyUserAgents ir) then ir_subset ir = '''' else True)"

definition IsUserAgentMatch :: "internal_spec \<Rightarrow> string \<Rightarrow> bool option" where
  "IsUserAgentMatch s userAgent =
     map_option (\<lambda>ir. route_IsUserAgentMatch ir userAgent) (is_routeInternal s)"

definition route_IsNamespaceMatch :: "internal_route \<Rightarrow> string \<Rightarrow> group_resource \<Rightarrow> bool" where
  [route_defs]:
  "route_IsNamespaceMatch ir ns gr =
     (case determineNamespaceSubset ir ns gr of
        None \<Rightarrow> False
      | Some sub \<Rightarrow> sub = AllSubsetPublic \<or> sub = ir_subset ir)"

definition IsNamespaceMatch :: "internal_spec \<Rightarrow> string \<Rightarrow> group_resource \<Rightarrow> bool option" where
  "IsNamespaceMatch s ns gr =
     map_option (\<lambda>ir. route_IsNamespaceMatch ir ns gr) (is_routeInternal s)"

definition GetObjectSelector :: "internal_spec \<Rightarrow> group_resource \<Rightarrow> label_selector option option" where
  "GetObjectSelector s gr = map_option (\<lambda>ir. getObjectSelector ir gr) (is_routeInternal s)"

datatype matched_endpoint = MatchIgnore | MatchSelf | MatchHosts "string list"

definition GetMatchedSubsetEndpoint :: "internal_spec \<Rightarrow> string \<Rightarrow> group_resource \<Rightarrow> matched_endpoint option" where
  \<comment> \<open>\<^verbatim>\<open>(ignore, self, hosts)\<close>: the three results the code can return\<close>
  "GetMatchedSubsetEndpoint s ns gr =
     map_option (\<lambda>ir.
       case determineNamespaceSubset ir ns gr of
         None \<Rightarrow> MatchIgnore
       | Some sub \<Rightarrow>
           if sub = AllSubsetPublic \<or> sub = ir_subset ir then MatchSelf
           else MatchHosts (map ep_Ip (filter (\<lambda>e. ep_Subset e = sub) (ps_Endpoints (is_spec s)))))
       (is_routeInternal s)"

subsection \<open>Declarative reading of the scans\<close>

definition limit_active :: "bool \<Rightarrow> group_resource \<Rightarrow> internal_match_limit_rule \<Rightarrow> bool" where
  \<comment> \<open>the limit constrains namespaces for this resource; limits that name no resource do not
      apply to public resources\<close>
  "limit_active public gr limit \<longleftrightarrow>
     lim_objectSelector limit = None \<and>
     (if lim_resources limit = [] then \<not> public else isGRMatchedAPIResources gr (lim_resources limit))"

definition limit_names_resource :: "group_resource \<Rightarrow> internal_match_limit_rule \<Rightarrow> bool" where
  "limit_names_resource gr limit \<longleftrightarrow>
     lim_objectSelector limit = None \<and> lim_resources limit \<noteq> [] \<and>
     isGRMatchedAPIResources gr (lim_resources limit)"

definition subset_hit :: "bool \<Rightarrow> string \<Rightarrow> group_resource \<Rightarrow> internal_subset_limit \<Rightarrow> bool" where
  "subset_hit public ns gr sl \<longleftrightarrow>
     (\<exists>l\<in>set (isl_limits sl). limit_active public gr l \<and> ns \<in> set (lim_namespaces l))"

definition global_passed :: "internal_route \<Rightarrow> string \<Rightarrow> group_resource \<Rightarrow> bool" where
  "global_passed ir ns gr \<longleftrightarrow>
     (\<forall>l\<in>set (ir_globalLimits ir). limit_active False gr l \<longrightarrow> ns \<in> set (lim_namespaces l))"

lemma isGRMatchedAPIResources_iff:
  "isGRMatchedAPIResources gr rs \<longleftrightarrow>
     (\<exists>r\<in>set rs. containsString (gr_Group gr) (agr_ApiGroups r) ResourceAll
        \<and> containsString (gr_Resource gr) (agr_Resources r) ResourceAll)"
  by (induction rs) auto

lemma globalLimitsAllow_iff:
  "globalLimitsAllow ns gr ls \<longleftrightarrow> (\<forall>l\<in>set ls. limit_active False gr l \<longrightarrow> ns \<in> set (lim_namespaces l))"
  by (induction ls) (auto simp: limit_active_def)

lemma scanLimits_step:
  "scanLimits public ns gr m (l # ls) =
     (if limit_active public gr l \<and> ns \<in> set (lim_namespaces l)
      then (True, m \<or> limit_names_resource gr l)
      else scanLimits public ns gr (m \<or> limit_names_resource gr l) ls)"
  by (cases m; cases "lim_objectSelector l") (simp_all add: limit_active_def limit_names_resource_def)

declare scanLimits.simps(2) [simp del]

lemma fst_scanLimits:
  "fst (scanLimits public ns gr m ls) \<longleftrightarrow>
     (\<exists>l\<in>set ls. limit_active public gr l \<and> ns \<in> set (lim_namespaces l))"
  by (induction ls arbitrary: m) (auto simp: scanLimits_step)

lemma snd_scanLimits:
  "\<not> fst (scanLimits public ns gr m ls) \<Longrightarrow>
   snd (scanLimits public ns gr m ls) \<longleftrightarrow> m \<or> (\<exists>l\<in>set ls. limit_names_resource gr l)"
  by (induction ls arbitrary: m) (auto simp: scanLimits_step)
lemma fst_scanSubsets:
  "fst (scanSubsets public ns gr m sls) = map_option isl_subset (find (subset_hit public ns gr) sls)"
proof (induction sls arbitrary: m)
  case (Cons sl sls)
  show ?case
    using fst_scanLimits [of public ns gr m "isl_limits sl"]
    by (auto simp: Cons.IH subset_hit_def split: prod.splits bool.splits)
qed simp

lemma snd_scanSubsets:
  "fst (scanSubsets public ns gr m sls) = None \<Longrightarrow>
   snd (scanSubsets public ns gr m sls) \<longleftrightarrow>
     m \<or> (\<exists>sl\<in>set sls. \<exists>l\<in>set (isl_limits sl). limit_names_resource gr l)"
proof (induction sls arbitrary: m)
  case (Cons sl sls)
  then show ?case
    using snd_scanLimits [of public ns gr m "isl_limits sl"]
    by (auto simp: Cons.IH split: prod.splits bool.splits)
qed simp

definition public_resource :: "internal_route \<Rightarrow> group_resource \<Rightarrow> bool" where
  "public_resource ir gr \<longleftrightarrow> isGRMatchedAPIResources gr (ir_subsetPublicResources ir)"

lemma determineNamespaceSubset_eq:
  assumes "ns \<noteq> ''''"
  shows "determineNamespaceSubset ir ns gr =
    (if \<not> global_passed ir ns gr then None
     else case find (subset_hit (public_resource ir gr) ns gr) (ir_subsetLimits ir) of
        Some sl \<Rightarrow> Some (isl_subset sl)
      | None \<Rightarrow>
          if public_resource ir gr \<and>
             \<not> (\<exists>sl\<in>set (ir_subsetLimits ir). \<exists>l\<in>set (isl_limits sl). limit_names_resource gr l)
          then Some AllSubsetPublic else None)"
proof -
  let ?p = "public_resource ir gr" and ?sls = "ir_subsetLimits ir"
  show ?thesis
    unfolding determineNamespaceSubset_def Let_def
    using assms fst_scanSubsets [of ?p ns gr False ?sls] snd_scanSubsets [of ?p ns gr False ?sls]
    by (auto simp: global_passed_def globalLimitsAllow_iff simp flip: public_resource_def
        split: option.splits prod.splits)
qed

lemma determineNamespaceSubset_SomeD:
  assumes "determineNamespaceSubset ir ns gr = Some s" and "ns \<noteq> ''''"
  shows "s \<in> isl_subset ` set (ir_subsetLimits ir) \<or> s = AllSubsetPublic \<and> public_resource ir gr"
  using assms(1) unfolding determineNamespaceSubset_eq [OF assms(2)]
  by (auto split: if_splits option.splits dest!: find_Some_iff [THEN iffD1])

lemma convertRoute_sel [simp]:
  "ir_subset (convertRoute ju r) = rt_Subset r"
  "isl_subset ` set (ir_subsetLimits (convertRoute ju r)) = sl_Subset ` set (rt_SubsetLimits r)"
  "public_resource (convertRoute ju r) gr = isGRMatchedAPIResources gr (rt_SubsetPublicResources r)"
  by (auto simp: convertRoute_def public_resource_def image_image)

lemma determineNamespaceSubset_cluster [simp]: "determineNamespaceSubset ir '''' gr = Some ''''"
  by (simp add: determineNamespaceSubset_def)

lemma determineNamespaceSubset_subset_irrelevant [simp]:
  "determineNamespaceSubset (ir\<lparr>ir_subset := s\<rparr>) ns gr = determineNamespaceSubset ir ns gr"
  by (simp add: determineNamespaceSubset_def)

subsection \<open>The selector as one merge\<close>

definition limit_selectors :: "group_resource \<Rightarrow> internal_match_limit_rule list \<Rightarrow> label_selector list" where
  \<comment> \<open>the object selectors of the limits that apply to the resource, in order\<close>
  "limit_selectors gr ls = map (\<lambda>l. the (lim_objectSelector l)) (filter (selector_applies gr) ls)"

fun subset_parts :: "string \<Rightarrow> group_resource \<Rightarrow> internal_subset_limit list \<Rightarrow> label_selector list" where
  "subset_parts self gr [] = []"
| "subset_parts self gr (sl # sls) =
     (if isl_subset sl = self then limit_selectors gr (isl_limits sl)
      else map negate_selector (limit_selectors gr (isl_limits sl)) @ subset_parts self gr sls)"

definition selector_parts :: "internal_route \<Rightarrow> group_resource \<Rightarrow> label_selector list" where
  "selector_parts ir gr =
     limit_selectors gr (ir_globalLimits ir) @ subset_parts (ir_subset ir) gr (ir_subsetLimits ir)"

definition merge_all :: "label_selector option \<Rightarrow> label_selector list \<Rightarrow> label_selector option" where
  "merge_all sel xs =
     (case sel of
        Some a \<Rightarrow> Some (foldl merge_selectors a xs)
      | None \<Rightarrow> (case xs of [] \<Rightarrow> None | x # xs \<Rightarrow> Some (foldl merge_selectors x xs)))"

lemma merge_all_Nil [simp]: "merge_all sel [] = sel"
  by (simp add: merge_all_def split: option.splits)

lemma merge_all_Cons: "merge_all sel (x # xs) = merge_all (MergeLabelSelector sel (Some x)) xs"
  by (simp add: merge_all_def MergeLabelSelector_def split: option.splits)

lemma merge_all_append: "merge_all sel (xs @ ys) = merge_all (merge_all sel xs) ys"
  by (induction xs arbitrary: sel) (simp_all add: merge_all_Cons)

lemma mergeLimits_eq:
  assumes "\<And>s. f (Some s) = Some (g s)"
  shows "mergeLimits f gr sel ls = merge_all sel (map g (limit_selectors gr ls))"
proof (induction ls arbitrary: sel)
  case (Cons l ls)
  show ?case
  proof (cases "selector_applies gr l")
    case True
    then obtain s where "lim_objectSelector l = Some s" by (auto simp: selector_applies_def)
    with True show ?thesis
      by (simp add: Cons.IH limit_selectors_def merge_all_Cons assms)
  qed (simp add: Cons.IH limit_selectors_def)
qed (simp add: limit_selectors_def)

lemma mergeSubsets_eq: "mergeSubsets self gr sel sls = merge_all sel (subset_parts self gr sls)"
proof (induction sls arbitrary: sel)
  case (Cons sl sls)
  have pos: "mergeLimits id gr sel ls = merge_all sel (limit_selectors gr ls)" for ls sel
    using mergeLimits_eq [of id id] by simp
  have neg: "mergeLimits NegateLabelSelector gr sel ls
      = merge_all sel (map negate_selector (limit_selectors gr ls))" for ls sel
    by (rule mergeLimits_eq) (simp add: NegateLabelSelector_def)
  show ?case by (simp add: pos neg Cons.IH merge_all_append)
qed simp

lemma getObjectSelector_eq: "getObjectSelector ir gr = merge_all None (selector_parts ir gr)"
  using mergeLimits_eq [of id id]
  by (simp add: getObjectSelector_def selector_parts_def mergeSubsets_eq merge_all_append)

lemma subset_parts_before:
  assumes "\<forall>p\<in>set pre. isl_subset p \<noteq> self"
  shows "subset_parts self gr (pre @ sl # post) =
     concat (map (\<lambda>p. map negate_selector (limit_selectors gr (isl_limits p))) pre)
     @ subset_parts self gr (sl # post)"
  using assms by (induction pre) auto

definition route_selectors_ok :: "internal_route \<Rightarrow> bool" where
  "route_selectors_ok ir \<longleftrightarrow>
     (\<forall>l\<in>set (ir_globalLimits ir). pred_option selector_ok (lim_objectSelector l)) \<and>
     (\<forall>sl\<in>set (ir_subsetLimits ir). \<forall>l\<in>set (isl_limits sl). pred_option selector_ok (lim_objectSelector l))"

lemma limit_selectors_ok:
  "\<forall>l\<in>set ls. pred_option selector_ok (lim_objectSelector l) \<Longrightarrow> x \<in> set (limit_selectors gr ls)
   \<Longrightarrow> selector_ok x"
  by (force simp: limit_selectors_def selector_applies_def)

lemma selector_parts_ok:
  assumes "route_selectors_ok ir" and "x \<in> set (selector_parts ir gr)"
  shows "selector_ok x"
proof -
  have sub: "selector_ok x"
    if "\<forall>sl\<in>set sls. \<forall>l\<in>set (isl_limits sl). pred_option selector_ok (lim_objectSelector l)"
      and "x \<in> set (subset_parts self gr sls)" for self sls
    using that by (induction sls) (auto split: if_splits intro: limit_selectors_ok)
  show ?thesis
    using assms sub [of "ir_subsetLimits ir"] limit_selectors_ok [of "ir_globalLimits ir" x gr]
    unfolding selector_parts_def route_selectors_ok_def set_append by blast
qed

lemma merge_all_disjoint:
  assumes ok: "\<forall>x\<in>set xs. selector_ok x" and "merge_all None xs = Some A" and "merge_all None ys = Some B"
    and "nontrivial (last xs)" and "negate_selector (last xs) \<in> set ys"
    and "selector_sat A ls"
  shows "\<not> selector_sat B ls"
proof -
  obtain x xs' where xs: "xs = x # xs'" and A: "A = foldl merge_selectors x xs'"
    using assms(2) by (auto simp: merge_all_def split: list.splits)
  obtain y ys' where ys: "ys = y # ys'" and B: "B = foldl merge_selectors y ys'"
    using assms(3) by (auto simp: merge_all_def split: list.splits)
  show ?thesis
  proof (cases "xs' = []")
    case True
    have "exprs_sat (negate_selector x) ls" if "selector_sat B ls"
      using lsel.sat_core [OF that] assms(5) True by (auto simp: B ys xs lsel.core_fold)
    with True assms(4,6) show ?thesis by (auto simp: xs A dest: lsel.core_neg)
  next
    case False
    with assms ok show ?thesis
      unfolding B by (intro lsel.fold_disjoint [of x xs']) (auto simp: xs ys A)
  qed
qed

lemma two_subsets_public:
  assumes "ps_Route p = Some r" and "ps_Route q = Some (r\<lparr>rt_Subset := t\<rparr>)" and "t \<noteq> rt_Subset r"
    and "IsNamespaceMatch (ConvertProtoSpecToInternal ju p) ns gr = Some True"
    and "IsNamespaceMatch (ConvertProtoSpecToInternal ju q) ns gr = Some True"
  shows "isGRMatchedAPIResources gr (rt_SubsetPublicResources r)
    \<or> AllSubsetPublic \<in> sl_Subset ` set (rt_SubsetLimits r)"
proof -
  let ?ir = "convertRoute ju r"
  have q: "convertRoute ju (r\<lparr>rt_Subset := t\<rparr>) = ?ir\<lparr>ir_subset := t\<rparr>"
    by (simp add: convertRoute_def)
  have det: "determineNamespaceSubset ?ir ns gr = Some AllSubsetPublic"
    using assms(3,4,5)
    by (auto simp: IsNamespaceMatch_def ConvertProtoSpecToInternal_def assms(1,2) q
        route_IsNamespaceMatch_def split: option.splits)
  then have ns: "ns \<noteq> ''''" by (auto simp: AllSubsetPublic_def)
  from determineNamespaceSubset_SomeD [OF det ns] show ?thesis by auto
qed

subsection \<open>Properties\<close>

text \<open>
  C2. Isolation of subsets. Two proxies of one application hold the same route up to their
  own subset. If both accept a namespace for a resource, then the resource is declared
  public for all subsets, unless a subset carries the reserved name \<^verbatim>\<open>AllSubsetPublic\<close>.
\<close>

theorem at_most_one_subset:
  assumes "ps_Route p = Some r" and "ps_Route q = Some (r\<lparr>rt_Subset := t\<rparr>)" and "t \<noteq> rt_Subset r"
    and "IsNamespaceMatch (ConvertProtoSpecToInternal ju p) ns gr = Some True"
    and "IsNamespaceMatch (ConvertProtoSpecToInternal ju q) ns gr = Some True"
  shows "isGRMatchedAPIResources gr (rt_SubsetPublicResources r)
    \<or> AllSubsetPublic \<in> sl_Subset ` set (rt_SubsetLimits r)"
  using assms by (rule two_subsets_public)

definition example_ju :: json_selector where
  "example_ju j = (\<lparr>matchLabels = [], matchExpressions = []\<rparr>, None)"

definition example_public_route :: route_v1 where
  "example_public_route =
     \<lparr>rt_Subset = ''v1'', rt_GlobalLimits = [], rt_SubsetLimits = [],
      rt_SubsetPublicResources = [\<lparr>agr_ApiGroups = [''*''], agr_Resources = [''*'']\<rparr>],
      rt_SubsetDefaultOnlyUserAgents = []\<rparr>"

definition example_spec :: "route_v1 \<Rightarrow> proxy_spec_v1" where
  "example_spec r = \<lparr>ps_Meta = None, ps_Route = Some r, ps_Endpoints = []\<rparr>"

definition example_gr :: group_resource where
  "example_gr = \<lparr>gr_Group = ''apps'', gr_Resource = ''deployments''\<rparr>"

lemmas example_defs = example_ju_def example_public_route_def example_spec_def example_gr_def

theorem at_most_one_subset_witness:
  "IsNamespaceMatch (ConvertProtoSpecToInternal example_ju (example_spec example_public_route))
     ''ns'' example_gr = Some True
   \<and> IsNamespaceMatch (ConvertProtoSpecToInternal example_ju
       (example_spec (example_public_route\<lparr>rt_Subset := ''v2''\<rparr>))) ''ns'' example_gr = Some True
   \<and> isGRMatchedAPIResources example_gr (rt_SubsetPublicResources example_public_route)"
proof -
  let ?p = "example_spec example_public_route"
    and ?q = "example_spec (example_public_route\<lparr>rt_Subset := ''v2''\<rparr>)"
  have p: "IsNamespaceMatch (ConvertProtoSpecToInternal example_ju ?p) ''ns'' example_gr = Some True"
    and q: "IsNamespaceMatch (ConvertProtoSpecToInternal example_ju ?q) ''ns'' example_gr = Some True"
    by (simp_all add: IsNamespaceMatch_def ConvertProtoSpecToInternal_def convertRoute_def
        convertProtoMatchLimitRuleToInternal_def example_defs containsString_def ResourceAll_def route_defs)
  have "ps_Route ?p = Some example_public_route"
    and "ps_Route ?q = Some (example_public_route\<lparr>rt_Subset := ''v2''\<rparr>)"
    and "''v2'' \<noteq> rt_Subset example_public_route"
    by (simp_all add: example_defs)
  from at_most_one_subset [OF this p q]
  have "isGRMatchedAPIResources example_gr (rt_SubsetPublicResources example_public_route)"
    by (simp add: example_public_route_def)
  with p q show ?thesis by simp
qed

text \<open>
  First match. For a namespaced resource the code's two loops compute: reject if an
  applicable global limit does not list the namespace; otherwise the first subset with an
  applicable limit listing it; otherwise the public pseudo-subset, if the resource is
  public and no limit names the resource; otherwise nothing.
\<close>

theorem determineNamespaceSubset_first_match:
  assumes "ns \<noteq> ''''"
  shows "determineNamespaceSubset ir ns gr =
    (if \<not> global_passed ir ns gr then None
     else case find (subset_hit (public_resource ir gr) ns gr) (ir_subsetLimits ir) of
        Some sl \<Rightarrow> Some (isl_subset sl)
      | None \<Rightarrow>
          if public_resource ir gr \<and>
             \<not> (\<exists>sl\<in>set (ir_subsetLimits ir). \<exists>l\<in>set (isl_limits sl). limit_names_resource gr l)
          then Some AllSubsetPublic else None)"
  by (rule determineNamespaceSubset_eq [OF assms])

definition example_limits :: internal_route where
  "example_limits =
     \<lparr>ir_subset = '''', ir_globalLimits = [],
      ir_subsetLimits =
        [\<lparr>isl_subset = ''v2'', isl_limits =
            [\<lparr>lim_namespaces = [''canary''], lim_objectSelector = None, lim_resources = []\<rparr>]\<rparr>,
         \<lparr>isl_subset = '''', isl_limits =
            [\<lparr>lim_namespaces = [''prod''], lim_objectSelector = None, lim_resources = []\<rparr>]\<rparr>],
      ir_subsetPublicResources = [], ir_subsetDefaultOnlyUserAgents = []\<rparr>"

theorem determineNamespaceSubset_first_match_witness:
  "''canary'' \<noteq> '''' \<and> determineNamespaceSubset example_limits ''canary'' example_gr = Some ''v2''"
proof -
  have "''canary'' \<noteq> ''''" by simp
  from determineNamespaceSubset_first_match [OF this, of example_limits example_gr]
  show ?thesis
    by (simp add: example_limits_def global_passed_def subset_hit_def limit_active_def public_resource_def)
qed

text \<open>
  C17. Webhook routing agrees with API-server filtering. A webhook request is served
  locally exactly when the proxy's own list responses keep the namespace; it is redirected
  to the endpoints of the one other subset that would keep it; it is ignored exactly when
  no subset would keep it.
\<close>

theorem webhook_routing_agrees:
  assumes "is_routeInternal s = Some ir"
  shows "(GetMatchedSubsetEndpoint s ns gr = Some MatchSelf \<longleftrightarrow> IsNamespaceMatch s ns gr = Some True)
    \<and> (GetMatchedSubsetEndpoint s ns gr = Some MatchIgnore \<longleftrightarrow>
        (\<forall>t. \<not> route_IsNamespaceMatch (ir\<lparr>ir_subset := t\<rparr>) ns gr))
    \<and> (\<forall>hs. GetMatchedSubsetEndpoint s ns gr = Some (MatchHosts hs) \<longleftrightarrow>
        (\<exists>t. t \<noteq> ir_subset ir \<and> {u. route_IsNamespaceMatch (ir\<lparr>ir_subset := u\<rparr>) ns gr} = {t}
             \<and> hs = map ep_Ip (filter (\<lambda>e. ep_Subset e = t) (ps_Endpoints (is_spec s)))))"
proof (cases "determineNamespaceSubset ir ns gr")
  case None
  with assms show ?thesis
    by (simp add: GetMatchedSubsetEndpoint_def IsNamespaceMatch_def route_IsNamespaceMatch_def)
next
  case (Some sub)
  have match: "route_IsNamespaceMatch (ir\<lparr>ir_subset := u\<rparr>) ns gr \<longleftrightarrow> sub = AllSubsetPublic \<or> u = sub" for u
    by (auto simp: route_IsNamespaceMatch_def Some)
  have ne: "{u :: string. True} \<noteq> {t}" for t by (metis UNIV_def insertCI not_Cons_self2 singletonD UNIV_I)
  show ?thesis
    using assms Some ne
    by (auto simp: GetMatchedSubsetEndpoint_def IsNamespaceMatch_def match route_IsNamespaceMatch_def)
qed

definition example_internal :: internal_spec where
  "example_internal =
     \<lparr>is_spec = \<lparr>ps_Meta = None, ps_Route = None,
        ps_Endpoints = [\<lparr>ep_Name = ''a'', ep_Subset = ''v2'', ep_Ip = ''10.0.0.1''\<rparr>,
                        \<lparr>ep_Name = ''b'', ep_Subset = '''', ep_Ip = ''10.0.0.2''\<rparr>]\<rparr>,
      is_routeInternal = Some example_limits\<rparr>"

theorem webhook_routing_agrees_witness:
  "is_routeInternal example_internal = Some example_limits
   \<and> GetMatchedSubsetEndpoint example_internal ''canary'' example_gr = Some (MatchHosts [''10.0.0.1''])
   \<and> GetMatchedSubsetEndpoint example_internal ''prod'' example_gr = Some MatchSelf
   \<and> IsNamespaceMatch example_internal ''prod'' example_gr = Some True"
proof -
  have r: "is_routeInternal example_internal = Some example_limits"
    by (simp add: example_internal_def)
  have "GetMatchedSubsetEndpoint example_internal ''canary'' example_gr = Some (MatchHosts [''10.0.0.1''])"
    and self: "GetMatchedSubsetEndpoint example_internal ''prod'' example_gr = Some MatchSelf"
    by (simp_all add: GetMatchedSubsetEndpoint_def example_internal_def example_limits_def
        determineNamespaceSubset_def scanLimits_step limit_active_def AllSubsetPublic_def)
  moreover have "IsNamespaceMatch example_internal ''prod'' example_gr = Some True"
    using self webhook_routing_agrees [OF r, of "''prod''" example_gr] by simp
  ultimately show ?thesis using r by simp
qed

text \<open>
  C14. Object selectors separate subsets. Let \<open>sl\<close> be the entry of subset \<open>s\<close> and let
  subset \<open>t\<close> come later in the order (or be absent). If \<open>s\<close> has an object selector of its own
  that applies to the resource, and the last such selector is not empty, then the route
  gives both subsets a selector for the resource and no object satisfies both. (Subsets
  that have global selectors only get the same selector.)
\<close>

theorem object_selectors_disjoint:
  assumes limits: "ir_subsetLimits ir = pre @ sl # post" "isl_subset sl = s"
    and order: "s \<notin> isl_subset ` set pre" "t \<notin> isl_subset ` set (pre @ [sl])"
    and ok: "route_selectors_ok ir"
    and last: "limit_selectors gr (isl_limits sl) \<noteq> []" "nontrivial (last (limit_selectors gr (isl_limits sl)))"
  shows "\<exists>A B. getObjectSelector (ir\<lparr>ir_subset := s\<rparr>) gr = Some A
    \<and> getObjectSelector (ir\<lparr>ir_subset := t\<rparr>) gr = Some B \<and> (\<forall>ls. \<not> (selector_sat A ls \<and> selector_sat B ls))"
proof -
  let ?S = "selector_parts (ir\<lparr>ir_subset := s\<rparr>) gr" and ?T = "selector_parts (ir\<lparr>ir_subset := t\<rparr>) gr"
  have pre: "\<forall>p\<in>set pre. isl_subset p \<noteq> s" "\<forall>p\<in>set pre. isl_subset p \<noteq> t" and st: "isl_subset sl \<noteq> t"
    using order limits(2) by (auto simp: image_iff)
  have lastS: "last ?S = last (limit_selectors gr (isl_limits sl))"
    using limits last(1) by (simp add: selector_parts_def subset_parts_before [OF pre(1)])
  have "last (limit_selectors gr (isl_limits sl)) \<in> set (limit_selectors gr (isl_limits sl))"
    using last(1) by simp
  then have inT: "negate_selector (last ?S) \<in> set ?T"
    unfolding lastS using limits st by (auto simp: selector_parts_def subset_parts_before [OF pre(2)])
  have ok': "route_selectors_ok (ir\<lparr>ir_subset := s\<rparr>)"
    using ok by (simp add: route_selectors_ok_def)
  have "?S \<noteq> []" "?T \<noteq> []"
    using limits last(1) inT by (auto simp: selector_parts_def subset_parts_before [OF pre(1)])
  then obtain A B where AS: "merge_all None ?S = Some A" and BT: "merge_all None ?T = Some B"
    by (cases ?S; cases ?T) (auto simp: merge_all_def)
  have nt: "nontrivial (last ?S)" using last(2) lastS by simp
  show ?thesis
    using merge_all_disjoint [OF _ AS BT nt inT] selector_parts_ok [OF ok'] AS BT
    unfolding getObjectSelector_eq by blast
qed

definition example_app_v2 :: label_selector where
  "example_app_v2 = \<lparr>matchLabels = [(''app'', ''v2'')], matchExpressions = []\<rparr>"

definition example_selector_route :: internal_route where
  "example_selector_route =
     \<lparr>ir_subset = '''', ir_globalLimits = [],
      ir_subsetLimits =
        [\<lparr>isl_subset = ''v2'', isl_limits =
            [\<lparr>lim_namespaces = [], lim_objectSelector = Some example_app_v2, lim_resources = []\<rparr>]\<rparr>,
         \<lparr>isl_subset = '''', isl_limits = []\<rparr>],
      ir_subsetPublicResources = [], ir_subsetDefaultOnlyUserAgents = []\<rparr>"

theorem object_selectors_disjoint_witness:
  "getObjectSelector (example_selector_route\<lparr>ir_subset := ''v2''\<rparr>) example_gr = Some example_app_v2
   \<and> getObjectSelector (example_selector_route\<lparr>ir_subset := ''''\<rparr>) example_gr
       = Some (negate_selector example_app_v2)
   \<and> selector_sat example_app_v2 [(''app'', ''v2'')]
   \<and> \<not> (selector_sat example_app_v2 [(''app'', ''v2'')]
        \<and> selector_sat (negate_selector example_app_v2) [(''app'', ''v2'')])"
proof -
  let ?sl = "hd (ir_subsetLimits example_selector_route)"
  have A: "getObjectSelector (example_selector_route\<lparr>ir_subset := ''v2''\<rparr>) example_gr = Some example_app_v2"
    and B: "getObjectSelector (example_selector_route\<lparr>ir_subset := ''''\<rparr>) example_gr
       = Some (negate_selector example_app_v2)"
    by (simp_all add: getObjectSelector_def example_selector_route_def selector_applies_def
        MergeLabelSelector_def NegateLabelSelector_def)
  have "\<exists>A B. getObjectSelector (example_selector_route\<lparr>ir_subset := ''v2''\<rparr>) example_gr = Some A
      \<and> getObjectSelector (example_selector_route\<lparr>ir_subset := ''''\<rparr>) example_gr = Some B
      \<and> (\<forall>ls. \<not> (selector_sat A ls \<and> selector_sat B ls))"
    by (rule object_selectors_disjoint [where pre = "[]" and sl = ?sl
          and post = "tl (ir_subsetLimits example_selector_route)"])
      (simp_all add: example_selector_route_def route_selectors_ok_def selector_ok_def gomap_ok_def
        example_app_v2_def limit_selectors_def selector_applies_def nontrivial_def)
  moreover have "selector_sat example_app_v2 [(''app'', ''v2'')]"
    by (simp add: example_app_v2_def selector_sat_def label_sat_def)
  ultimately show ?thesis using A B by simp
qed

end
