(* ===== verification/Kube_Types.thy ===== *)
theory Kube_Types
  imports Label_Selector
begin

section \<open>Kubernetes objects and the custom resources\<close>

text \<open>
  The objects the manager and the webhooks read: pods, namespaces, and the
  \<^verbatim>\<open>VirtualApp\<close> resource of \<^verbatim>\<open>apis/ctrlmesh/v1alpha1/virtualapp_types.go\<close>. A record has the
  fields that some source file of the repository reads or writes; other fields of the
  Kubernetes types are carried along by the code and never looked at. Times are integers
  (nanoseconds). The pod predicates of \<^verbatim>\<open>util/pod.go\<close> follow.
\<close>

subsection \<open>Pods and namespaces\<close>

record env_var =
  ev_Name :: string
  ev_Value :: string
  ev_FieldPath :: "string option"

record volume_mount =
  vm_Name :: string
  vm_ReadOnly :: bool
  vm_MountPath :: string
  vm_SubPath :: string

record security_context =
  sc_Privileged :: "bool option"
  sc_ReadOnlyRootFilesystem :: "bool option"
  sc_RunAsUser :: "int option"
  sc_CapabilitiesAdd :: "string list"

record readiness_probe =
  rp_Path :: string
  rp_Port :: int
  rp_PeriodSeconds :: int

record container =
  c_Name :: string
  c_Image :: string
  c_ImagePullPolicy :: string
  c_Args :: "string list"
  c_Env :: "env_var list"
  c_PostStart :: "string list option"
  c_ReadinessProbe :: "readiness_probe option"
  c_Limits :: "(string \<times> string) list"
  c_Requests :: "(string \<times> string) list"
  c_SecurityContext :: "security_context option"
  c_VolumeMounts :: "volume_mount list"

datatype volume_source = EmptyDir | OtherVolume string

record volume =
  vol_Name :: string
  vol_Source :: volume_source

datatype pod_phase = PodPending | PodRunning | PodSucceeded | PodFailed | PodUnknown

datatype condition_status = ConditionTrue | ConditionFalse | ConditionUnknown

record pod_condition =
  pc_Type :: string
  pc_Status :: condition_status

record container_status =
  cs_Name :: string
  cs_Running :: bool

record pod_spec =
  psp_HostNetwork :: bool
  psp_InitContainers :: "container list"
  psp_Containers :: "container list"
  psp_Volumes :: "volume list"
  psp_ImagePullSecrets :: "string list"

record pod =
  pod_Namespace :: string
  pod_Name :: string
  pod_UID :: string
  pod_Labels :: labels
  pod_CreationTimestamp :: int
  pod_DeletionTimestamp :: "int option"
  pod_Phase :: pod_phase
  pod_PodIP :: string
  pod_Conditions :: "pod_condition list"
  pod_ContainerStatuses :: "container_status list"
  pod_Spec :: pod_spec

record namespace =
  ns_Name :: string
  ns_Labels :: labels
  ns_DeletionTimestamp :: "int option"

type_synonym namespaced_name = "string \<times> string"

datatype api_error =
  \<comment> \<open>errors of the API client, as far as the code tells them apart\<close>
  NotFound | AlreadyExists | Conflict | OtherError string

subsection \<open>VirtualApp (\<^verbatim>\<open>virtualapp_types.go\<close>)\<close>

definition VirtualAppInjectedKey :: string where
  "VirtualAppInjectedKey = ''ctrlmesh.kruise.io/virtual-app-injected''"

record APIGroupResource =
  ar_APIGroups :: "string list"
  ar_Resources :: "string list"

record MatchLimitSelector =
  mls_NamespaceSelector :: "label_selector option"
  mls_ObjectSelector :: "label_selector option"
  mls_NamespaceRegex :: "string option"
  mls_Resources :: "APIGroupResource list option"

record VirtualAppRouteSubRule =
  sr_Name :: string
  sr_Match :: "MatchLimitSelector list"

record VirtualAppRoute =
  vr_GlobalLimits :: "MatchLimitSelector list"
  vr_SubRules :: "VirtualAppRouteSubRule list"
  vr_SubsetPublicResources :: "APIGroupResource list"
  vr_SubsetDefaultOnlyUserAgents :: "string list"

record VirtualAppSubset =
  vs_Name :: string
  vs_Labels :: labels
  vs_RouteRules :: "string list"

record VirtualAppWebhookConfiguration =
  wc_CertDir :: string
  wc_Port :: int

record VirtualAppConfiguration =
  \<comment> \<open>\<open>cfg_Controller\<close> is the \<^verbatim>\<open>LeaderElectionName\<close> of the controller configuration and
      \<open>cfg_RestConfigOverrides\<close> the \<^verbatim>\<open>UserAgentOrPrefix\<close> of the overrides: each of
      these structs has this one field\<close>
  cfg_Controller :: "string option"
  cfg_Webhook :: "VirtualAppWebhookConfiguration option"
  cfg_RestConfigOverrides :: "string option option"

record VirtualApp =
  va_Namespace :: string
  va_Name :: string
  va_Selector :: "label_selector option"
  va_Configuration :: "VirtualAppConfiguration option"
  va_Route :: "VirtualAppRoute option"
  va_Subsets :: "VirtualAppSubset list"

subsection \<open>Pod predicates (\<^verbatim>\<open>util/pod.go\<close>)\<close>

definition IsPodActive :: "pod \<Rightarrow> bool" where
  "IsPodActive p \<longleftrightarrow>
     PodSucceeded \<noteq> pod_Phase p \<and> PodFailed \<noteq> pod_Phase p \<and> pod_DeletionTimestamp p = None"

fun env_lookup :: "env_var list \<Rightarrow> string \<Rightarrow> env_var option" where
  "env_lookup [] key = None"
| "env_lookup (e # es) key = (if ev_Name e = key then Some e else env_lookup es key)"

definition GetContainerEnvVar :: "container \<Rightarrow> string \<Rightarrow> env_var option" where
  "GetContainerEnvVar c key = env_lookup (c_Env c) key"

fun GetPodConditionFromList :: "pod_condition list \<Rightarrow> string \<Rightarrow> (nat \<times> pod_condition) option" where
  \<comment> \<open>\<^const>\<open>None\<close> is \<^verbatim>\<open>(-1, nil)\<close>\<close>
  "GetPodConditionFromList [] t = None"
| "GetPodConditionFromList (c # cs) t =
     (if pc_Type c = t then Some (0, c)
      else map_option (\<lambda>(i, d). (Suc i, d)) (GetPodConditionFromList cs t))"

definition GetPodCondition :: "pod \<Rightarrow> string \<Rightarrow> (nat \<times> pod_condition) option" where
  "GetPodCondition p t = GetPodConditionFromList (pod_Conditions p) t"

definition GetPodReadyCondition :: "pod \<Rightarrow> pod_condition option" where
  "GetPodReadyCondition p = map_option snd (GetPodCondition p ''Ready'')"

definition IsPodReadyConditionTrue :: "pod \<Rightarrow> bool" where
  "IsPodReadyConditionTrue p =
     (case GetPodReadyCondition p of None \<Rightarrow> False | Some c \<Rightarrow> pc_Status c = ConditionTrue)"

definition IsPodReady :: "pod \<Rightarrow> bool" where
  "IsPodReady p = IsPodReadyConditionTrue p"

definition getRunningContainers :: "pod \<Rightarrow> string list" where
  "getRunningContainers p = map cs_Name (filter cs_Running (pod_ContainerStatuses p))"

lemma env_lookup_eq_find: "env_lookup es key = find (\<lambda>e. ev_Name e = key) es"
  by (induction es) auto

lemma env_lookup_SomeD: "env_lookup es key = Some e \<Longrightarrow> e \<in> set es \<and> ev_Name e = key"
  by (induction es) (auto split: if_splits)

lemma GetPodConditionFromList_SomeD:
  "GetPodConditionFromList cs t = Some (i, c) \<Longrightarrow>
   i < length cs \<and> cs ! i = c \<and> pc_Type c = t \<and> (\<forall>j<i. pc_Type (cs ! j) \<noteq> t)"
  by (induction cs arbitrary: i) (fastforce simp: less_Suc_eq_0_disj split: if_splits)+

lemma GetPodConditionFromList_None_iff:
  "GetPodConditionFromList cs t = None \<longleftrightarrow> t \<notin> pc_Type ` set cs"
  by (induction cs) auto

lemma IsPodReady_iff:
  "IsPodReady p \<longleftrightarrow>
     (\<exists>c. find (\<lambda>c. pc_Type c = ''Ready'') (pod_Conditions p) = Some c \<and> pc_Status c = ConditionTrue)"
proof -
  have "map_option snd (GetPodConditionFromList cs t) = find (\<lambda>c. pc_Type c = t) cs" for cs t
    by (induction cs) (auto simp: option.map_comp comp_def case_prod_beta)
  then show ?thesis
    by (auto simp: IsPodReady_def IsPodReadyConditionTrue_def GetPodReadyCondition_def
        GetPodCondition_def split: option.splits)
qed

end
