(* ===== verification/Route_Gen.thy ===== *)
theory Route_Gen
  imports Kube_Types Internal_Spec
begin

section \<open>From a VirtualApp to the dispatched route (\<^verbatim>\<open>controllers/server/server_util.go\<close>)\<close>

text \<open>
  The manager turns the rules of a VirtualApp and the current namespaces into the message
  it sends to the proxies. Go's regular expressions, its JSON encoder and MD5 are
  parameters: \<open>rc p\<close> is \<^verbatim>\<open>regexp.Compile(p)\<close>, either an error (\<^const>\<open>None\<close>) or the
  function \<^verbatim>\<open>MatchString\<close> of the compiled expression; \<open>dj\<close> and \<open>djs\<close> are
  \<^verbatim>\<open>util.DumpJSON\<close> on selectors and on specs; \<open>md5\<close> is \<^verbatim>\<open>md5.Sum\<close>, the list of digest bytes.

  The last part connects this with the proxy's side: the subset that the proxy determines
  for a namespace from the dispatched route is the one that the VirtualApp describes.
\<close>

type_synonym regexp_compile = "string \<Rightarrow> (string \<Rightarrow> bool) option"

subsection \<open>Generation\<close>

definition hex_encode :: "nat list \<Rightarrow> string" where
  \<comment> \<open>\<^verbatim>\<open>hex.EncodeToString\<close>\<close>
  "hex_encode bs =
     concat (map (\<lambda>b. [''0123456789abcdef'' ! (b div 16 mod 16), ''0123456789abcdef'' ! (b mod 16)]) bs)"

definition GetMD5Hash :: "(string \<Rightarrow> nat list) \<Rightarrow> string \<Rightarrow> string" where
  "GetMD5Hash md5 s = hex_encode (md5 s)"

fun labels_match :: "labels \<Rightarrow> labels \<Rightarrow> bool" where
  \<comment> \<open>the inner loop over \<^verbatim>\<open>subset.Labels\<close>\<close>
  "labels_match pod_labels [] = True"
| "labels_match pod_labels ((k, v) # kvs) =
     (if goget pod_labels k \<noteq> v then False else labels_match pod_labels kvs)"

fun first_subset :: "labels \<Rightarrow> VirtualAppSubset list \<Rightarrow> string" where
  "first_subset pod_labels [] = ''''"
| "first_subset pod_labels (s # ss) =
     (if labels_match pod_labels (vs_Labels s) then vs_Name s else first_subset pod_labels ss)"

definition determinePodSubset :: "VirtualApp \<Rightarrow> pod \<Rightarrow> string" where
  "determinePodSubset vApp p = first_subset (pod_Labels p) (va_Subsets vApp)"

definition isNamespaceMatched :: "regexp_compile \<Rightarrow> MatchLimitSelector \<Rightarrow> namespace \<Rightarrow> bool" where
  "isNamespaceMatched rc ms ns =
     (case mls_NamespaceSelector ms of
        Some s \<Rightarrow>
          (case ValidatedLabelSelectorAsSelector (Some s) of
             Inl _ \<Rightarrow> False
           | Inr selector \<Rightarrow> selector_matches selector (ns_Labels ns))
      | None \<Rightarrow>
          (case mls_NamespaceRegex ms of
             Some p \<Rightarrow> (case rc p of None \<Rightarrow> False | Some matchString \<Rightarrow> matchString (ns_Name ns))
           | None \<Rightarrow> False))"

definition generateAPIResources :: "APIGroupResource list \<Rightarrow> api_group_resource list" where
  "generateAPIResources rs = map (\<lambda>r. \<lparr>agr_ApiGroups = ar_APIGroups r, agr_Resources = ar_Resources r\<rparr>) rs"

fun generateMatchLimitRules ::
    "regexp_compile \<Rightarrow> (label_selector \<Rightarrow> string) \<Rightarrow> MatchLimitSelector list \<Rightarrow> namespace list
     \<Rightarrow> match_limit_rule_v1 list \<times> match_limit_rule_v1 list" where
  \<comment> \<open>the pair of include rules and exclude rules\<close>
  "generateMatchLimitRules rc dj [] namespaces = ([], [])"
| "generateMatchLimitRules rc dj (ms # limits) namespaces =
     (let resources = generateAPIResources (goslice (mls_Resources ms));
          (inc, exc) = generateMatchLimitRules rc dj limits namespaces
      in if mls_NamespaceSelector ms \<noteq> None \<or> mls_NamespaceRegex ms \<noteq> None then
           (let matched = map ns_Name (filter (isNamespaceMatched rc ms) namespaces);
                unmatched = map ns_Name (filter (\<lambda>ns. \<not> isNamespaceMatched rc ms ns) namespaces)
            in (\<lparr>mlr_Namespaces = matched, mlr_ObjectSelector = '''', mlr_Resources = resources\<rparr> # inc,
                \<lparr>mlr_Namespaces = unmatched, mlr_ObjectSelector = '''', mlr_Resources = resources\<rparr> # exc))
         else (case mls_ObjectSelector ms of
           Some s \<Rightarrow> (\<lparr>mlr_Namespaces = [], mlr_ObjectSelector = dj s, mlr_Resources = resources\<rparr> # inc, exc)
         | None \<Rightarrow> (inc, exc)))"

definition rulesMap :: "VirtualApp \<Rightarrow> (string, MatchLimitSelector list) gomap" where
  "rulesMap vApp =
     (case va_Route vApp of
        None \<Rightarrow> []
      | Some r \<Rightarrow> foldl (\<lambda>m sr. AList.update (sr_Name sr) (sr_Match sr) m) [] (vr_SubRules r))"

definition subsetLimits :: "(string, MatchLimitSelector list) gomap \<Rightarrow> VirtualAppSubset \<Rightarrow> MatchLimitSelector list" where
  \<comment> \<open>a rule name that the map does not have reads as nil\<close>
  "subsetLimits m s = concat (map (\<lambda>name. case map_of m name of None \<Rightarrow> [] | Some ms \<Rightarrow> ms) (vs_RouteRules s))"

fun generateSubsetLimits ::
    "regexp_compile \<Rightarrow> (label_selector \<Rightarrow> string) \<Rightarrow> (string, MatchLimitSelector list) gomap \<Rightarrow> namespace list
     \<Rightarrow> VirtualAppSubset list \<Rightarrow> subset_limit_v1 list \<times> match_limit_rule_v1 list" where
  \<comment> \<open>the loop over the subsets: the limits of each, and \<^verbatim>\<open>allExcludeLimits\<close>\<close>
  "generateSubsetLimits rc dj m namespaces [] = ([], [])"
| "generateSubsetLimits rc dj m namespaces (s # ss) =
     (let (includeLimits, excludeLimits) = generateMatchLimitRules rc dj (subsetLimits m s) namespaces;
          (sls, exc) = generateSubsetLimits rc dj m namespaces ss
      in (\<lparr>sl_Subset = vs_Name s, sl_Limits = includeLimits\<rparr> # sls, excludeLimits @ exc))"

definition generateProtoRoute ::
    "regexp_compile \<Rightarrow> (label_selector \<Rightarrow> string) \<Rightarrow> VirtualApp \<Rightarrow> namespace list \<Rightarrow> route_v1" where
  "generateProtoRoute rc dj vApp namespaces =
     (let (sls, allExcludeLimits) = generateSubsetLimits rc dj (rulesMap vApp) namespaces (va_Subsets vApp);
          limits = sls @ [\<lparr>sl_Subset = '''', sl_Limits = allExcludeLimits\<rparr>]
      in case va_Route vApp of
           None \<Rightarrow> \<lparr>rt_Subset = '''', rt_GlobalLimits = [], rt_SubsetLimits = limits,
                    rt_SubsetPublicResources = [], rt_SubsetDefaultOnlyUserAgents = []\<rparr>
         | Some r \<Rightarrow> \<lparr>rt_Subset = '''',
                      rt_GlobalLimits = fst (generateMatchLimitRules rc dj (vr_GlobalLimits r) namespaces),
                      rt_SubsetLimits = limits,
                      rt_SubsetPublicResources = generateAPIResources (vr_SubsetPublicResources r),
                      rt_SubsetDefaultOnlyUserAgents = vr_SubsetDefaultOnlyUserAgents r\<rparr>)"

definition generateProtoEndpoints :: "VirtualApp \<Rightarrow> pod list \<Rightarrow> endpoint_v1 list" where
  "generateProtoEndpoints vApp pods =
     sort_key ep_Name
       (map (\<lambda>p. \<lparr>ep_Name = pod_Name p, ep_Subset = determinePodSubset vApp p, ep_Ip = pod_PodIP p\<rparr>)
         (filter IsPodReady pods))"

definition calculateSpecHash :: "(proxy_spec_v1 \<Rightarrow> string) \<Rightarrow> (string \<Rightarrow> nat list) \<Rightarrow> proxy_spec_v1 \<Rightarrow> string" where
  "calculateSpecHash djs md5 spec = GetMD5Hash md5 (djs (spec\<lparr>ps_Meta := None\<rparr>))"

subsection \<open>What a VirtualApp says about namespaces\<close>

definition namespaced_limit :: "MatchLimitSelector \<Rightarrow> bool" where
  "namespaced_limit ms \<longleftrightarrow> mls_NamespaceSelector ms \<noteq> None \<or> mls_NamespaceRegex ms \<noteq> None"

definition limit_concerns :: "bool \<Rightarrow> group_resource \<Rightarrow> MatchLimitSelector \<Rightarrow> bool" where
  \<comment> \<open>the limit restricts namespaces for the resource; one without resources restricts all
      resources that are not public\<close>
  "limit_concerns public gr ms \<longleftrightarrow>
     namespaced_limit ms \<and>
     (if goslice (mls_Resources ms) = [] then \<not> public
      else isGRMatchedAPIResources gr (generateAPIResources (goslice (mls_Resources ms))))"

definition app_public :: "VirtualApp \<Rightarrow> group_resource \<Rightarrow> bool" where
  "app_public vApp gr \<longleftrightarrow>
     (\<exists>r. va_Route vApp = Some r \<and>
        isGRMatchedAPIResources gr (generateAPIResources (vr_SubsetPublicResources r)))"

definition app_admits :: "regexp_compile \<Rightarrow> VirtualApp \<Rightarrow> namespace \<Rightarrow> group_resource \<Rightarrow> bool" where
  "app_admits rc vApp n gr \<longleftrightarrow>
     (\<forall>r. va_Route vApp = Some r \<longrightarrow>
        (\<forall>ms\<in>set (vr_GlobalLimits r). limit_concerns False gr ms \<longrightarrow> isNamespaceMatched rc ms n))"

definition subset_claims ::
    "regexp_compile \<Rightarrow> VirtualApp \<Rightarrow> namespace \<Rightarrow> group_resource \<Rightarrow> VirtualAppSubset \<Rightarrow> bool" where
  "subset_claims rc vApp n gr s \<longleftrightarrow>
     (\<exists>ms\<in>set (subsetLimits (rulesMap vApp) s).
        limit_concerns (app_public vApp gr) gr ms \<and> isNamespaceMatched rc ms n)"

definition app_owner :: "regexp_compile \<Rightarrow> VirtualApp \<Rightarrow> namespace \<Rightarrow> group_resource \<Rightarrow> string option" where
  \<comment> \<open>the subset of a namespace, read from the VirtualApp alone\<close>
  "app_owner rc vApp n gr =
     (if \<not> app_admits rc vApp n gr then None
      else case find (subset_claims rc vApp n gr) (va_Subsets vApp) of
        Some s \<Rightarrow> Some (vs_Name s)
      | None \<Rightarrow>
          if \<exists>s\<in>set (va_Subsets vApp). \<exists>ms\<in>set (subsetLimits (rulesMap vApp) s).
               limit_concerns (app_public vApp gr) gr ms
          then Some ''''
          else if app_public vApp gr then Some AllSubsetPublic else None)"

subsection \<open>The generated rules read back\<close>

lemma convert_active [simp]:
  "dj s \<noteq> '''' \<Longrightarrow>
   limit_active public gr (convertProtoMatchLimitRule ju
     \<lparr>mlr_Namespaces = [], mlr_ObjectSelector = dj s, mlr_Resources = rs\<rparr>) = False"
  "limit_active public gr (convertProtoMatchLimitRule ju
     \<lparr>mlr_Namespaces = N, mlr_ObjectSelector = '''', mlr_Resources = rs\<rparr>)
   = (if rs = [] then \<not> public else isGRMatchedAPIResources gr rs)"
  "set (lim_namespaces (convertProtoMatchLimitRule ju
     \<lparr>mlr_Namespaces = N, mlr_ObjectSelector = '''', mlr_Resources = rs\<rparr>)) = set N"
  by (simp_all add: limit_active_def convertProtoMatchLimitRule_def)

lemma generateAPIResources_Nil_iff [simp]: "generateAPIResources rs = [] \<longleftrightarrow> rs = []"
  by (simp add: generateAPIResources_def)

lemma include_rules_ex:
  assumes dj: "\<forall>s. dj s \<noteq> ''''"
  shows "(\<exists>l\<in>set (fst (generateMatchLimitRules rc dj limits nss)).
           limit_active public gr (convertProtoMatchLimitRule ju l) \<and>
           Q (set (lim_namespaces (convertProtoMatchLimitRule ju l))))
     \<longleftrightarrow> (\<exists>ms\<in>set limits. limit_concerns public gr ms \<and>
           Q (ns_Name ` {n \<in> set nss. isNamespaceMatched rc ms n}))"
proof (induction limits)
  case (Cons ms limits)
  show ?case
    by (cases "generateMatchLimitRules rc dj limits nss")
      (use Cons dj in \<open>auto simp: limit_concerns_def namespaced_limit_def Let_def split: option.splits\<close>)
qed simp

lemma exclude_rules_ex:
  "(\<exists>l\<in>set (snd (generateMatchLimitRules rc dj limits nss)).
      limit_active public gr (convertProtoMatchLimitRule ju l) \<and>
      Q (set (lim_namespaces (convertProtoMatchLimitRule ju l))))
   \<longleftrightarrow> (\<exists>ms\<in>set limits. limit_concerns public gr ms \<and>
         Q (ns_Name ` {n \<in> set nss. \<not> isNamespaceMatched rc ms n}))"
proof (induction limits)
  case (Cons ms limits)
  show ?case
    by (cases "generateMatchLimitRules rc dj limits nss")
      (use Cons in \<open>auto simp: limit_concerns_def namespaced_limit_def Let_def split: option.splits\<close>)
qed simp

lemma generateSubsetLimits_eq:
  "generateSubsetLimits rc dj m nss ss =
     (map (\<lambda>s. \<lparr>sl_Subset = vs_Name s, sl_Limits = fst (generateMatchLimitRules rc dj (subsetLimits m s) nss)\<rparr>) ss,
      concat (map (\<lambda>s. snd (generateMatchLimitRules rc dj (subsetLimits m s) nss)) ss))"
  by (induction ss) (simp_all add: Let_def case_prod_beta)

definition convertSubset :: "json_selector \<Rightarrow> subset_limit_v1 \<Rightarrow> internal_subset_limit" where
  "convertSubset ju l =
     \<lparr>isl_subset = sl_Subset l, isl_limits = map (convertProtoMatchLimitRule ju) (sl_Limits l)\<rparr>"

definition generated_subset ::
    "regexp_compile \<Rightarrow> (label_selector \<Rightarrow> string) \<Rightarrow> VirtualApp \<Rightarrow> namespace list \<Rightarrow> VirtualAppSubset \<Rightarrow> subset_limit_v1" where
  "generated_subset rc dj vApp nss s =
     \<lparr>sl_Subset = vs_Name s,
      sl_Limits = fst (generateMatchLimitRules rc dj (subsetLimits (rulesMap vApp) s) nss)\<rparr>"

definition generated_default ::
    "regexp_compile \<Rightarrow> (label_selector \<Rightarrow> string) \<Rightarrow> VirtualApp \<Rightarrow> namespace list \<Rightarrow> subset_limit_v1" where
  "generated_default rc dj vApp nss =
     \<lparr>sl_Subset = '''',
      sl_Limits = concat (map (\<lambda>s. snd (generateMatchLimitRules rc dj (subsetLimits (rulesMap vApp) s) nss))
        (va_Subsets vApp))\<rparr>"

lemma generateProtoRoute_sel:
  "rt_SubsetLimits (generateProtoRoute rc dj vApp nss) =
     map (generated_subset rc dj vApp nss) (va_Subsets vApp) @ [generated_default rc dj vApp nss]"
  "isGRMatchedAPIResources gr (rt_SubsetPublicResources (generateProtoRoute rc dj vApp nss)) = app_public vApp gr"
  "rt_Subset (generateProtoRoute rc dj vApp nss) = ''''"
  "rt_GlobalLimits (generateProtoRoute rc dj vApp nss) =
     (case va_Route vApp of None \<Rightarrow> [] | Some r \<Rightarrow> fst (generateMatchLimitRules rc dj (vr_GlobalLimits r) nss))"
  by (simp_all add: generateProtoRoute_def generateSubsetLimits_eq Let_def app_public_def
      generated_subset_def generated_default_def split: option.splits)

lemma ir_subsetLimits_convert: "ir_subsetLimits (convertRoute ju r) = map (convertSubset ju) (rt_SubsetLimits r)"
  by (simp add: convertRoute_def convertSubset_def convertProtoMatchLimitRuleToInternal_def)

lemma find_map_conv: "find P (map f xs) = map_option f (find (\<lambda>x. P (f x)) xs)"
  by (induction xs) auto

lemma find_append: "find P (xs @ ys) = (case find P xs of None \<Rightarrow> find P ys | Some x \<Rightarrow> Some x)"
  by (induction xs) auto

lemma name_in_iff:
  "distinct (map ns_Name nss) \<Longrightarrow> n \<in> set nss \<Longrightarrow> ns_Name n \<in> ns_Name ` {m \<in> set nss. P m} \<longleftrightarrow> P n"
  by (auto simp: distinct_map inj_on_def)

lemma generated_subset_hit:
  assumes "\<forall>s. dj s \<noteq> ''''" and "distinct (map ns_Name nss)" and "n \<in> set nss"
  shows "subset_hit (app_public vApp gr) (ns_Name n) gr (convertSubset ju (generated_subset rc dj vApp nss s))
     \<longleftrightarrow> subset_claims rc vApp n gr s"
  using include_rules_ex [OF assms(1), of rc "subsetLimits (rulesMap vApp) s" nss "app_public vApp gr" gr ju
      "\<lambda>N. ns_Name n \<in> N"]
  by (simp add: subset_hit_def subset_claims_def convertSubset_def generated_subset_def
      name_in_iff [OF assms(2,3)])

lemma generated_default_hit:
  assumes "distinct (map ns_Name nss)" and "n \<in> set nss"
  shows "subset_hit p (ns_Name n) gr (convertSubset ju (generated_default rc dj vApp nss))
     \<longleftrightarrow> (\<exists>s\<in>set (va_Subsets vApp). \<exists>ms\<in>set (subsetLimits (rulesMap vApp) s).
           limit_concerns p gr ms \<and> \<not> isNamespaceMatched rc ms n)"
  using exclude_rules_ex [of rc dj _ nss p gr ju "\<lambda>N. ns_Name n \<in> N"]
  by (simp add: subset_hit_def convertSubset_def generated_default_def bex_UN name_in_iff [OF assms])

lemma generated_global_passed:
  assumes "\<forall>s. dj s \<noteq> ''''" and "distinct (map ns_Name nss)" and "n \<in> set nss"
  shows "global_passed (convertRoute ju (generateProtoRoute rc dj vApp nss)) (ns_Name n) gr
     \<longleftrightarrow> app_admits rc vApp n gr"
proof (cases "va_Route vApp")
  case (Some r)
  show ?thesis
    using include_rules_ex [OF assms(1), of rc "vr_GlobalLimits r" nss False gr ju "\<lambda>N. ns_Name n \<notin> N"] Some
    by (auto simp: global_passed_def app_admits_def convertRoute_def generateProtoRoute_sel
        convertProtoMatchLimitRuleToInternal_def name_in_iff [OF assms(2,3)])
qed (simp add: global_passed_def app_admits_def convertRoute_def generateProtoRoute_sel
    convertProtoMatchLimitRuleToInternal_def)

lemma generated_names_resource:
  assumes "\<forall>s. dj s \<noteq> ''''" and "limit_names_resource gr l"
    and "l \<in> set (isl_limits (convertSubset ju (generated_subset rc dj vApp nss s)))"
  shows "\<exists>ms\<in>set (subsetLimits (rulesMap vApp) s). limit_concerns p gr ms"
  using include_rules_ex [OF assms(1), of rc "subsetLimits (rulesMap vApp) s" nss p gr ju "\<lambda>N. True"] assms(2,3)
  by (auto simp: convertSubset_def generated_subset_def limit_active_def limit_names_resource_def)

lemma generated_default_names_resource:
  assumes "limit_names_resource gr l"
    and "l \<in> set (isl_limits (convertSubset ju (generated_default rc dj vApp nss)))"
  shows "\<exists>s\<in>set (va_Subsets vApp). \<exists>ms\<in>set (subsetLimits (rulesMap vApp) s). limit_concerns p gr ms"
  using exclude_rules_ex [of rc dj _ nss p gr ju "\<lambda>N. True"] assms
  by (fastforce simp: convertSubset_def generated_default_def limit_active_def limit_names_resource_def)

lemma owner_of_generated_route:
  assumes "\<forall>s. dj s \<noteq> ''''" and "distinct (map ns_Name nss)" and "n \<in> set nss" and "ns_Name n \<noteq> ''''"
  shows "determineNamespaceSubset (convertRoute ju (generateProtoRoute rc dj vApp nss)) (ns_Name n) gr
     = app_owner rc vApp n gr"
proof -
  let ?ir = "convertRoute ju (generateProtoRoute rc dj vApp nss)" and ?p = "app_public vApp gr"
  let ?dflt = "convertSubset ju (generated_default rc dj vApp nss)"
  let ?subs = "map (\<lambda>s. convertSubset ju (generated_subset rc dj vApp nss s)) (va_Subsets vApp)"
  let ?concerned = "\<exists>s\<in>set (va_Subsets vApp). \<exists>ms\<in>set (subsetLimits (rulesMap vApp) s). limit_concerns ?p gr ms"
  let ?found = "find (subset_claims rc vApp n gr) (va_Subsets vApp)"
  have limits: "ir_subsetLimits ?ir = ?subs @ [?dflt]"
    by (simp add: ir_subsetLimits_convert generateProtoRoute_sel)
  have public: "public_resource ?ir gr = ?p" by (simp add: generateProtoRoute_sel)
  have find: "find (subset_hit ?p (ns_Name n) gr) (ir_subsetLimits ?ir) =
      (case ?found of
         Some s \<Rightarrow> Some (convertSubset ju (generated_subset rc dj vApp nss s))
       | None \<Rightarrow> if ?concerned then Some ?dflt else None)"
  proof (cases ?found)
    case None
    then have "\<forall>s\<in>set (va_Subsets vApp). \<not> subset_claims rc vApp n gr s" by (simp add: find_None_iff)
    then have "subset_hit ?p (ns_Name n) gr ?dflt \<longleftrightarrow> ?concerned"
      unfolding generated_default_hit [OF assms(2,3)] subset_claims_def by blast
    with None show ?thesis
      by (simp add: limits find_append find_map_conv generated_subset_hit [OF assms(1-3)])
  qed (simp add: limits find_append find_map_conv generated_subset_hit [OF assms(1-3)])
  have named: "?concerned"
    if "sl \<in> set (ir_subsetLimits ?ir)" "l \<in> set (isl_limits sl)" "limit_names_resource gr l" for sl l
    using that generated_names_resource [OF assms(1) that(3), of ju rc vApp nss _ ?p]
      generated_default_names_resource [OF that(3), of ju rc dj vApp nss ?p]
    by (auto simp: limits) blast
  show ?thesis
    unfolding determineNamespaceSubset_eq [OF assms(4)] public find app_owner_def
      generated_global_passed [OF assms(1-3)]
    using named
    by (auto simp: convertSubset_def generated_subset_def generated_default_def split: option.splits)
qed

lemma labels_match_iff: "labels_match pl ls \<longleftrightarrow> (\<forall>(k, v)\<in>set ls. goget pl k = v)"
  by (induction pl ls rule: labels_match.induct) auto

lemma determinePodSubset_eq:
  "determinePodSubset vApp p =
     (case find (\<lambda>s. \<forall>(k, v)\<in>set (vs_Labels s). goget (pod_Labels p) k = v) (va_Subsets vApp) of
        None \<Rightarrow> '''' | Some s \<Rightarrow> vs_Name s)"
proof -
  have "first_subset pl ss =
     (case find (\<lambda>s. \<forall>(k, v)\<in>set (vs_Labels s). goget pl k = v) ss of None \<Rightarrow> '''' | Some s \<Rightarrow> vs_Name s)" for pl ss
    by (induction ss) (auto simp: labels_match_iff)
  then show ?thesis by (simp add: determinePodSubset_def)
qed

lemma generateProtoEndpoints_set:
  "set (generateProtoEndpoints vApp pods) =
     {\<lparr>ep_Name = pod_Name p, ep_Subset = determinePodSubset vApp p, ep_Ip = pod_PodIP p\<rparr> | p.
        p \<in> set pods \<and> IsPodReady p}"
  by (auto simp: generateProtoEndpoints_def)

lemma generateProtoEndpoints_order:
  assumes "mset pods = mset pods'" and "distinct (map pod_Name pods)"
  shows "generateProtoEndpoints vApp pods = generateProtoEndpoints vApp pods'"
  unfolding generateProtoEndpoints_def
proof (rule sort_key_eq_of_mset)
  let ?f = "\<lambda>p. \<lparr>ep_Name = pod_Name p, ep_Subset = determinePodSubset vApp p, ep_Ip = pod_PodIP p\<rparr>"
  show "mset (map ?f (filter IsPodReady pods)) = mset (map ?f (filter IsPodReady pods'))"
    using assms(1) by simp
  show "distinct (map ep_Name (map ?f (filter IsPodReady pods)))"
    using assms(2) by (simp add: comp_def distinct_map_filter)
qed

subsection \<open>Properties\<close>

text \<open>
  C5. The route dispatched by the manager means what the VirtualApp says. For every active
  namespace, the subset that a proxy determines from the dispatched route is the first
  subset of the VirtualApp one of whose limits concerns the resource and matches the
  namespace; the default subset if limits concern the resource and none matches; the
  public pseudo-subset if no limit concerns a public resource; and none if a global limit
  excludes the namespace or nothing concerns the resource. Hypotheses: the API server's
  namespace names are distinct and not empty, and the JSON text of a selector is not empty.
\<close>

theorem dispatched_route_owner:
  assumes "\<forall>s. dj s \<noteq> ''''" and "distinct (map ns_Name nss)" and "n \<in> set nss" and "ns_Name n \<noteq> ''''"
  shows "determineNamespaceSubset (convertRoute ju (generateProtoRoute rc dj vApp nss)) (ns_Name n) gr
     = app_owner rc vApp n gr"
  by (rule owner_of_generated_route [OF assms])

definition example_json :: "label_selector \<Rightarrow> string" where
  "example_json s = ''{}''"

definition example_namespaces :: "namespace list" where
  "example_namespaces =
     [\<lparr>ns_Name = ''a'', ns_Labels = [(''env'', ''canary'')], ns_DeletionTimestamp = None\<rparr>,
      \<lparr>ns_Name = ''b'', ns_Labels = [], ns_DeletionTimestamp = None\<rparr>]"

definition example_app :: VirtualApp where
  "example_app =
     \<lparr>va_Namespace = ''default'', va_Name = ''app'', va_Selector = None, va_Configuration = None,
      va_Route = Some \<lparr>vr_GlobalLimits = [],
        vr_SubRules = [\<lparr>sr_Name = ''canary'', sr_Match =
          [\<lparr>mls_NamespaceSelector = Some \<lparr>matchLabels = [(''env'', ''canary'')], matchExpressions = []\<rparr>,
            mls_ObjectSelector = None, mls_NamespaceRegex = None, mls_Resources = None\<rparr>]\<rparr>],
        vr_SubsetPublicResources = [], vr_SubsetDefaultOnlyUserAgents = []\<rparr>,
      va_Subsets = [\<lparr>vs_Name = ''v2'', vs_Labels = [(''version'', ''v2'')], vs_RouteRules = [''canary'']\<rparr>]\<rparr>"

lemmas example_app_simps = example_app_def app_owner_def app_admits_def app_public_def generateAPIResources_def
  subset_claims_def subsetLimits_def rulesMap_def limit_concerns_def namespaced_limit_def
  isNamespaceMatched_def ValidatedLabelSelectorAsSelector_def compile_labels_def selector_add_def
  newRequirement_def requirement_matches_def example_namespaces_def

theorem dispatched_route_owner_witness:
  "map (\<lambda>n. determineNamespaceSubset
      (convertRoute example_ju (generateProtoRoute Map.empty example_json example_app example_namespaces))
      (ns_Name n) example_gr) example_namespaces = [Some ''v2'', Some '''']"
proof -
  have "\<forall>s. example_json s \<noteq> ''''" by (simp add: example_json_def)
  moreover have "distinct (map ns_Name example_namespaces)" by (simp add: example_namespaces_def)
  ultimately have own: "determineNamespaceSubset
      (convertRoute example_ju (generateProtoRoute Map.empty example_json example_app example_namespaces))
      (ns_Name n) example_gr = app_owner Map.empty example_app n example_gr" if "n \<in> set example_namespaces" for n
    using dispatched_route_owner [OF _ _ that, of example_json example_ju Map.empty example_app example_gr] that
    by (auto simp: example_namespaces_def)
  have "map (\<lambda>n. app_owner Map.empty example_app n example_gr) example_namespaces = [Some ''v2'', Some '''']"
    by (simp add: example_app_simps)
  then show ?thesis using own by (simp cong: map_cong)
qed

end
