(* ===== verification/VApp_Validation.thy ===== *)
theory VApp_Validation
  imports Kube_Types
begin

section \<open>Validation of VirtualApps (\<^verbatim>\<open>webhook/virtualapp/virtualapp_validating_handler.go\<close>)\<close>

text \<open>
  The admission webhook of VirtualApps, with the checking compiler of label selectors it
  calls (\<^verbatim>\<open>metav1.LabelSelectorAsSelector\<close> and \<^verbatim>\<open>labels.NewRequirement\<close> of the vendored
  packages). The syntax of label keys and values and of regular expressions is given by
  the parameters \<open>vk\<close> (\<^verbatim>\<open>IsQualifiedName\<close> reports nothing), \<open>vv\<close> (\<^verbatim>\<open>IsValidLabelValue\<close>
  reports nothing) and \<open>rc\<close> (\<^verbatim>\<open>regexp.Compile\<close> succeeds). The lemmas show that the nested
  loops with their accumulated name sets accept exactly the well-formed applications.
\<close>

named_theorems validate_defs \<open>definitions of the validation functions\<close>

subsection \<open>The checking compiler of selectors\<close>

datatype requirement_error = BadLabelKey string | BadValueCount | BadLabelValue string | BadOperator string

definition NewRequirement ::
    "(string \<Rightarrow> bool) \<Rightarrow> (string \<Rightarrow> bool) \<Rightarrow> string \<Rightarrow> selection_op \<Rightarrow> string list \<Rightarrow> requirement_error + requirement" where
  "NewRequirement vk vv key op vals =
     (if \<not> vk key then Inl (BadLabelKey key)
      else if (case op of
                 SelIn \<Rightarrow> length vals = 0
               | SelNotIn \<Rightarrow> length vals = 0
               | SelEquals \<Rightarrow> length vals \<noteq> 1
               | SelExists \<Rightarrow> length vals \<noteq> 0
               | SelDoesNotExist \<Rightarrow> length vals \<noteq> 0) then Inl BadValueCount
      else (case find (\<lambda>v. \<not> vv v) vals of
              Some v \<Rightarrow> Inl (BadLabelValue v)
            | None \<Rightarrow> Inr \<lparr>req_key = key, req_operator = op, strValues = vals\<rparr>))"

fun check_labels ::
    "(string \<Rightarrow> bool) \<Rightarrow> (string \<Rightarrow> bool) \<Rightarrow> requirement list \<Rightarrow> labels \<Rightarrow> requirement_error + requirement list" where
  "check_labels vk vv acc [] = Inr acc"
| "check_labels vk vv acc ((k, v) # kvs) =
     (case NewRequirement vk vv k SelEquals [v] of
        Inl e \<Rightarrow> Inl e
      | Inr r \<Rightarrow> check_labels vk vv (selector_add acc r) kvs)"

fun check_exprs ::
    "(string \<Rightarrow> bool) \<Rightarrow> (string \<Rightarrow> bool) \<Rightarrow> requirement list \<Rightarrow> label_requirement list
     \<Rightarrow> requirement_error + requirement list" where
  "check_exprs vk vv acc [] = Inr acc"
| "check_exprs vk vv acc (e # es) =
     (case compile_op (lsr_operator e) of
        Inl op \<Rightarrow> Inl (BadOperator op)
      | Inr op \<Rightarrow>
          (case NewRequirement vk vv (lsr_key e) op (lsr_values e) of
             Inl err \<Rightarrow> Inl err
           | Inr r \<Rightarrow> check_exprs vk vv (selector_add acc r) es))"

definition LabelSelectorAsSelector ::
    "(string \<Rightarrow> bool) \<Rightarrow> (string \<Rightarrow> bool) \<Rightarrow> label_selector option \<Rightarrow> requirement_error + selector" where
  "LabelSelectorAsSelector vk vv ps =
     (case ps of
        None \<Rightarrow> Inr Nothing
      | Some s \<Rightarrow>
          if length (matchLabels s) + length (matchExpressions s) = 0 then Inr Everything
          else (case check_labels vk vv [] (matchLabels s) of
                  Inl e \<Rightarrow> Inl e
                | Inr acc \<Rightarrow>
                    (case check_exprs vk vv acc (matchExpressions s) of
                       Inl e \<Rightarrow> Inl e
                     | Inr rs \<Rightarrow> Inr (Selector rs))))"

definition requirement_String :: "requirement \<Rightarrow> string" where
  "requirement_String r =
     (case req_operator r of
        SelDoesNotExist \<Rightarrow> ''!'' @ req_key r
      | SelExists \<Rightarrow> req_key r
      | SelEquals \<Rightarrow> req_key r @ ''='' @
          (if length (strValues r) = 1 then hd (strValues r) else join_with '','' (sort (strValues r)))
      | SelIn \<Rightarrow> req_key r @ '' in ('' @
          (if length (strValues r) = 1 then hd (strValues r) else join_with '','' (sort (strValues r))) @ '')''
      | SelNotIn \<Rightarrow> req_key r @ '' notin ('' @
          (if length (strValues r) = 1 then hd (strValues r) else join_with '','' (sort (strValues r))) @ '')'')"

fun selector_String :: "selector \<Rightarrow> string" where
  "selector_String Nothing = ''''"
| "selector_String (Selector rs) = join_with '','' (map requirement_String rs)"

fun selector_Empty :: "selector \<Rightarrow> bool" where
  "selector_Empty Nothing = False"
| "selector_Empty (Selector rs) = (length rs = 0)"

subsection \<open>The handler\<close>

datatype match_error =
  ParseNamespaceSelector requirement_error | ParseNamespaceRegex | ParseObjectSelector requirement_error
  | EmptyMatchLimit | InvalidMatchLimit | ObjectSelectorWithoutResources

definition validateMatchLimitSelector ::
    "(string \<Rightarrow> bool) \<Rightarrow> (string \<Rightarrow> bool) \<Rightarrow> (string \<Rightarrow> (string \<Rightarrow> bool) option) \<Rightarrow> MatchLimitSelector
     \<Rightarrow> match_error option" where
  \<comment> \<open>the error, or \<^const>\<open>None\<close> for nil\<close>
  "validateMatchLimitSelector vk vv rc m =
     (case (case mls_NamespaceSelector m of
              Some s \<Rightarrow> (case LabelSelectorAsSelector vk vv (Some s) of
                          Inl e \<Rightarrow> Some (ParseNamespaceSelector e) | Inr _ \<Rightarrow> None)
            | None \<Rightarrow>
                (case mls_NamespaceRegex m of
                   Some p \<Rightarrow> (case rc p of None \<Rightarrow> Some ParseNamespaceRegex | Some _ \<Rightarrow> None)
                 | None \<Rightarrow>
                     (case mls_ObjectSelector m of
                        Some s \<Rightarrow> (case LabelSelectorAsSelector vk vv (Some s) of
                                    Inl e \<Rightarrow> Some (ParseObjectSelector e) | Inr _ \<Rightarrow> None)
                      | None \<Rightarrow> Some EmptyMatchLimit))) of
        Some e \<Rightarrow> Some e
      | None \<Rightarrow>
          if (mls_NamespaceSelector m \<noteq> None \<and> mls_NamespaceRegex m \<noteq> None)
             \<or> (mls_ObjectSelector m \<noteq> None \<and> mls_NamespaceRegex m \<noteq> None)
             \<or> (mls_NamespaceSelector m \<noteq> None \<and> mls_ObjectSelector m \<noteq> None)
          then Some InvalidMatchLimit
          else if mls_ObjectSelector m \<noteq> None \<and> mls_Resources m = None
          then Some ObjectSelectorWithoutResources
          else None)"

datatype vapp_error =
  InvalidSelector requirement_error | EmptySelector
  | NoControllerOrWebhook | EmptyLeaderElectionName | EmptyCertDir | BadPort
  | InGlobalLimits match_error
  | EmptySubRuleName | DuplicatedSubRule string | NoMatchInSubRule string | InSubRule match_error string
  | EmptySubsetName | DuplicatedSubset string | NoLabels string | NoRouteRules string
  | RuleNotFound string string | RuleUsed string string
  | SelectorModified

fun validateSubRules ::
    "(MatchLimitSelector \<Rightarrow> match_error option) \<Rightarrow> goset \<Rightarrow> VirtualAppRouteSubRule list \<Rightarrow> vapp_error + goset" where
  \<comment> \<open>the loop over \<^verbatim>\<open>Route.SubRules\<close>, which accumulates the names\<close>
  "validateSubRules vm subRules [] = Inr subRules"
| "validateSubRules vm subRules (r # rs) =
     (if sr_Name r = '''' then Inl EmptySubRuleName
      else if sr_Name r \<in> set subRules then Inl (DuplicatedSubRule (sr_Name r))
      else if length (sr_Match r) = 0 then Inl (NoMatchInSubRule (sr_Name r))
      else (case first_error vm (sr_Match r) of
              Some e \<Rightarrow> Inl (InSubRule e (sr_Name r))
            | None \<Rightarrow> validateSubRules vm (set_insert subRules (sr_Name r)) rs))"

fun validateRouteRules :: "goset \<Rightarrow> string \<Rightarrow> goset \<Rightarrow> string list \<Rightarrow> vapp_error + goset" where
  \<comment> \<open>the loop over \<^verbatim>\<open>s.RouteRules\<close> of one subset, which accumulates the used rules\<close>
  "validateRouteRules subRules sname usedRules [] = Inr usedRules"
| "validateRouteRules subRules sname usedRules (name # ns) =
     (if name \<notin> set subRules then Inl (RuleNotFound name sname)
      else if name \<in> set usedRules then Inl (RuleUsed name sname)
      else validateRouteRules subRules sname (set_insert usedRules name) ns)"

fun validateSubsets :: "goset \<Rightarrow> goset \<Rightarrow> goset \<Rightarrow> VirtualAppSubset list \<Rightarrow> vapp_error option" where
  "validateSubsets subRules subsets usedRules [] = None"
| "validateSubsets subRules subsets usedRules (s # ss) =
     (if vs_Name s = '''' then Some EmptySubsetName
      else if vs_Name s \<in> set subsets then Some (DuplicatedSubset (vs_Name s))
      else if length (vs_Labels s) = 0 then Some (NoLabels (vs_Name s))
      else if length (vs_RouteRules s) = 0 then Some (NoRouteRules (vs_Name s))
      else (case validateRouteRules subRules (vs_Name s) usedRules (vs_RouteRules s) of
              Inl e \<Rightarrow> Some e
            | Inr usedRules' \<Rightarrow> validateSubsets subRules (set_insert subsets (vs_Name s)) usedRules' ss))"

definition validateConfiguration :: "VirtualAppSubset list \<Rightarrow> VirtualAppConfiguration \<Rightarrow> vapp_error option" where
  "validateConfiguration ss cfg =
     (if length ss > 0 \<and> cfg_Controller cfg = None \<and> cfg_Webhook cfg = None then Some NoControllerOrWebhook
      else if cfg_Controller cfg = Some '''' then Some EmptyLeaderElectionName
      else (case cfg_Webhook cfg of
              None \<Rightarrow> None
            | Some w \<Rightarrow>
                if wc_CertDir w = '''' then Some EmptyCertDir
                else if wc_Port w \<le> 0 then Some BadPort
                else None))"

definition validateRoute ::
    "(MatchLimitSelector \<Rightarrow> match_error option) \<Rightarrow> VirtualAppRoute option \<Rightarrow> vapp_error + goset" where
  "validateRoute vm route =
     (case route of
        None \<Rightarrow> Inr []
      | Some r \<Rightarrow>
          (case first_error vm (vr_GlobalLimits r) of
             Some e \<Rightarrow> Inl (InGlobalLimits e)
           | None \<Rightarrow> validateSubRules vm [] (vr_SubRules r)))"

definition validate ::
    "(string \<Rightarrow> bool) \<Rightarrow> (string \<Rightarrow> bool) \<Rightarrow> (string \<Rightarrow> (string \<Rightarrow> bool) option) \<Rightarrow> VirtualApp
     \<Rightarrow> vapp_error option option" where
  \<comment> \<open>\<^const>\<open>None\<close> is the panic of dereferencing a nil \<^verbatim>\<open>Spec.Configuration\<close>; otherwise the
      error, if any\<close>
  "validate vk vv rc obj =
     (case LabelSelectorAsSelector vk vv (va_Selector obj) of
        Inl e \<Rightarrow> Some (Some (InvalidSelector e))
      | Inr selector \<Rightarrow>
          if selector_Empty selector \<or> selector_String selector = '''' then Some (Some EmptySelector)
          else (case va_Configuration obj of
             None \<Rightarrow> Panic
           | Some cfg \<Rightarrow>
               (case validateConfiguration (va_Subsets obj) cfg of
                  Some e \<Rightarrow> Some (Some e)
                | None \<Rightarrow>
                    (case validateRoute (validateMatchLimitSelector vk vv rc) (va_Route obj) of
                       Inl e \<Rightarrow> Some (Some e)
                     | Inr subRules \<Rightarrow> Some (validateSubsets subRules [] [] (va_Subsets obj))))))"

subsubsection \<open>Decoded objects\<close>

text \<open>
  Elsewhere an absent map or slice is the empty one. \<^verbatim>\<open>reflect.DeepEqual\<close> tells them apart, so that
  the selector of an object as it comes from the decoder keeps the difference: \<^const>\<open>None\<close> is nil.
\<close>

record raw_requirement =
  rwr_key :: string
  rwr_operator :: label_op
  rwr_values :: "string list option"

record raw_selector =
  rws_matchLabels :: "labels option"
  rws_matchExpressions :: "raw_requirement list option"

record decoded_app =
  \<comment> \<open>the selector, and the object whose other fields are those of the decoded one\<close>
  da_Selector :: "raw_selector option"
  da_App :: VirtualApp

definition nil_empty :: "'a list option \<Rightarrow> 'a list" where
  "nil_empty xs = (case xs of None \<Rightarrow> [] | Some ys \<Rightarrow> ys)"

definition plain_requirement :: "raw_requirement \<Rightarrow> label_requirement" where
  "plain_requirement e =
     \<lparr>lsr_key = rwr_key e, lsr_operator = rwr_operator e, lsr_values = nil_empty (rwr_values e)\<rparr>"

definition plain_selector :: "raw_selector \<Rightarrow> label_selector" where
  "plain_selector s =
     \<lparr>matchLabels = nil_empty (rws_matchLabels s),
      matchExpressions = map plain_requirement (nil_empty (rws_matchExpressions s))\<rparr>"

definition plain_app :: "decoded_app \<Rightarrow> VirtualApp" where
  "plain_app obj = (da_App obj)\<lparr>va_Selector := map_option plain_selector (da_Selector obj)\<rparr>"

definition raw_selector_equal :: "raw_selector \<Rightarrow> raw_selector \<Rightarrow> bool" where
  \<comment> \<open>\<^verbatim>\<open>reflect.DeepEqual\<close>: maps up to order, slices in order, nil only like nil\<close>
  "raw_selector_equal a b \<longleftrightarrow>
     rel_option gomap_eq (rws_matchLabels a) (rws_matchLabels b) \<and> rws_matchExpressions a = rws_matchExpressions b"

definition validateUpdate :: "decoded_app \<Rightarrow> decoded_app \<Rightarrow> vapp_error option" where
  "validateUpdate obj oldObj =
     (if \<not> rel_option raw_selector_equal (da_Selector obj) (da_Selector oldObj) then Some SelectorModified else None)"

datatype admission_operation = Create | Update | Delete | Connect

datatype admission_response = Errored nat | Allowed

definition Handle ::
    "(string \<Rightarrow> bool) \<Rightarrow> (string \<Rightarrow> bool) \<Rightarrow> (string \<Rightarrow> (string \<Rightarrow> bool) option) \<Rightarrow>
     (string \<Rightarrow> decoded_app option) \<Rightarrow> admission_operation \<Rightarrow> string \<Rightarrow> string \<Rightarrow> admission_response option" where
  \<comment> \<open>\<open>decode\<close> is the JSON decoder, on the raw object and the raw old object of the request\<close>
  "Handle vk vv rc decode operation raw oldRaw =
     (case decode raw of
        None \<Rightarrow> Some (Errored 400)
      | Some obj \<Rightarrow>
          (case validate vk vv rc (plain_app obj) of
             None \<Rightarrow> Panic
           | Some (Some _) \<Rightarrow> Some (Errored 422)
           | Some None \<Rightarrow>
               if operation = Update then
                 (case decode oldRaw of
                    None \<Rightarrow> Some (Errored 400)
                  | Some oldObj \<Rightarrow>
                      (case validateUpdate obj oldObj of Some _ \<Rightarrow> Some (Errored 422) | None \<Rightarrow> Some Allowed))
               else Some Allowed))"

subsection \<open>Well-formed applications\<close>

definition req_wf :: "(string \<Rightarrow> bool) \<Rightarrow> (string \<Rightarrow> bool) \<Rightarrow> label_requirement \<Rightarrow> bool" where
  "req_wf vk vv e \<longleftrightarrow>
     vk (lsr_key e) \<and> (\<forall>v\<in>set (lsr_values e). vv v) \<and>
     (lsr_operator e \<in> {OpIn, OpNotIn} \<and> lsr_values e \<noteq> [] \<or>
      lsr_operator e \<in> {OpExists, OpDoesNotExist} \<and> lsr_values e = [])"

definition selector_wf :: "(string \<Rightarrow> bool) \<Rightarrow> (string \<Rightarrow> bool) \<Rightarrow> label_selector \<Rightarrow> bool" where
  "selector_wf vk vv s \<longleftrightarrow>
     (\<forall>(k, v)\<in>set (matchLabels s). vk k \<and> vv v) \<and> (\<forall>e\<in>set (matchExpressions s). req_wf vk vv e)"

definition match_wf ::
    "(string \<Rightarrow> bool) \<Rightarrow> (string \<Rightarrow> bool) \<Rightarrow> (string \<Rightarrow> (string \<Rightarrow> bool) option) \<Rightarrow> MatchLimitSelector \<Rightarrow> bool" where
  \<comment> \<open>exactly one of the three selectors, and it is well formed\<close>
  "match_wf vk vv rc m \<longleftrightarrow>
     (case (mls_NamespaceSelector m, mls_NamespaceRegex m, mls_ObjectSelector m) of
        (Some s, None, None) \<Rightarrow> selector_wf vk vv s
      | (None, Some p, None) \<Rightarrow> rc p \<noteq> None
      | (None, None, Some s) \<Rightarrow> selector_wf vk vv s \<and> mls_Resources m \<noteq> None
      | _ \<Rightarrow> False)"

definition config_wf :: "VirtualApp \<Rightarrow> VirtualAppConfiguration \<Rightarrow> bool" where
  "config_wf obj cfg \<longleftrightarrow>
     (va_Subsets obj \<noteq> [] \<longrightarrow> cfg_Controller cfg \<noteq> None \<or> cfg_Webhook cfg \<noteq> None) \<and>
     cfg_Controller cfg \<noteq> Some '''' \<and>
     (\<forall>w. cfg_Webhook cfg = Some w \<longrightarrow> wc_CertDir w \<noteq> '''' \<and> wc_Port w > 0)"

definition app_rules :: "VirtualApp \<Rightarrow> VirtualAppRouteSubRule list" where
  "app_rules obj = (case va_Route obj of None \<Rightarrow> [] | Some r \<Rightarrow> vr_SubRules r)"

definition app_globals :: "VirtualApp \<Rightarrow> MatchLimitSelector list" where
  "app_globals obj = (case va_Route obj of None \<Rightarrow> [] | Some r \<Rightarrow> vr_GlobalLimits r)"

definition vapp_wf ::
    "(string \<Rightarrow> bool) \<Rightarrow> (string \<Rightarrow> bool) \<Rightarrow> (string \<Rightarrow> (string \<Rightarrow> bool) option) \<Rightarrow> VirtualApp \<Rightarrow> bool" where
  "vapp_wf vk vv rc obj \<longleftrightarrow>
     (\<exists>s. va_Selector obj = Some s \<and> selector_wf vk vv s \<and> (matchLabels s \<noteq> [] \<or> matchExpressions s \<noteq> [])) \<and>
     (\<exists>cfg. va_Configuration obj = Some cfg \<and> config_wf obj cfg) \<and>
     (\<forall>m\<in>set (app_globals obj). match_wf vk vv rc m) \<and>
     (\<forall>r\<in>set (app_rules obj). sr_Name r \<noteq> '''' \<and> sr_Match r \<noteq> [] \<and> (\<forall>m\<in>set (sr_Match r). match_wf vk vv rc m)) \<and>
     distinct (map sr_Name (app_rules obj)) \<and>
     (\<forall>s\<in>set (va_Subsets obj). vs_Name s \<noteq> '''' \<and> vs_Labels s \<noteq> [] \<and> vs_RouteRules s \<noteq> []) \<and>
     distinct (map vs_Name (va_Subsets obj)) \<and>
     (\<forall>s\<in>set (va_Subsets obj). set (vs_RouteRules s) \<subseteq> sr_Name ` set (app_rules obj)) \<and>
     distinct (concat (map vs_RouteRules (va_Subsets obj)))"

subsection \<open>The loops decide well-formedness\<close>

lemma NewRequirement_Inr:
  "NewRequirement vk vv k op vals = Inr r \<longleftrightarrow>
     vk k \<and> (\<forall>v\<in>set vals. vv v) \<and> r = \<lparr>req_key = k, req_operator = op, strValues = vals\<rparr> \<and>
     (case op of SelIn \<Rightarrow> vals \<noteq> [] | SelNotIn \<Rightarrow> vals \<noteq> [] | SelEquals \<Rightarrow> length vals = 1
        | SelExists \<Rightarrow> vals = [] | SelDoesNotExist \<Rightarrow> vals = [])"
proof -
  have "(case find (\<lambda>v. \<not> vv v) vals of Some v \<Rightarrow> Inl (BadLabelValue v) | None \<Rightarrow> Inr x) = Inr y
      \<longleftrightarrow> (\<forall>v\<in>set vals. vv v) \<and> y = x" for x y :: requirement
    by (induction vals) (auto split: option.splits)
  then show ?thesis by (cases op) (auto simp: NewRequirement_def)
qed

lemma mset_selector_add [simp]: "mset (selector_add acc r) = add_mset r (mset acc)"
  by (simp add: selector_add_def)


lemma length_selector_add [simp]: "length (selector_add acc r) = Suc (length acc)"
  by (simp add: selector_add_def)

lemma check_labels_Inr_ex:
  "(\<exists>rs. check_labels vk vv acc kvs = Inr rs) \<longleftrightarrow> (\<forall>(k, v)\<in>set kvs. vk k \<and> vv v)"
proof (induction vk vv acc kvs rule: check_labels.induct)
  case (2 vk vv acc k v kvs)
  show ?case
  proof (cases "NewRequirement vk vv k SelEquals [v]")
    case (Inl e)
    then have "\<not> (vk k \<and> vv v)"
      using NewRequirement_Inr [of vk vv k SelEquals "[v]"] by auto
    with Inl show ?thesis by auto
  next
    case (Inr r)
    then have "vk k \<and> vv v" by (simp add: NewRequirement_Inr)
    with 2 [OF Inr] Inr show ?thesis by simp
  qed
qed simp

lemma check_exprs_Inr_ex:
  "(\<exists>rs. check_exprs vk vv acc es = Inr rs) \<longleftrightarrow> (\<forall>e\<in>set es. req_wf vk vv e)"
proof (induction vk vv acc es rule: check_exprs.induct)
  case (2 vk vv acc e es)
  have wf: "req_wf vk vv e \<longleftrightarrow> (\<exists>op r. compile_op (lsr_operator e) = Inr op \<and>
      NewRequirement vk vv (lsr_key e) op (lsr_values e) = Inr r)"
    by (cases "lsr_operator e") (auto simp: req_wf_def NewRequirement_Inr)
  show ?case
    using 2 wf by (cases "compile_op (lsr_operator e)";
        cases "NewRequirement vk vv (lsr_key e) (projr (compile_op (lsr_operator e))) (lsr_values e)") auto
qed simp

lemma check_labels_shape:
  "check_labels vk vv acc kvs = Inr rs \<Longrightarrow> \<forall>r\<in>set acc. vk (req_key r) \<Longrightarrow>
   (\<forall>r\<in>set rs. vk (req_key r)) \<and> length rs = length acc + length kvs"
  by (induction vk vv acc kvs rule: check_labels.induct) (auto simp: NewRequirement_Inr split: sum.splits)

lemma check_exprs_shape:
  "check_exprs vk vv acc es = Inr rs \<Longrightarrow> \<forall>r\<in>set acc. vk (req_key r) \<Longrightarrow>
   (\<forall>r\<in>set rs. vk (req_key r)) \<and> length rs = length acc + length es"
  by (induction vk vv acc es rule: check_exprs.induct) (auto simp: NewRequirement_Inr split: sum.splits)

lemma LabelSelectorAsSelector_Inr_ex:
  "(\<exists>s. LabelSelectorAsSelector vk vv ps = Inr s) \<longleftrightarrow> pred_option (selector_wf vk vv) ps"
proof (cases ps)
  case (Some s)
  show ?thesis
    using check_labels_Inr_ex [of vk vv "[]" "matchLabels s"]
      check_exprs_Inr_ex [of vk vv _ "matchExpressions s"]
    by (auto simp: LabelSelectorAsSelector_def Some selector_wf_def split: sum.splits)
      (metis Inl_Inr_False)+
qed (simp add: LabelSelectorAsSelector_def)

lemma LabelSelectorAsSelector_shape:
  assumes "LabelSelectorAsSelector vk vv (Some s) = Inr sel"
  obtains rs where "sel = Selector rs" "\<forall>r\<in>set rs. vk (req_key r)"
    "length rs = length (matchLabels s) + length (matchExpressions s)"
proof -
  have "\<exists>rs. sel = Selector rs \<and> (\<forall>r\<in>set rs. vk (req_key r)) \<and>
      length rs = length (matchLabels s) + length (matchExpressions s)"
  proof (cases "length (matchLabels s) + length (matchExpressions s) = 0")
    case False
    then obtain acc rs where l: "check_labels vk vv [] (matchLabels s) = Inr acc"
      and e: "check_exprs vk vv acc (matchExpressions s) = Inr rs" and "sel = Selector rs"
      using assms by (auto simp: LabelSelectorAsSelector_def split: sum.splits if_splits)
    with check_labels_shape [OF l] check_exprs_shape [OF e] show ?thesis by simp
  qed (use assms in \<open>auto simp: LabelSelectorAsSelector_def\<close>)
  with that show thesis by blast
qed

lemma requirement_String_not_Nil: "req_key r \<noteq> '''' \<Longrightarrow> requirement_String r \<noteq> ''''"
  by (simp add: requirement_String_def split: selection_op.splits)

lemma join_with_not_Nil: "ws \<noteq> [] \<Longrightarrow> \<forall>w\<in>set ws. w \<noteq> [] \<Longrightarrow> join_with sep ws \<noteq> []"
  by (cases ws rule: list.exhaust; cases "tl ws") auto

lemma selector_check_ok:
  assumes "\<not> vk ''''"
  shows "(\<exists>sel. LabelSelectorAsSelector vk vv ps = Inr sel \<and> \<not> (selector_Empty sel \<or> selector_String sel = ''''))
     \<longleftrightarrow> (\<exists>s. ps = Some s \<and> selector_wf vk vv s \<and> (matchLabels s \<noteq> [] \<or> matchExpressions s \<noteq> []))"
proof (cases ps)
  case None
  then show ?thesis by (simp add: LabelSelectorAsSelector_def)
next
  case (Some s)
  have "\<not> (selector_Empty sel \<or> selector_String sel = '''') \<longleftrightarrow> matchLabels s \<noteq> [] \<or> matchExpressions s \<noteq> []"
    if sel: "LabelSelectorAsSelector vk vv ps = Inr sel" for sel
  proof -
    obtain rs where rs: "sel = Selector rs" "\<forall>r\<in>set rs. vk (req_key r)"
      "length rs = length (matchLabels s) + length (matchExpressions s)"
      using LabelSelectorAsSelector_shape [OF sel [unfolded Some]] by blast
    have "join_with '','' (map requirement_String rs) \<noteq> ''''" if "rs \<noteq> []"
      using rs(2) that assms by (intro join_with_not_Nil) (auto intro!: requirement_String_not_Nil)
    moreover have "rs \<noteq> [] \<longleftrightarrow> matchLabels s \<noteq> [] \<or> matchExpressions s \<noteq> []"
      using rs(3) by (cases rs; cases "matchLabels s"; cases "matchExpressions s") auto
    ultimately show ?thesis by (auto simp: rs(1))
  qed
  with Some LabelSelectorAsSelector_Inr_ex [of vk vv ps] show ?thesis by auto
qed

lemma validateMatchLimitSelector_None_iff:
  "validateMatchLimitSelector vk vv rc m = None \<longleftrightarrow> match_wf vk vv rc m"
  using LabelSelectorAsSelector_Inr_ex [of vk vv "mls_NamespaceSelector m"]
    LabelSelectorAsSelector_Inr_ex [of vk vv "mls_ObjectSelector m"]
  by (cases "mls_NamespaceSelector m"; cases "mls_NamespaceRegex m"; cases "mls_ObjectSelector m")
    (auto simp: validateMatchLimitSelector_def match_wf_def split: option.splits sum.splits)

lemma validateSubRules_Inr_iff:
  "(\<exists>S. validateSubRules vm acc rs = Inr S) \<longleftrightarrow>
     (\<forall>r\<in>set rs. sr_Name r \<noteq> '''' \<and> sr_Match r \<noteq> [] \<and> (\<forall>m\<in>set (sr_Match r). vm m = None)) \<and>
     distinct (map sr_Name rs) \<and> set acc \<inter> sr_Name ` set rs = {}"
  by (induction vm acc rs rule: validateSubRules.induct) (auto split: option.splits dest!: first_error_SomeD)

lemma validateSubRules_set: "validateSubRules vm acc rs = Inr S \<Longrightarrow> set S = set acc \<union> sr_Name ` set rs"
  by (induction vm acc rs rule: validateSubRules.induct) (auto split: option.splits if_splits)

lemma validateRouteRules_Inr_iff:
  "distinct used \<Longrightarrow>
   validateRouteRules subRules sname used ns = Inr S \<longleftrightarrow>
     set ns \<subseteq> set subRules \<and> distinct (used @ ns) \<and> S = used @ ns"
  by (induction subRules sname used ns rule: validateRouteRules.induct)
    (auto simp: set_insert_def)

lemma validateSubsets_None_iff:
  "distinct subsets \<Longrightarrow> distinct used \<Longrightarrow>
   validateSubsets subRules subsets used ss = None \<longleftrightarrow>
     (\<forall>s\<in>set ss. vs_Name s \<noteq> '''' \<and> vs_Labels s \<noteq> [] \<and> vs_RouteRules s \<noteq> []) \<and>
     distinct (subsets @ map vs_Name ss) \<and>
     (\<forall>s\<in>set ss. set (vs_RouteRules s) \<subseteq> set subRules) \<and>
     distinct (used @ concat (map vs_RouteRules ss))"
proof (induction subRules subsets used ss rule: validateSubsets.induct)
  case (2 subRules subsets used s ss)
  note Inr_iff = validateRouteRules_Inr_iff [OF "2.prems"(2)]
  show ?case
  proof (cases "vs_Name s = '''' \<or> vs_Name s \<in> set subsets \<or> vs_Labels s = [] \<or> vs_RouteRules s = []")
    case False
    show ?thesis
    proof (cases "validateRouteRules subRules (vs_Name s) used (vs_RouteRules s)")
      case (Inl e)
      then have "\<not> (set (vs_RouteRules s) \<subseteq> set subRules \<and> distinct (used @ vs_RouteRules s))"
        using Inr_iff [of subRules "vs_Name s" "vs_RouteRules s" "used @ vs_RouteRules s"] by auto
      with Inl False show ?thesis by auto
    next
      case (Inr used')
      with Inr_iff have used': "used' = used @ vs_RouteRules s" "distinct used'"
        and ok: "set (vs_RouteRules s) \<subseteq> set subRules" by auto
      from False have names: "set_insert subsets (vs_Name s) = subsets @ [vs_Name s]"
        by (simp add: set_insert_def)
      have "validateSubsets subRules subsets used (s # ss) =
          validateSubsets subRules (subsets @ [vs_Name s]) (used @ vs_RouteRules s) ss"
        using False Inr by (simp add: names flip: used'(1))
      moreover note "2.IH" [OF _ _ _ _ Inr, unfolded names used'(1)]
      ultimately show ?thesis using False ok used' "2.prems" by simp
    qed
  qed auto
qed simp

lemma validateConfiguration_None_iff:
  "validateConfiguration (va_Subsets obj) cfg = None \<longleftrightarrow> config_wf obj cfg"
  by (auto simp: validateConfiguration_def config_wf_def split: option.splits)

lemma validateRoute_Inr_iff:
  "(\<exists>S. validateRoute vm (va_Route obj) = Inr S) \<longleftrightarrow>
     (\<forall>m\<in>set (app_globals obj). vm m = None) \<and>
     (\<forall>r\<in>set (app_rules obj). sr_Name r \<noteq> '''' \<and> sr_Match r \<noteq> [] \<and> (\<forall>m\<in>set (sr_Match r). vm m = None)) \<and>
     distinct (map sr_Name (app_rules obj))"
  using validateSubRules_Inr_iff [of vm "[]"]
  by (auto simp: validateRoute_def app_globals_def app_rules_def split: option.splits dest!: first_error_SomeD)

lemma validateRoute_set:
  "validateRoute vm (va_Route obj) = Inr S \<Longrightarrow> set S = sr_Name ` set (app_rules obj)"
  by (auto simp: validateRoute_def app_rules_def split: option.splits dest!: validateSubRules_set)

lemma validate_eq:
  "validate vk vv rc obj = Some None \<longleftrightarrow>
     (\<exists>sel. LabelSelectorAsSelector vk vv (va_Selector obj) = Inr sel
        \<and> \<not> (selector_Empty sel \<or> selector_String sel = '''')) \<and>
     (\<exists>cfg. va_Configuration obj = Some cfg \<and> validateConfiguration (va_Subsets obj) cfg = None) \<and>
     (\<exists>S. validateRoute (validateMatchLimitSelector vk vv rc) (va_Route obj) = Inr S \<and>
        validateSubsets S [] [] (va_Subsets obj) = None)"
  by (auto simp: validate_def split: sum.splits option.splits)

lemma validate_accepts_iff:
  assumes "\<not> vk ''''"
  shows "validate vk vv rc obj = Some None \<longleftrightarrow> vapp_wf vk vv rc obj"
proof -
  let ?vm = "validateMatchLimitSelector vk vv rc"
  have "(\<exists>S. validateRoute ?vm (va_Route obj) = Inr S \<and> validateSubsets S [] [] (va_Subsets obj) = None) \<longleftrightarrow>
      (\<exists>S. validateRoute ?vm (va_Route obj) = Inr S) \<and>
      (\<forall>s\<in>set (va_Subsets obj). vs_Name s \<noteq> '''' \<and> vs_Labels s \<noteq> [] \<and> vs_RouteRules s \<noteq> []) \<and>
      distinct (map vs_Name (va_Subsets obj)) \<and>
      (\<forall>s\<in>set (va_Subsets obj). set (vs_RouteRules s) \<subseteq> sr_Name ` set (app_rules obj)) \<and>
      distinct (concat (map vs_RouteRules (va_Subsets obj)))"
    using validateRoute_set [of ?vm obj] by (auto simp: validateSubsets_None_iff) blast
  then show ?thesis
    unfolding validate_eq selector_check_ok [of vk, OF assms] validateConfiguration_None_iff vapp_wf_def
      validateRoute_Inr_iff validateMatchLimitSelector_None_iff
    by blast
qed

lemma validate_panics_iff:
  "validate vk vv rc obj = None \<longleftrightarrow>
     va_Configuration obj = None \<and>
     (\<exists>sel. LabelSelectorAsSelector vk vv (va_Selector obj) = Inr sel
        \<and> \<not> (selector_Empty sel \<or> selector_String sel = ''''))"
  by (auto simp: validate_def split: sum.splits option.splits)

subsection \<open>Properties\<close>

lemma raw_selector_equal_plain: "raw_selector_equal a b \<Longrightarrow> selector_deep_equal (plain_selector a) (plain_selector b)"
  by (auto simp: raw_selector_equal_def selector_deep_equal_def plain_selector_def nil_empty_def option_rel_Some2
      split: option.splits) (simp add: gomap_eq_def)

text \<open>
  An update that only adds an empty list of expressions is refused, although the selector
  selects the same pods.
\<close>

lemma empty_expressions_refused:
  assumes "da_Selector oldObj = Some s" and "rws_matchExpressions s = None"
    and "da_Selector obj = Some (s\<lparr>rws_matchExpressions := Some []\<rparr>)"
  shows "validateUpdate obj oldObj = Some SelectorModified"
    and "va_Selector (plain_app obj) = va_Selector (plain_app oldObj)"
  using assms by (simp_all add: validateUpdate_def raw_selector_equal_def plain_app_def plain_selector_def nil_empty_def)


definition example_vapp :: VirtualApp where
  "example_vapp =
     \<lparr>va_Namespace = ''default'', va_Name = ''app'', va_Selector = None,
      va_Configuration = Some \<lparr>cfg_Controller = Some ''lock'', cfg_Webhook = None, cfg_RestConfigOverrides = None\<rparr>,
      va_Route = Some \<lparr>vr_GlobalLimits = [],
        vr_SubRules = [\<lparr>sr_Name = ''canary'', sr_Match =
          [\<lparr>mls_NamespaceSelector = Some \<lparr>matchLabels = [(''env'', ''canary'')], matchExpressions = []\<rparr>,
            mls_ObjectSelector = None, mls_NamespaceRegex = None, mls_Resources = None\<rparr>]\<rparr>],
        vr_SubsetPublicResources = [], vr_SubsetDefaultOnlyUserAgents = []\<rparr>,
      va_Subsets = [\<lparr>vs_Name = ''v2'', vs_Labels = [(''version'', ''v2'')], vs_RouteRules = [''canary'']\<rparr>]\<rparr>"

definition nonempty_name :: "string \<Rightarrow> bool" where
  "nonempty_name s \<longleftrightarrow> s \<noteq> ''''"

definition example_decoded :: decoded_app where
  "example_decoded =
     \<lparr>da_Selector = Some \<lparr>rws_matchLabels = Some [(''app'', ''kruise'')], rws_matchExpressions = None\<rparr>,
      da_App = example_vapp\<rparr>"

lemma example_vapp_wf: "vapp_wf nonempty_name (\<lambda>_. True) Map.empty (plain_app example_decoded)"
  by (simp add: vapp_wf_def example_vapp_def example_decoded_def plain_app_def plain_selector_def nil_empty_def selector_wf_def match_wf_def config_wf_def app_rules_def
      app_globals_def nonempty_name_def)


end
