(* ===== verification/Requests_Store.thy ===== *)
theory Requests_Store
  imports Internal_Spec
begin

section \<open>Storage and request history (\<^verbatim>\<open>proto_storage.go\<close>, \<^verbatim>\<open>requests_store.go\<close>)\<close>

text \<open>
  The proxy keeps three files: the expected spec, the current spec, and the history of
  routing decisions it has made. The files are opened once and read to the end, so every
  later write appends. A file is the string of its contents. Protocol-buffer and JSON
  coding are parameters (\<open>codec\<close>). A write fails only through the mock-failure file, and
  its callers panic then (\<^const>\<open>None\<close>).

  The history records which user agents and namespaces were passed or denied, and the
  object selector, per resource. The lemmas say what one \<open>add\<close> does to it, as a change
  of the relation it stores.
\<close>

subsection \<open>Files\<close>

record storage =
  sto_expectedSpecFile :: string
  sto_currentSpecFile :: string
  sto_historyRequestsFile :: string
  sto_mockFailure :: bool

record requests_pack =
  pk_RequestsByGR :: "(string, resource_request) gomap"
  pk_UserAgentPassed :: goset
  pk_UserAgentDenied :: goset

record codec =
  cd_marshalSpec :: "proxy_spec_v1 \<Rightarrow> string"
  cd_unmarshalSpec :: "string \<Rightarrow> proxy_spec_v1 option"
  cd_marshalPack :: "requests_pack \<Rightarrow> string"
  cd_unmarshalPack :: "requests_pack \<Rightarrow> string \<Rightarrow> requests_pack option"

definition newStorage :: "string option \<Rightarrow> string option \<Rightarrow> string option \<Rightarrow> storage" where
  \<comment> \<open>the three files are created empty when they do not exist (\<^const>\<open>None\<close>); the branch that
      blocks forever on the mock-failure file is left out\<close>
  "newStorage e c h =
     \<lparr>sto_expectedSpecFile = (case e of None \<Rightarrow> '''' | Some x \<Rightarrow> x),
      sto_currentSpecFile = (case c of None \<Rightarrow> '''' | Some x \<Rightarrow> x),
      sto_historyRequestsFile = (case h of None \<Rightarrow> '''' | Some x \<Rightarrow> x),
      sto_mockFailure = False\<rparr>"

definition loadSpec :: "codec \<Rightarrow> string \<Rightarrow> string + proxy_spec_v1 option" where
  "loadSpec cd bytes =
     (if length bytes > 0 then
        (case cd_unmarshalSpec cd bytes of None \<Rightarrow> Inl ''unmarshal'' | Some s \<Rightarrow> Inr (Some s))
      else Inr None)"

definition loadData ::
    "codec \<Rightarrow> storage \<Rightarrow> requests_pack
     \<Rightarrow> (string + (proxy_spec_v1 option \<times> proxy_spec_v1 option)) \<times> requests_pack" where
  \<comment> \<open>expected and current spec, or the error; the pack is decoded in place\<close>
  "loadData cd s pack =
     (case loadSpec cd (sto_expectedSpecFile s) of
        Inl e \<Rightarrow> (Inl e, pack)
      | Inr expectedSpec \<Rightarrow>
          (case loadSpec cd (sto_currentSpecFile s) of
             Inl e \<Rightarrow> (Inl e, pack)
           | Inr currentSpec \<Rightarrow>
               if length (sto_historyRequestsFile s) > 0 then
                 (case cd_unmarshalPack cd pack (sto_historyRequestsFile s) of
                    None \<Rightarrow> (Inl ''unmarshal'', pack)
                  | Some pack' \<Rightarrow> (Inr (expectedSpec, currentSpec), pack'))
               else (Inr (expectedSpec, currentSpec), pack)))"

definition mockFailure :: "storage \<Rightarrow> bool" where
  "mockFailure s = sto_mockFailure s"

definition writeExpectedSpec :: "codec \<Rightarrow> proxy_spec_v1 \<Rightarrow> storage \<Rightarrow> storage option" where
  "writeExpectedSpec cd spec s =
     (if mockFailure s then None
      else Some (s\<lparr>sto_expectedSpecFile := sto_expectedSpecFile s @ cd_marshalSpec cd spec\<rparr>))"

definition writeCurrentSpec :: "codec \<Rightarrow> proxy_spec_v1 \<Rightarrow> storage \<Rightarrow> storage option" where
  "writeCurrentSpec cd spec s =
     (if mockFailure s then None
      else Some (s\<lparr>sto_currentSpecFile := sto_currentSpecFile s @ cd_marshalSpec cd spec\<rparr>))"

definition writeHistoryRequests :: "codec \<Rightarrow> requests_pack \<Rightarrow> storage \<Rightarrow> storage option" where
  "writeHistoryRequests cd pack s =
     (if mockFailure s then None
      else Some (s\<lparr>sto_historyRequestsFile := sto_historyRequestsFile s @ cd_marshalPack cd pack\<rparr>))"

subsection \<open>The request history\<close>

definition newRequestsStore :: requests_pack where
  "newRequestsStore = \<lparr>pk_RequestsByGR = [], pk_UserAgentPassed = [], pk_UserAgentDenied = []\<rparr>"

definition add_userAgent :: "resource_request \<Rightarrow> requests_pack \<Rightarrow> requests_pack \<times> bool" where
  "add_userAgent req pack =
     (case rr_UserAgentPassed req of
        Some ua \<Rightarrow>
          if ua \<notin> set (pk_UserAgentPassed pack)
          then (pack\<lparr>pk_UserAgentPassed := set_insert (pk_UserAgentPassed pack) ua\<rparr>, True)
          else (pack, False)
      | None \<Rightarrow>
          (case rr_UserAgentDenied req of
             Some ua \<Rightarrow>
               if ua \<notin> set (pk_UserAgentDenied pack)
               then (pack\<lparr>pk_UserAgentDenied := set_insert (pk_UserAgentDenied pack) ua\<rparr>, True)
               else (pack, False)
           | None \<Rightarrow> (pack, False)))"

definition merge_selector :: "resource_request \<Rightarrow> resource_request \<Rightarrow> resource_request \<times> bool" where
  "merge_selector req old =
     (if \<not> selector_opt_deep_equal (rr_ObjectSelector old) (rr_ObjectSelector req)
      then (old\<lparr>rr_ObjectSelector := rr_ObjectSelector req\<rparr>, True) else (old, False))"

definition merge_passed :: "resource_request \<Rightarrow> resource_request \<Rightarrow> resource_request \<times> bool" where
  "merge_passed req old =
     (let diff = set_difference (rr_NamespacePassed req) (rr_NamespacePassed old) in
      if length diff > 0
      then (old\<lparr>rr_NamespacePassed := set_insert_all (rr_NamespacePassed old) diff\<rparr>, True) else (old, False))"

definition merge_denied :: "resource_request \<Rightarrow> resource_request \<Rightarrow> resource_request \<times> bool" where
  "merge_denied req old =
     (let diff = set_difference (rr_NamespaceDenied req) (rr_NamespaceDenied old) in
      if length diff > 0
      then (old\<lparr>rr_NamespaceDenied := set_insert_all (rr_NamespaceDenied old) diff\<rparr>, True) else (old, False))"

definition merge_request :: "resource_request \<Rightarrow> resource_request \<Rightarrow> resource_request \<times> bool" where
  \<comment> \<open>the branch of \<open>add\<close> for a resource that has a record already\<close>
  "merge_request req old =
     (let (r1, c1) = merge_selector req old;
          (r2, c2) = merge_passed req r1;
          (r3, c3) = merge_denied req r2
      in (r3, c1 \<or> c2 \<or> c3))"

definition records_resource :: "resource_request \<Rightarrow> bool" where
  "records_resource req \<longleftrightarrow>
     rr_ObjectSelector req \<noteq> None \<or> length (rr_NamespacePassed req) > 0 \<or> length (rr_NamespaceDenied req) > 0"

definition add_resource :: "resource_request \<Rightarrow> requests_pack \<Rightarrow> requests_pack \<times> bool" where
  "add_resource req pack =
     (if records_resource req then
        (let key = gr_String (rr_GR req) in
         case map_of (pk_RequestsByGR pack) key of
           None \<Rightarrow> (pack\<lparr>pk_RequestsByGR := AList.update key req (pk_RequestsByGR pack)\<rparr>, True)
         | Some old \<Rightarrow>
             (let (new, changed) = merge_request req old
              in (pack\<lparr>pk_RequestsByGR := AList.update key new (pk_RequestsByGR pack)\<rparr>, changed)))
      else (pack, False))"

definition add_pack :: "resource_request \<Rightarrow> requests_pack \<Rightarrow> requests_pack \<times> bool" where
  "add_pack req pack =
     (let (p1, c1) = add_userAgent req pack;
          (p2, c2) = add_resource req p1
      in (p2, c1 \<or> c2))"

definition requestsStore_add ::
    "codec \<Rightarrow> resource_request option \<Rightarrow> requests_pack \<times> storage \<Rightarrow> (requests_pack \<times> storage) option" where
  "requestsStore_add cd r ps =
     (case r of
        None \<Rightarrow> Some ps
      | Some req \<Rightarrow>
          (let (pack, changed) = add_pack req (fst ps)
           in if changed then
                (case writeHistoryRequests cd pack (snd ps) of
                   None \<Rightarrow> Panic
                 | Some s \<Rightarrow> Some (pack, s))
              else Some (pack, snd ps)))"

definition userAgentPassed_request :: "string \<Rightarrow> resource_request" where
  "userAgentPassed_request ua =
     \<lparr>rr_GR = \<lparr>gr_Group = '''', gr_Resource = ''''\<rparr>, rr_ObjectSelector = None, rr_NamespacePassed = [],
      rr_NamespaceDenied = [], rr_UserAgentPassed = Some ua, rr_UserAgentDenied = None\<rparr>"

definition userAgentDenied_request :: "string \<Rightarrow> resource_request" where
  "userAgentDenied_request ua =
     \<lparr>rr_GR = \<lparr>gr_Group = '''', gr_Resource = ''''\<rparr>, rr_ObjectSelector = None, rr_NamespacePassed = [],
      rr_NamespaceDenied = [], rr_UserAgentPassed = None, rr_UserAgentDenied = Some ua\<rparr>"

definition rangeRequests :: "(resource_request \<Rightarrow> 'e option) \<Rightarrow> requests_pack \<Rightarrow> 'e option" where
  \<comment> \<open>the callback returns false by setting the error. Each of the three loops stops at
      its first error, but the next loop runs all the same and may overwrite it\<close>
  "rangeRequests fn pack =
     (let e1 = first_error (fn \<circ> userAgentPassed_request) (pk_UserAgentPassed pack);
          e2 = first_error (fn \<circ> userAgentDenied_request) (pk_UserAgentDenied pack);
          e3 = first_error fn (map snd (pk_RequestsByGR pack))
      in case e3 of Some e \<Rightarrow> Some e | None \<Rightarrow> (case e2 of Some e \<Rightarrow> Some e | None \<Rightarrow> e1))"

subsection \<open>What one addition records\<close>

definition merged :: "resource_request \<Rightarrow> resource_request \<Rightarrow> resource_request" where
  "merged req old = fst (merge_request req old)"

lemma merged_sel [simp]:
  "rr_GR (merged req old) = rr_GR old"
  "set (rr_NamespacePassed (merged req old)) = set (rr_NamespacePassed old) \<union> set (rr_NamespacePassed req)"
  "set (rr_NamespaceDenied (merged req old)) = set (rr_NamespaceDenied old) \<union> set (rr_NamespaceDenied req)"
  "rr_ObjectSelector (merged req old) =
     (if selector_opt_deep_equal (rr_ObjectSelector old) (rr_ObjectSelector req)
      then rr_ObjectSelector old else rr_ObjectSelector req)"
  by (auto simp: merged_def merge_request_def merge_selector_def merge_passed_def merge_denied_def Let_def
      set_difference_Nil_iff)

lemma add_userAgent_sel:
  "pk_RequestsByGR (fst (add_userAgent req pack)) = pk_RequestsByGR pack"
  "set (pk_UserAgentPassed (fst (add_userAgent req pack))) =
     set (pk_UserAgentPassed pack) \<union> set_option (rr_UserAgentPassed req)"
  "set (pk_UserAgentDenied (fst (add_userAgent req pack))) =
     set (pk_UserAgentDenied pack) \<union>
     (if rr_UserAgentPassed req = None then set_option (rr_UserAgentDenied req) else {})"
  by (auto simp: add_userAgent_def split: option.splits)

lemma add_resource_sel:
  "pk_UserAgentPassed (fst (add_resource req pack)) = pk_UserAgentPassed pack"
  "pk_UserAgentDenied (fst (add_resource req pack)) = pk_UserAgentDenied pack"
  "map_of (pk_RequestsByGR (fst (add_resource req pack))) =
     (if records_resource req then
        (map_of (pk_RequestsByGR pack))(gr_String (rr_GR req) \<mapsto>
           (case map_of (pk_RequestsByGR pack) (gr_String (rr_GR req)) of
              None \<Rightarrow> req | Some old \<Rightarrow> merged req old))
      else map_of (pk_RequestsByGR pack))"
  by (simp_all add: add_resource_def Let_def case_prod_beta merged_def update_conv' split: option.splits)

lemma add_pack_sel:
  "set (pk_UserAgentPassed (fst (add_pack req pack))) =
     set (pk_UserAgentPassed pack) \<union> set_option (rr_UserAgentPassed req)"
  "set (pk_UserAgentDenied (fst (add_pack req pack))) =
     set (pk_UserAgentDenied pack) \<union>
     (if rr_UserAgentPassed req = None then set_option (rr_UserAgentDenied req) else {})"
  "map_of (pk_RequestsByGR (fst (add_pack req pack))) =
     (if records_resource req then
        (map_of (pk_RequestsByGR pack))(gr_String (rr_GR req) \<mapsto>
           (case map_of (pk_RequestsByGR pack) (gr_String (rr_GR req)) of
              None \<Rightarrow> req | Some old \<Rightarrow> merged req old))
      else map_of (pk_RequestsByGR pack))"
  by (simp_all add: add_pack_def Let_def case_prod_beta add_resource_sel add_userAgent_sel)

lemma gomap_ok_update [simp]: "gomap_ok (AList.update k v m) = gomap_ok m"
  by (induction m) (auto simp: gomap_ok_def update_keys)

lemma update_same: "map_of m k = Some v \<Longrightarrow> AList.update k v m = m"
  by (induction m) auto

lemma add_pack_ok: "gomap_ok (pk_RequestsByGR (fst (add_pack req pack))) = gomap_ok (pk_RequestsByGR pack)"
  by (simp add: add_pack_def Let_def case_prod_beta add_resource_def add_userAgent_sel split: option.splits)

lemma merge_request_unchanged: "\<not> snd (merge_request req old) \<Longrightarrow> fst (merge_request req old) = old"
  by (simp add: merge_request_def merge_selector_def merge_passed_def merge_denied_def Let_def split: if_splits)

lemma add_pack_unchanged: "\<not> snd (add_pack req pack) \<Longrightarrow> fst (add_pack req pack) = pack"
proof -
  assume same: "\<not> snd (add_pack req pack)"
  have ua: "fst (add_userAgent req pack) = pack"
    using same by (auto simp: add_pack_def add_userAgent_def Let_def case_prod_beta split: option.splits if_splits)
  with same have "\<not> snd (add_resource req pack)" by (simp add: add_pack_def Let_def case_prod_beta)
  then have "fst (add_resource req pack) = pack"
    using merge_request_unchanged [of req]
    by (auto simp: add_resource_def Let_def case_prod_beta update_same split: option.splits if_splits)
  with ua show ?thesis by (simp add: add_pack_def Let_def case_prod_beta)
qed


lemma rangeRequests_None_iff:
  "rangeRequests fn pack = None \<longleftrightarrow>
     (\<forall>ua\<in>set (pk_UserAgentPassed pack). fn (userAgentPassed_request ua) = None) \<and>
     (\<forall>ua\<in>set (pk_UserAgentDenied pack). fn (userAgentDenied_request ua) = None) \<and>
     (\<forall>(k, r)\<in>set (pk_RequestsByGR pack). fn r = None)"
proof -
  have "rangeRequests fn pack = None \<longleftrightarrow>
      first_error (fn \<circ> userAgentPassed_request) (pk_UserAgentPassed pack) = None \<and>
      first_error (fn \<circ> userAgentDenied_request) (pk_UserAgentDenied pack) = None \<and>
      first_error fn (map snd (pk_RequestsByGR pack)) = None"
    by (auto simp: rangeRequests_def Let_def simp del: first_error_None_iff split: option.split)
  then show ?thesis by auto
qed

end
