(* ===== verification/Spec_Manager.thy ===== *)
theory Spec_Manager
  imports Requests_Store
begin

section \<open>The spec manager of the proxy (\<^verbatim>\<open>proto_manager.go\<close>)\<close>

text \<open>
  The manager of the proxy's spec holds the expected spec (the last one received), the
  current spec (the last one loaded), and the request history. A new spec is loaded only
  if \<open>checkLoadable\<close> finds that every routing decision in the history is also the decision
  of the new spec.

  \<open>UpdateSpec\<close> writes the expected spec before it takes the write lock, so it is two
  atomic steps, \<open>UpdateSpec_expect\<close> and \<open>UpdateSpec_load\<close>. The last part puts the
  operations into a transition system with the reader lock, in which any number of
  requests hold the spec, and shows that the history always agrees with the current spec.
\<close>

named_theorems spec_manager_defs \<open>definitions of the spec manager's operations\<close>

datatype load_error =
  VAppNameChanged string string | SubsetChanged string string
  | UserAgentPassedMismatch string | UserAgentDeniedMatch string
  | ObjectSelectorChanged group_resource
  | NamespacePassedMismatch string group_resource | NamespaceDeniedMatch string group_resource

record spec_manager =
  smg_storage :: storage
  smg_expectedSpec :: "internal_spec option"
  smg_currentSpec :: "internal_spec option"
  smg_unloadReason :: "load_error option"
  smg_requestsStore :: requests_pack
  smg_leaderElectionState :: "leader_election_state_v1 option"
  smg_reportTriggers :: nat

subsection \<open>Operations\<close>

definition check_userAgents :: "internal_route \<Rightarrow> resource_request \<Rightarrow> load_error option" where
  "check_userAgents ir req =
     (case rr_UserAgentPassed req of
        Some ua \<Rightarrow>
          if \<not> route_IsUserAgentMatch ir ua then Some (UserAgentPassedMismatch ua)
          else (case rr_UserAgentDenied req of
                  Some ua' \<Rightarrow> if route_IsUserAgentMatch ir ua' then Some (UserAgentDeniedMatch ua') else None
                | None \<Rightarrow> None)
      | None \<Rightarrow>
          (case rr_UserAgentDenied req of
             Some ua' \<Rightarrow> if route_IsUserAgentMatch ir ua' then Some (UserAgentDeniedMatch ua') else None
           | None \<Rightarrow> None))"

definition check_resource :: "internal_route \<Rightarrow> resource_request \<Rightarrow> load_error option" where
  "check_resource ir req =
     (let gr = rr_GR req in
      if gr_Empty gr then None
      else if \<not> selector_opt_deep_equal (getObjectSelector ir gr) (rr_ObjectSelector req)
      then Some (ObjectSelectorChanged gr)
      else (case first_error (\<lambda>ns. if \<not> route_IsNamespaceMatch ir ns gr then Some (NamespacePassedMismatch ns gr) else None)
                  (rr_NamespacePassed req) of
              Some e \<Rightarrow> Some e
            | None \<Rightarrow>
                first_error (\<lambda>ns. if route_IsNamespaceMatch ir ns gr then Some (NamespaceDeniedMatch ns gr) else None)
                  (rr_NamespaceDenied req)))"

definition check_request :: "internal_route \<Rightarrow> resource_request \<Rightarrow> load_error option" where
  \<comment> \<open>the callback passed to \<open>rangeRequests\<close>\<close>
  "check_request ir req =
     (case check_userAgents ir req of Some e \<Rightarrow> Some e | None \<Rightarrow> check_resource ir req)"

definition checkLoadable ::
    "internal_spec option \<Rightarrow> internal_spec \<Rightarrow> requests_pack \<Rightarrow> load_error option option" where
  \<comment> \<open>\<^const>\<open>None\<close> is the panic on a nil \<^verbatim>\<open>Meta\<close> or \<^verbatim>\<open>Route\<close>\<close>
  "checkLoadable currentSpec expected pack =
     (case currentSpec of
        None \<Rightarrow> Some None
      | Some current \<Rightarrow>
          (case (ps_Meta (is_spec current), ps_Meta (is_spec expected)) of
             (Some cm, Some em) \<Rightarrow>
               if sm_VAppName cm \<noteq> sm_VAppName em
               then Some (Some (VAppNameChanged (sm_VAppName cm) (sm_VAppName em)))
               else (case (ps_Route (is_spec current), ps_Route (is_spec expected)) of
                  (Some cr, Some er) \<Rightarrow>
                    if rt_Subset cr \<noteq> rt_Subset er
                    then Some (Some (SubsetChanged (rt_Subset cr) (rt_Subset er)))
                    else if sm_Hash cm = sm_Hash em then Some None
                    else (case is_routeInternal expected of
                            None \<Rightarrow> Panic
                          | Some ir \<Rightarrow> Some (rangeRequests (check_request ir) pack))
                | _ \<Rightarrow> Panic)
           | _ \<Rightarrow> Panic))"

definition UpdateSpec_expect :: "codec \<Rightarrow> json_selector \<Rightarrow> proxy_spec_v1 \<Rightarrow> spec_manager \<Rightarrow> spec_manager option" where
  [spec_manager_defs]:
  "UpdateSpec_expect cd ju spec sm =
     (case writeExpectedSpec cd spec (smg_storage sm) of
        None \<Rightarrow> Panic
      | Some s \<Rightarrow> Some (sm\<lparr>smg_expectedSpec := Some (ConvertProtoSpecToInternal ju spec), smg_storage := s\<rparr>))"

definition UpdateSpec_load :: "codec \<Rightarrow> spec_manager \<Rightarrow> spec_manager option" where
  \<comment> \<open>the part under the write lock\<close>
  [spec_manager_defs]:
  "UpdateSpec_load cd sm =
     (case smg_expectedSpec sm of
        None \<Rightarrow> Panic
      | Some expected \<Rightarrow>
          (case checkLoadable (smg_currentSpec sm) expected (smg_requestsStore sm) of
             None \<Rightarrow> Panic
           | Some (Some e) \<Rightarrow> Some (sm\<lparr>smg_unloadReason := Some e\<rparr>)
           | Some None \<Rightarrow>
               (case writeCurrentSpec cd (is_spec expected) (smg_storage sm) of
                  None \<Rightarrow> Panic
                | Some s \<Rightarrow> Some (sm\<lparr>smg_currentSpec := Some expected, smg_storage := s\<rparr>))))"

definition UpdateSpec :: "codec \<Rightarrow> json_selector \<Rightarrow> proxy_spec_v1 \<Rightarrow> spec_manager \<Rightarrow> spec_manager option" where
  "UpdateSpec cd ju spec sm = do { sm1 \<leftarrow> UpdateSpec_expect cd ju spec sm; UpdateSpec_load cd sm1 }"

definition UpdateLeaderElection :: "leader_election_state_v1 option \<Rightarrow> spec_manager \<Rightarrow> spec_manager" where
  "UpdateLeaderElection le sm =
     sm\<lparr>smg_leaderElectionState := le,
        smg_reportTriggers := (if smg_leaderElectionState sm \<noteq> le
                               then Suc (smg_reportTriggers sm) else smg_reportTriggers sm)\<rparr>"

definition GetStatus :: "(load_error \<Rightarrow> string) \<Rightarrow> spec_manager \<Rightarrow> proxy_status_v1 option option" where
  \<comment> \<open>\<open>fmt\<close> is the text of an error. The outer \<^const>\<open>None\<close> is a nil dereference, the inner
      one the nil status\<close>
  "GetStatus fmt sm =
     (case smg_currentSpec sm of
        None \<Rightarrow> Some None
      | Some current \<Rightarrow>
          do { cr \<leftarrow> ps_Route (is_spec current);
               expected \<leftarrow> smg_expectedSpec sm;
               em \<leftarrow> ps_Meta (is_spec expected);
               cm \<leftarrow> ps_Meta (is_spec current);
               Some (Some
                 \<lparr>st_SelfInfo = None,
                  st_MetaState = Some
                    \<lparr>ms_Subset = rt_Subset cr, ms_ExpectedHash = sm_Hash em, ms_CurrentHash = sm_Hash cm,
                     ms_HashUnloadReason = (case smg_unloadReason sm of None \<Rightarrow> '''' | Some e \<Rightarrow> fmt e)\<rparr>,
                  st_LeaderElectionState = smg_leaderElectionState sm\<rparr>) })"

definition ReleaseSpec :: "codec \<Rightarrow> resource_request option \<Rightarrow> spec_manager \<Rightarrow> spec_manager option" where
  \<comment> \<open>its effect on the history; the read lock is part of the transition system below\<close>
  "ReleaseSpec cd req sm =
     map_option (\<lambda>(pack, s). sm\<lparr>smg_requestsStore := pack, smg_storage := s\<rparr>)
       (requestsStore_add cd req (smg_requestsStore sm, smg_storage sm))"

definition newSpecManager :: "codec \<Rightarrow> json_selector \<Rightarrow> storage \<Rightarrow> spec_manager option" where
  \<comment> \<open>an error of \<open>loadData\<close> is ignored: both specs are nil then\<close>
  "newSpecManager cd ju s =
     (let (res, pack) = loadData cd s newRequestsStore;
          (expectedSpec, currentSpec) = (case res of Inl _ \<Rightarrow> (None, None) | Inr p \<Rightarrow> p);
          sm = \<lparr>smg_storage = s, smg_expectedSpec = None,
                smg_currentSpec = map_option (ConvertProtoSpecToInternal ju) currentSpec,
                smg_unloadReason = None, smg_requestsStore = pack,
                smg_leaderElectionState = None, smg_reportTriggers = 0\<rparr>
      in case expectedSpec of None \<Rightarrow> Some sm | Some spec \<Rightarrow> UpdateSpec cd ju spec sm)"

subsection \<open>What \<open>checkLoadable\<close> decides\<close>

definition decisions_agree :: "internal_route \<Rightarrow> resource_request \<Rightarrow> bool" where
  \<comment> \<open>the recorded decisions on user agents and namespaces are those of the route\<close>
  "decisions_agree ir r \<longleftrightarrow>
     (\<forall>ua\<in>set_option (rr_UserAgentPassed r). route_IsUserAgentMatch ir ua) \<and>
     (\<forall>ua\<in>set_option (rr_UserAgentDenied r). \<not> route_IsUserAgentMatch ir ua) \<and>
     (\<not> gr_Empty (rr_GR r) \<longrightarrow>
        (\<forall>ns\<in>set (rr_NamespacePassed r). route_IsNamespaceMatch ir ns (rr_GR r)) \<and>
        (\<forall>ns\<in>set (rr_NamespaceDenied r). \<not> route_IsNamespaceMatch ir ns (rr_GR r)))"

definition selector_agrees :: "internal_route \<Rightarrow> resource_request \<Rightarrow> bool" where
  "selector_agrees ir r \<longleftrightarrow>
     gr_Empty (rr_GR r) \<or> selector_opt_deep_equal (getObjectSelector ir (rr_GR r)) (rr_ObjectSelector r)"

definition history_agrees :: "internal_route \<Rightarrow> requests_pack \<Rightarrow> bool" where
  "history_agrees ir pack \<longleftrightarrow>
     (\<forall>ua\<in>set (pk_UserAgentPassed pack). route_IsUserAgentMatch ir ua) \<and>
     (\<forall>ua\<in>set (pk_UserAgentDenied pack). \<not> route_IsUserAgentMatch ir ua) \<and>
     (\<forall>(k, r)\<in>set (pk_RequestsByGR pack). decisions_agree ir r)"

definition selectors_agree :: "internal_route \<Rightarrow> requests_pack \<Rightarrow> bool" where
  "selectors_agree ir pack \<longleftrightarrow> (\<forall>(k, r)\<in>set (pk_RequestsByGR pack). selector_agrees ir r)"

lemma check_request_None_iff: "check_request ir r = None \<longleftrightarrow> decisions_agree ir r \<and> selector_agrees ir r"
proof -
  have ua: "check_userAgents ir r = None \<longleftrightarrow>
      (\<forall>ua\<in>set_option (rr_UserAgentPassed r). route_IsUserAgentMatch ir ua) \<and>
      (\<forall>ua\<in>set_option (rr_UserAgentDenied r). \<not> route_IsUserAgentMatch ir ua)"
    by (simp add: check_userAgents_def split: option.split)
  have split: "check_resource ir r = None \<longleftrightarrow> gr_Empty (rr_GR r) \<or>
      selector_opt_deep_equal (getObjectSelector ir (rr_GR r)) (rr_ObjectSelector r) \<and>
      first_error (\<lambda>ns. if \<not> route_IsNamespaceMatch ir ns (rr_GR r)
         then Some (NamespacePassedMismatch ns (rr_GR r)) else None) (rr_NamespacePassed r) = None \<and>
      first_error (\<lambda>ns. if route_IsNamespaceMatch ir ns (rr_GR r)
         then Some (NamespaceDeniedMatch ns (rr_GR r)) else None) (rr_NamespaceDenied r) = None"
    unfolding check_resource_def Let_def by (simp del: first_error_None_iff split: option.split)
  have "check_request ir r = None \<longleftrightarrow> check_userAgents ir r = None \<and> check_resource ir r = None"
    by (simp add: check_request_def split: option.split)
  then show ?thesis
    unfolding ua split decisions_agree_def selector_agrees_def first_error_None_iff by auto
qed

lemma decisions_agree_userAgent [simp]:
  "decisions_agree ir (userAgentPassed_request ua) = route_IsUserAgentMatch ir ua"
  "decisions_agree ir (userAgentDenied_request ua) = (\<not> route_IsUserAgentMatch ir ua)"
  "selector_agrees ir (userAgentPassed_request ua)" "selector_agrees ir (userAgentDenied_request ua)"
  by (simp_all add: decisions_agree_def selector_agrees_def userAgentPassed_request_def
      userAgentDenied_request_def gr_Empty_def)

lemma rangeRequests_check_None_iff:
  "rangeRequests (check_request ir) pack = None \<longleftrightarrow> history_agrees ir pack \<and> selectors_agree ir pack"
  by (auto simp: rangeRequests_None_iff check_request_None_iff history_agrees_def selectors_agree_def)

lemma convert_spec_sel [simp]:
  "is_spec (ConvertProtoSpecToInternal ju p) = p"
  "is_routeInternal (ConvertProtoSpecToInternal ju p) = map_option (convertRoute ju) (ps_Route p)"
  by (simp_all add: ConvertProtoSpecToInternal_def)

lemma checkLoadable_iff:
  assumes "ps_Meta p = Some cm" "ps_Route p = Some cr" "ps_Meta q = Some em" "ps_Route q = Some er"
  shows "checkLoadable (Some (ConvertProtoSpecToInternal ju p)) (ConvertProtoSpecToInternal ju q) pack = Some None
     \<longleftrightarrow> sm_VAppName cm = sm_VAppName em \<and> rt_Subset cr = rt_Subset er \<and>
       (sm_Hash cm = sm_Hash em \<or>
        history_agrees (convertRoute ju er) pack \<and> selectors_agree (convertRoute ju er) pack)"
  by (simp add: checkLoadable_def assms rangeRequests_check_None_iff)

lemma gr_String_inj:
  assumes "gr_String a = gr_String b" and "CHR ''.'' \<notin> set (gr_Resource a)" and "CHR ''.'' \<notin> set (gr_Resource b)"
  shows "a = b"
proof -
  have "xs @ CHR ''.'' # us \<noteq> ys" if "CHR ''.'' \<notin> set ys" for xs us ys :: string
    using that by auto
  then have "gr_Resource a = gr_Resource b \<and> gr_Group a = gr_Group b"
    using assms first_sep_inj [of "gr_Resource a" "CHR ''.''" "gr_Group a" "gr_Resource b" "gr_Group b"]
    by (auto simp: gr_String_def split: if_splits)
  then show ?thesis by (cases a; cases b) simp
qed

subsection \<open>The manager with concurrent requests\<close>

text \<open>
  The state has the manager, the spec that each request in progress acquired, and whether
  the receiving goroutine is inside \<open>UpdateSpec\<close> between its two parts. The read-write
  lock lets the second part run only when no request holds the spec, and the leader
  election update likewise. \<open>Specs\<close> is the set of specs the server sends. A request that
  holds a spec records decisions that the spec makes.
\<close>

record sm_system =
  sys_manager :: spec_manager
  sys_readers :: "internal_spec option list"
  sys_updating :: bool

definition request_from :: "internal_spec option \<Rightarrow> resource_request option \<Rightarrow> bool" where
  "request_from spec req \<longleftrightarrow>
     (\<forall>r. req = Some r \<longrightarrow>
        (\<exists>sp ir. spec = Some sp \<and> is_routeInternal sp = Some ir \<and> decisions_agree ir r \<and>
           CHR ''.'' \<notin> set (gr_Resource (rr_GR r)) \<and>
           (rr_ObjectSelector r = None \<or> selector_agrees ir r)))"

inductive sm_step :: "codec \<Rightarrow> json_selector \<Rightarrow> proxy_spec_v1 set \<Rightarrow> sm_system \<Rightarrow> sm_system \<Rightarrow> bool"
  for cd ju Specs where
  step_expect:
    "\<not> sys_updating s \<Longrightarrow> spec \<in> Specs \<Longrightarrow> UpdateSpec_expect cd ju spec (sys_manager s) = Some m \<Longrightarrow>
     sm_step cd ju Specs s (s\<lparr>sys_manager := m, sys_updating := True\<rparr>)"
| step_load:
    "sys_updating s \<Longrightarrow> sys_readers s = [] \<Longrightarrow> UpdateSpec_load cd (sys_manager s) = Some m \<Longrightarrow>
     sm_step cd ju Specs s (s\<lparr>sys_manager := m, sys_updating := False\<rparr>)"
| step_acquire:
    "sm_step cd ju Specs s (s\<lparr>sys_readers := smg_currentSpec (sys_manager s) # sys_readers s\<rparr>)"
| step_release:
    "sys_readers s = xs @ spec # ys \<Longrightarrow> request_from spec req \<Longrightarrow>
     ReleaseSpec cd req (sys_manager s) = Some m \<Longrightarrow>
     sm_step cd ju Specs s (s\<lparr>sys_manager := m, sys_readers := xs @ ys\<rparr>)"
| step_leader:
    "sys_readers s = [] \<Longrightarrow>
     sm_step cd ju Specs s (s\<lparr>sys_manager := UpdateLeaderElection le (sys_manager s)\<rparr>)"

definition specs_ok :: "proxy_spec_v1 set \<Rightarrow> bool" where
  \<comment> \<open>every spec has a meta and a route (\<^verbatim>\<open>recv\<close> drops the others), and hashes do not collide\<close>
  "specs_ok Specs \<longleftrightarrow>
     (\<forall>p\<in>Specs. ps_Meta p \<noteq> None \<and> ps_Route p \<noteq> None) \<and>
     (\<forall>p\<in>Specs. \<forall>q\<in>Specs. \<forall>pm qm pr qr.
        ps_Meta p = Some pm \<longrightarrow> ps_Meta q = Some qm \<longrightarrow> ps_Route p = Some pr \<longrightarrow> ps_Route q = Some qr \<longrightarrow>
        sm_Hash pm = sm_Hash qm \<longrightarrow> rt_Subset pr = rt_Subset qr \<longrightarrow> pr = qr)"

definition sm_init :: "codec \<Rightarrow> json_selector \<Rightarrow> proxy_spec_v1 set \<Rightarrow> sm_system \<Rightarrow> bool" where
  \<comment> \<open>a proxy started on an empty volume\<close>
  "sm_init cd ju Specs s \<longleftrightarrow>
     specs_ok Specs \<and> newSpecManager cd ju (newStorage None None None) = Some (sys_manager s) \<and>
     sys_readers s = [] \<and> \<not> sys_updating s"

definition entry_ok :: "internal_route \<Rightarrow> string \<Rightarrow> resource_request \<Rightarrow> bool" where
  "entry_ok ir k r \<longleftrightarrow>
     k = gr_String (rr_GR r) \<and> CHR ''.'' \<notin> set (gr_Resource (rr_GR r)) \<and> decisions_agree ir r \<and>
     (rr_ObjectSelector r = None \<or> selector_agrees ir r)"

definition history_ok :: "internal_route \<Rightarrow> requests_pack \<Rightarrow> bool" where
  "history_ok ir pack \<longleftrightarrow>
     gomap_ok (pk_RequestsByGR pack) \<and>
     (\<forall>ua\<in>set (pk_UserAgentPassed pack). route_IsUserAgentMatch ir ua) \<and>
     (\<forall>ua\<in>set (pk_UserAgentDenied pack). \<not> route_IsUserAgentMatch ir ua) \<and>
     (\<forall>k r. map_of (pk_RequestsByGR pack) k = Some r \<longrightarrow> entry_ok ir k r)"

lemma history_ok_agrees: "history_ok ir pack \<Longrightarrow> history_agrees ir pack"
  by (auto simp: history_ok_def history_agrees_def entry_ok_def gomap_ok_def)

lemma entry_ok_merged:
  assumes "entry_ok ir (gr_String (rr_GR req)) old" and "decisions_agree ir req"
    and "CHR ''.'' \<notin> set (gr_Resource (rr_GR req))"
    and "rr_ObjectSelector req = None \<or> selector_agrees ir req"
    and ua: "rr_UserAgentPassed (merged req old) = rr_UserAgentPassed old"
      "rr_UserAgentDenied (merged req old) = rr_UserAgentDenied old"
  shows "entry_ok ir (gr_String (rr_GR req)) (merged req old)"
proof -
  have "rr_GR old = rr_GR req"
    using assms(1,3) by (auto simp: entry_ok_def intro: gr_String_inj)
  with assms show ?thesis
    by (auto simp: entry_ok_def decisions_agree_def selector_agrees_def)
qed

lemma merged_userAgents:
  "rr_UserAgentPassed (merged req old) = rr_UserAgentPassed old"
  "rr_UserAgentDenied (merged req old) = rr_UserAgentDenied old"
  by (simp_all add: merged_def merge_request_def merge_selector_def merge_passed_def merge_denied_def Let_def)

lemma history_ok_add:
  assumes "history_ok ir pack" and "decisions_agree ir req"
    and "CHR ''.'' \<notin> set (gr_Resource (rr_GR req))"
    and "rr_ObjectSelector req = None \<or> selector_agrees ir req"
  shows "history_ok ir (fst (add_pack req pack))"
proof -
  have "entry_ok ir k r" if "map_of (pk_RequestsByGR (fst (add_pack req pack))) k = Some r" for k r
  proof (cases "records_resource req \<and> k = gr_String (rr_GR req)")
    case True
    with that assms show ?thesis
      by (auto simp: add_pack_sel history_ok_def intro: entry_ok_merged [OF _ _ _ _ merged_userAgents]
          split: option.splits) (simp_all add: entry_ok_def)
  next
    case False
    with that assms(1) show ?thesis by (auto simp: add_pack_sel history_ok_def split: if_splits)
  qed
  with assms(1,2) show ?thesis
    by (auto simp: history_ok_def add_pack_sel add_pack_ok decisions_agree_def)
qed

lemma history_ok_load:
  assumes "history_ok ir pack" and "history_agrees ir' pack" and "selectors_agree ir' pack"
  shows "history_ok ir' pack"
  using assms unfolding history_ok_def history_agrees_def selectors_agree_def entry_ok_def
  by (auto dest!: map_of_SomeD)

definition current_ok :: "json_selector \<Rightarrow> proxy_spec_v1 set \<Rightarrow> internal_spec option \<Rightarrow> requests_pack \<Rightarrow> bool" where
  "current_ok ju Specs cur pack =
     (case cur of
        None \<Rightarrow> pack = newRequestsStore
      | Some c \<Rightarrow> \<exists>p\<in>Specs. c = ConvertProtoSpecToInternal ju p \<and>
          (\<forall>r. ps_Route p = Some r \<longrightarrow> history_ok (convertRoute ju r) pack))"

definition sm_inv :: "json_selector \<Rightarrow> proxy_spec_v1 set \<Rightarrow> sm_system \<Rightarrow> bool" where
  "sm_inv ju Specs s \<longleftrightarrow>
     specs_ok Specs \<and>
     (\<forall>x\<in>set (sys_readers s). x = smg_currentSpec (sys_manager s)) \<and>
     current_ok ju Specs (smg_currentSpec (sys_manager s)) (smg_requestsStore (sys_manager s)) \<and>
     (\<forall>e. smg_expectedSpec (sys_manager s) = Some e \<longrightarrow> (\<exists>p\<in>Specs. e = ConvertProtoSpecToInternal ju p))"

lemma history_ok_new [simp]: "history_ok ir newRequestsStore"
  by (simp add: history_ok_def newRequestsStore_def gomap_ok_def)

lemma sm_inv_load:
  assumes "sm_inv ju Specs s" and "sys_readers s = []" and "UpdateSpec_load cd (sys_manager s) = Some m"
  shows "sm_inv ju Specs (s\<lparr>sys_manager := m, sys_updating := False\<rparr>)"
proof -
  let ?m = "sys_manager s" and ?pack = "smg_requestsStore (sys_manager s)"
  obtain e where e: "smg_expectedSpec ?m = Some e"
    using assms(3) by (auto simp: UpdateSpec_load_def split: option.splits)
  then obtain q where q: "q \<in> Specs" "e = ConvertProtoSpecToInternal ju q"
    using assms(1) by (auto simp: sm_inv_def)
  have ok: "specs_ok Specs" using assms(1) by (simp add: sm_inv_def)
  then obtain em er where em: "ps_Meta q = Some em" and er: "ps_Route q = Some er"
    using q(1) by (fastforce simp: specs_ok_def)
  show ?thesis
  proof (cases "checkLoadable (smg_currentSpec ?m) e ?pack = Some None")
    case False
    with assms e obtain err where "m = ?m\<lparr>smg_unloadReason := Some err\<rparr>"
      by (auto simp: UpdateSpec_load_def split: option.splits)
    with assms(1,2) show ?thesis by (simp add: sm_inv_def)
  next
    case True
    with assms(3) e obtain st where m: "m = ?m\<lparr>smg_currentSpec := Some e, smg_storage := st\<rparr>"
      by (auto simp: UpdateSpec_load_def split: option.splits)
    have "history_ok (convertRoute ju er) ?pack"
    proof (cases "smg_currentSpec ?m")
      case None
      with assms(1) show ?thesis by (simp add: sm_inv_def current_ok_def)
    next
      case (Some c)
      then obtain p where p: "p \<in> Specs" "c = ConvertProtoSpecToInternal ju p"
        and hist: "\<forall>r. ps_Route p = Some r \<longrightarrow> history_ok (convertRoute ju r) ?pack"
        using assms(1) by (auto simp: sm_inv_def current_ok_def)
      obtain cm cr where cm: "ps_Meta p = Some cm" and cr: "ps_Route p = Some cr"
        using p(1) ok by (fastforce simp: specs_ok_def)
      from True [unfolded Some p(2) q(2) checkLoadable_iff [OF cm cr em er]] show ?thesis
      proof (elim conjE disjE)
        assume "sm_Hash cm = sm_Hash em" "rt_Subset cr = rt_Subset er"
        then have "cr = er" using ok p(1) q(1) cm em cr er unfolding specs_ok_def by blast
        with hist cr show ?thesis by simp
      qed (use hist cr history_ok_load in blast)
    qed
    then show ?thesis
      using assms(1,2) q er e by (auto simp: sm_inv_def current_ok_def m)
  qed
qed

lemma sm_inv_release:
  assumes "sm_inv ju Specs s" and "sys_readers s = xs @ spec # ys" and "request_from spec req"
    and "ReleaseSpec cd req (sys_manager s) = Some m"
  shows "sm_inv ju Specs (s\<lparr>sys_manager := m, sys_readers := xs @ ys\<rparr>)"
proof -
  let ?m = "sys_manager s"
  have m: "smg_requestsStore m =
      (case req of None \<Rightarrow> smg_requestsStore ?m | Some r \<Rightarrow> fst (add_pack r (smg_requestsStore ?m)))"
    "smg_currentSpec m = smg_currentSpec ?m" "smg_expectedSpec m = smg_expectedSpec ?m"
    using assms(4)
    by (auto simp: ReleaseSpec_def requestsStore_add_def Let_def case_prod_beta split: option.splits if_splits)
  have spec: "spec = smg_currentSpec ?m" using assms(1,2) by (auto simp: sm_inv_def)
  show ?thesis
  proof (cases req)
    case None
    with assms(1,2) show ?thesis by (simp add: sm_inv_def m)
  next
    case (Some r)
    then obtain c ir where c: "smg_currentSpec ?m = Some c" "is_routeInternal c = Some ir"
      and r: "decisions_agree ir r" "CHR ''.'' \<notin> set (gr_Resource (rr_GR r))"
        "rr_ObjectSelector r = None \<or> selector_agrees ir r"
      using assms(3) spec by (auto simp: request_from_def)
    then show ?thesis
      using assms(1,2) Some history_ok_add [OF _ r]
      by (fastforce simp: sm_inv_def current_ok_def m)
  qed
qed

lemma sm_inv_step:
  assumes "sm_step cd ju Specs s t" and "sm_inv ju Specs s"
  shows "sm_inv ju Specs t"
  using assms
proof cases
  case (step_expect spec m)
  with assms(2) show ?thesis by (auto simp: sm_inv_def UpdateSpec_expect_def split: option.splits)
next
  case (step_load m)
  with assms(2) show ?thesis using sm_inv_load by blast
next
  case (step_release xs spec ys req m)
  with assms(2) show ?thesis using sm_inv_release by blast
qed (auto simp: sm_inv_def UpdateLeaderElection_def split: option.splits)

lemma newSpecManager_empty:
  "newSpecManager cd ju (newStorage None None None) =
     Some \<lparr>smg_storage = newStorage None None None, smg_expectedSpec = None, smg_currentSpec = None,
           smg_unloadReason = None, smg_requestsStore = newRequestsStore,
           smg_leaderElectionState = None, smg_reportTriggers = 0\<rparr>"
  by (simp add: newSpecManager_def newStorage_def loadData_def loadSpec_def Let_def)

lemma sm_inv_init: "sm_init cd ju Specs s \<Longrightarrow> sm_inv ju Specs s"
  by (cases "sys_manager s") (simp add: sm_init_def sm_inv_def current_ok_def newSpecManager_empty)

interpretation sm: inductive_invariant "sm_init cd ju Specs" "sm_step cd ju Specs" "sm_inv ju Specs"
  for cd ju Specs
  by unfold_locales (auto intro: sm_inv_init sm_inv_step)

subsection \<open>Properties\<close>

text \<open>
  A new spec loads over a current one exactly when the application and the subset are
  the same and either the hash is the same or every recorded decision (user agents and
  namespaces passed or denied, object selectors) is the decision of the new spec.
\<close>

theorem checkLoadable_decides:
  assumes "ps_Meta p = Some cm" "ps_Route p = Some cr" "ps_Meta q = Some em" "ps_Route q = Some er"
  shows "checkLoadable (Some (ConvertProtoSpecToInternal ju p)) (ConvertProtoSpecToInternal ju q) pack = Some None
     \<longleftrightarrow> sm_VAppName cm = sm_VAppName em \<and> rt_Subset cr = rt_Subset er \<and>
       (sm_Hash cm = sm_Hash em \<or>
        history_agrees (convertRoute ju er) pack \<and> selectors_agree (convertRoute ju er) pack)"
  by (rule checkLoadable_iff [OF assms])

definition example_meta_spec :: "string \<Rightarrow> proxy_spec_v1" where
  "example_meta_spec h =
     \<lparr>ps_Meta = Some \<lparr>sm_VAppName = ''app'', sm_Hash = h\<rparr>, ps_Route = Some example_public_route, ps_Endpoints = []\<rparr>"

definition example_request :: resource_request where
  "example_request =
     \<lparr>rr_GR = example_gr, rr_ObjectSelector = None, rr_NamespacePassed = [''ns''], rr_NamespaceDenied = [],
      rr_UserAgentPassed = Some ''ua'', rr_UserAgentDenied = None\<rparr>"

definition example_history :: requests_pack where
  "example_history =
     \<lparr>pk_RequestsByGR = [(gr_String example_gr, example_request)], pk_UserAgentPassed = [''ua''],
      pk_UserAgentDenied = []\<rparr>"

lemma example_decisions:
  "decisions_agree (convertRoute example_ju example_public_route) example_request"
  "route_IsUserAgentMatch (convertRoute example_ju example_public_route) ''ua''"
  "route_IsNamespaceMatch (convertRoute example_ju example_public_route) ''ns'' example_gr"
  "selector_agrees (convertRoute example_ju example_public_route) example_request"
  by (simp_all add: decisions_agree_def selector_agrees_def example_request_def convertRoute_def
      convertProtoMatchLimitRuleToInternal_def example_defs containsString_def ResourceAll_def route_defs
      set_insert_all_def)

theorem checkLoadable_decides_witness:
  "checkLoadable (Some (ConvertProtoSpecToInternal example_ju (example_meta_spec ''h1'')))
     (ConvertProtoSpecToInternal example_ju (example_meta_spec ''h2'')) example_history = Some None"
proof -
  have "history_agrees (convertRoute example_ju example_public_route) example_history"
    and "selectors_agree (convertRoute example_ju example_public_route) example_history"
    using example_decisions by (simp_all add: history_agrees_def selectors_agree_def example_history_def)
  then show ?thesis
    using checkLoadable_decides [of "example_meta_spec ''h1''" _ _ "example_meta_spec ''h2''" _ _ example_ju example_history]
    by (simp add: example_meta_spec_def)
qed

text \<open>
  C3. Whatever the interleaving of requests and updates, the decisions in the history are
  those of the spec in force: a user agent or namespace once passed is still passed, and
  one once denied is still denied, until the proxy is restarted. And a request in progress
  holds the spec in force. The server's specs are assumed to have a meta and a route, and
  no two different routes of one subset have the same hash (\<open>specs_ok\<close>, part of the
  initial condition).
\<close>

theorem history_agrees_with_current_spec:
  assumes "reachable (sm_init cd ju Specs) (sm_step cd ju Specs) s"
    and "smg_currentSpec (sys_manager s) = Some c"
    and "pack = smg_requestsStore (sys_manager s)"
  shows "(\<forall>x\<in>set (sys_readers s). x = Some c)
    \<and> (\<forall>ua\<in>set (pk_UserAgentPassed pack). IsUserAgentMatch c ua = Some True)
    \<and> (\<forall>ua\<in>set (pk_UserAgentDenied pack). IsUserAgentMatch c ua = Some False)
    \<and> (\<forall>(k, r)\<in>set (pk_RequestsByGR pack). \<not> gr_Empty (rr_GR r) \<longrightarrow>
        (\<forall>ns\<in>set (rr_NamespacePassed r). IsNamespaceMatch c ns (rr_GR r) = Some True) \<and>
        (\<forall>ns\<in>set (rr_NamespaceDenied r). IsNamespaceMatch c ns (rr_GR r) = Some False))"
proof -
  have inv: "sm_inv ju Specs s" by (rule sm.reachable_inv [OF assms(1)])
  then obtain p where p: "p \<in> Specs" "c = ConvertProtoSpecToInternal ju p" "specs_ok Specs"
    and hist: "\<forall>r. ps_Route p = Some r \<longrightarrow> history_ok (convertRoute ju r) pack"
    and readers: "\<forall>x\<in>set (sys_readers s). x = Some c"
    using assms(2,3) by (auto simp: sm_inv_def current_ok_def)
  then obtain r where r: "ps_Route p = Some r" by (fastforce simp: specs_ok_def)
  with hist have "history_agrees (convertRoute ju r) pack" by (blast intro: history_ok_agrees)
  with readers r p(2) show ?thesis
    by (fastforce simp: history_agrees_def decisions_agree_def IsUserAgentMatch_def IsNamespaceMatch_def)
qed

definition example_codec :: codec where
  "example_codec =
     \<lparr>cd_marshalSpec = (\<lambda>p. ''s'' @ (case ps_Meta p of None \<Rightarrow> '''' | Some m \<Rightarrow> sm_Hash m)),
      cd_unmarshalSpec = (\<lambda>b. case b of [] \<Rightarrow> None | _ # h \<Rightarrow> Some (example_meta_spec h)),
      cd_marshalPack = (\<lambda>_. ''p''),
      cd_unmarshalPack = (\<lambda>_ b. if b = ''p'' then Some example_history else None)\<rparr>"

definition example_start :: spec_manager where
  "example_start =
     \<lparr>smg_storage = newStorage None None None, smg_expectedSpec = None, smg_currentSpec = None,
      smg_unloadReason = None, smg_requestsStore = newRequestsStore,
      smg_leaderElectionState = None, smg_reportTriggers = 0\<rparr>"

definition example_loaded :: spec_manager where
  "example_loaded = the (UpdateSpec example_codec example_ju (example_meta_spec ''h1'') example_start)"

definition example_system :: sm_system where
  \<comment> \<open>a request has recorded its decision and another one is in progress\<close>
  "example_system =
     \<lparr>sys_manager = the (ReleaseSpec example_codec (Some example_request) example_loaded),
      sys_readers = [smg_currentSpec example_loaded], sys_updating = False\<rparr>"

lemmas example_run_simps = example_start_def UpdateSpec_def UpdateSpec_expect_def UpdateSpec_load_def
  writeExpectedSpec_def writeCurrentSpec_def mockFailure_def newStorage_def checkLoadable_def

lemma example_loaded_sel:
  "UpdateSpec example_codec example_ju (example_meta_spec ''h1'') example_start = Some example_loaded"
  "smg_currentSpec example_loaded = Some (ConvertProtoSpecToInternal example_ju (example_meta_spec ''h1''))"
  "smg_requestsStore example_loaded = newRequestsStore"
  "\<not> mockFailure (smg_storage example_loaded)"
  by (simp_all add: example_loaded_def example_run_simps)

lemma example_released:
  "ReleaseSpec example_codec (Some example_request) example_loaded = Some (sys_manager example_system)"
  "pk_RequestsByGR (smg_requestsStore (sys_manager example_system)) = [(gr_String example_gr, example_request)]"
  "smg_currentSpec (sys_manager example_system) = smg_currentSpec example_loaded"
  using example_loaded_sel(3,4)
  by (simp_all add: example_system_def ReleaseSpec_def requestsStore_add_def writeHistoryRequests_def
      add_pack_def add_userAgent_def add_resource_def records_resource_def example_request_def
      newRequestsStore_def set_insert_def Let_def)

lemma example_specs_ok: "specs_ok {example_meta_spec ''h1''}"
  by (auto simp: specs_ok_def example_meta_spec_def)

lemma example_reachable:
  "reachable (sm_init example_codec example_ju {example_meta_spec ''h1''})
     (sm_step example_codec example_ju {example_meta_spec ''h1''}) example_system"
proof -
  let ?Specs = "{example_meta_spec ''h1''}" and ?cur = "smg_currentSpec example_loaded"
  let ?sys = "\<lambda>m rs u. \<lparr>sys_manager = m, sys_readers = rs, sys_updating = u\<rparr>"
  let ?R = "reachable (sm_init example_codec example_ju ?Specs) (sm_step example_codec example_ju ?Specs)"
  have s0: "?R (?sys example_start [] False)"
    by (rule reachable_init) (simp add: sm_init_def example_specs_ok newSpecManager_empty example_start_def)
  obtain m where m: "UpdateSpec_expect example_codec example_ju (example_meta_spec ''h1'') example_start = Some m"
    "UpdateSpec_load example_codec m = Some example_loaded"
    using example_loaded_sel(1) by (auto simp: UpdateSpec_def Option.bind_eq_Some_conv)
  have s1: "sm_step example_codec example_ju ?Specs (?sys example_start [] False) (?sys m [] True)"
    using step_expect [of "?sys example_start [] False" "example_meta_spec ''h1''" ?Specs example_codec example_ju m] m(1) by simp
  have s2: "sm_step example_codec example_ju ?Specs (?sys m [] True) (?sys example_loaded [] False)"
    using step_load [of "?sys m [] True" example_codec example_loaded] m(2) by simp
  have s3: "sm_step example_codec example_ju ?Specs (?sys example_loaded rs False) (?sys example_loaded (?cur # rs) False)" for rs
    using step_acquire [of example_codec example_ju ?Specs "?sys example_loaded rs False"] by simp
  have "CHR ''.'' \<notin> set (gr_Resource (rr_GR example_request))"
    by (simp add: example_request_def example_gr_def)
  then have "request_from ?cur (Some example_request)"
    using example_decisions unfolding request_from_def example_loaded_sel(2)
    by (auto simp: example_meta_spec_def)
  then have s4: "sm_step example_codec example_ju ?Specs (?sys example_loaded [?cur, ?cur] False)
      (?sys (sys_manager example_system) [?cur] False)"
    using step_release [of "?sys example_loaded [?cur, ?cur] False" "[]" ?cur "[?cur]" "Some example_request"
        example_codec "sys_manager example_system"] example_released(1) by simp
  have "?sys (sys_manager example_system) [?cur] False = example_system"
    by (simp only: example_system_def sm_system.select_convs)
  moreover from s0 have "?R (?sys m [] True)" using s1 by (rule reachable_step)
  then have "?R (?sys example_loaded [] False)" using s2 by (rule reachable_step)
  then have "?R (?sys example_loaded [?cur] False)" using s3 by (rule reachable_step)
  then have "?R (?sys example_loaded [?cur, ?cur] False)" using s3 by (rule reachable_step)
  then have "?R (?sys (sys_manager example_system) [?cur] False)" using s4 by (rule reachable_step)
  ultimately show ?thesis by (simp only:)
qed

theorem history_agrees_with_current_spec_witness:
  "IsNamespaceMatch (ConvertProtoSpecToInternal example_ju (example_meta_spec ''h1'')) ''ns'' example_gr = Some True
   \<and> (gr_String example_gr, example_request) \<in> set (pk_RequestsByGR (smg_requestsStore (sys_manager example_system)))
   \<and> sys_readers example_system \<noteq> []"
proof -
  let ?c = "ConvertProtoSpecToInternal example_ju (example_meta_spec ''h1'')"
  have cur: "smg_currentSpec (sys_manager example_system) = Some ?c"
    using example_released(3) example_loaded_sel(2) by simp
  have "\<not> gr_Empty (rr_GR example_request)" "rr_NamespacePassed example_request = [''ns'']"
    "rr_GR example_request = example_gr"
    by (simp_all add: example_request_def example_gr_def gr_Empty_def)
  moreover have "\<forall>(k, r)\<in>set [(gr_String example_gr, example_request)]. \<not> gr_Empty (rr_GR r) \<longrightarrow>
        (\<forall>ns\<in>set (rr_NamespacePassed r). IsNamespaceMatch ?c ns (rr_GR r) = Some True)"
    using history_agrees_with_current_spec [OF example_reachable cur refl] example_released(2) by auto
  ultimately have "IsNamespaceMatch ?c ''ns'' example_gr = Some True" by simp
  moreover have "sys_readers example_system \<noteq> []" by (simp add: example_system_def)
  ultimately show ?thesis using example_released(2) by simp
qed

lemma UpdateSpec_effect:
  assumes "UpdateSpec cd ju spec sm = Some sm'"
  shows "smg_expectedSpec sm' = Some (ConvertProtoSpecToInternal ju spec)
    \<and> smg_requestsStore sm' = smg_requestsStore sm
    \<and> sto_expectedSpecFile (smg_storage sm') = sto_expectedSpecFile (smg_storage sm) @ cd_marshalSpec cd spec
    \<and> (case checkLoadable (smg_currentSpec sm) (ConvertProtoSpecToInternal ju spec) (smg_requestsStore sm) of
         None \<Rightarrow> False
       | Some None \<Rightarrow>
           smg_currentSpec sm' = Some (ConvertProtoSpecToInternal ju spec) \<and> smg_unloadReason sm' = smg_unloadReason sm \<and>
           sto_currentSpecFile (smg_storage sm') = sto_currentSpecFile (smg_storage sm) @ cd_marshalSpec cd spec
       | Some (Some e) \<Rightarrow>
           smg_currentSpec sm' = smg_currentSpec sm \<and> smg_unloadReason sm' = Some e \<and>
           sto_currentSpecFile (smg_storage sm') = sto_currentSpecFile (smg_storage sm))"
  using assms
  by (auto simp: UpdateSpec_def spec_manager_defs writeExpectedSpec_def writeCurrentSpec_def
      split: option.splits if_splits)

text \<open>
  C20. Restart. If each file holds one encoded message and decoding inverts its encoding, a
  restarted proxy comes up with the stored history and expected spec, and its current spec
  is the expected one if that is loadable over the stored current one, else the stored one.
\<close>

theorem restart_restores:
  assumes codec: "\<And>s. s \<in> {e, c} \<Longrightarrow> cd_unmarshalSpec cd (cd_marshalSpec cd s) = Some s \<and> cd_marshalSpec cd s \<noteq> ''''"
    and "cd_unmarshalPack cd newRequestsStore (cd_marshalPack cd pack) = Some pack \<and> cd_marshalPack cd pack \<noteq> ''''"
    and "sto_expectedSpecFile st = cd_marshalSpec cd e" and "sto_currentSpecFile st = cd_marshalSpec cd c"
    and "sto_historyRequestsFile st = cd_marshalPack cd pack" and "\<not> sto_mockFailure st"
    and "ps_Meta e \<noteq> None" "ps_Route e \<noteq> None" "ps_Meta c \<noteq> None" "ps_Route c \<noteq> None"
  shows "\<exists>sm. newSpecManager cd ju st = Some sm \<and> smg_requestsStore sm = pack \<and>
     smg_expectedSpec sm = Some (ConvertProtoSpecToInternal ju e) \<and>
     smg_currentSpec sm = Some (ConvertProtoSpecToInternal ju
       (if checkLoadable (Some (ConvertProtoSpecToInternal ju c)) (ConvertProtoSpecToInternal ju e) pack = Some None
        then e else c))"
proof -
  have load: "loadData cd st newRequestsStore = (Inr (Some e, Some c), pack)"
    using assms(1-5) by (simp add: loadData_def loadSpec_def)
  have nopanic: "checkLoadable (Some (ConvertProtoSpecToInternal ju c)) (ConvertProtoSpecToInternal ju e) pack \<noteq> None"
    using assms(7-10) by (auto simp: checkLoadable_def)
  show ?thesis
    using nopanic assms(6)
    by (auto simp: newSpecManager_def load UpdateSpec_def spec_manager_defs writeExpectedSpec_def
        writeCurrentSpec_def mockFailure_def split: option.splits)
qed

definition example_volume :: storage where
  "example_volume =
     \<lparr>sto_expectedSpecFile = cd_marshalSpec example_codec (example_meta_spec ''h2''),
      sto_currentSpecFile = cd_marshalSpec example_codec (example_meta_spec ''h1''),
      sto_historyRequestsFile = cd_marshalPack example_codec example_history, sto_mockFailure = False\<rparr>"

theorem restart_restores_witness:
  "\<exists>sm. newSpecManager example_codec example_ju example_volume = Some sm \<and> smg_requestsStore sm = example_history \<and>
     smg_expectedSpec sm = Some (ConvertProtoSpecToInternal example_ju (example_meta_spec ''h2''))"
proof -
  have meta: "ps_Meta (example_meta_spec h) \<noteq> None" "ps_Route (example_meta_spec h) \<noteq> None" for h
    by (simp_all add: example_meta_spec_def)
  have codec: "cd_unmarshalSpec example_codec (cd_marshalSpec example_codec s) = Some s
      \<and> cd_marshalSpec example_codec s \<noteq> ''''" if "s = example_meta_spec h" for s h
    using that by (simp add: example_codec_def) (simp add: example_meta_spec_def)
  have pack: "cd_unmarshalPack example_codec newRequestsStore (cd_marshalPack example_codec example_history)
      = Some example_history \<and> cd_marshalPack example_codec example_history \<noteq> ''''"
    by (simp add: example_codec_def)
  have vol: "sto_expectedSpecFile example_volume = cd_marshalSpec example_codec (example_meta_spec ''h2'')"
    "sto_currentSpecFile example_volume = cd_marshalSpec example_codec (example_meta_spec ''h1'')"
    "sto_historyRequestsFile example_volume = cd_marshalPack example_codec example_history"
    "\<not> sto_mockFailure example_volume"
    by (simp_all add: example_volume_def)
  show ?thesis
    using restart_restores [OF _ pack vol meta meta, where ju = example_ju] codec by blast
qed

end
