(* ===== verification/Grpc_Server.thy ===== *)
theory Grpc_Server
  imports Route_Gen
begin

section \<open>The manager's gRPC server and event handlers (\<^verbatim>\<open>grpc_server.go\<close>, \<^verbatim>\<open>virtualapp_event_handler.go\<close>)\<close>

text \<open>
  The manager's process-wide state: the connections of the proxies, cached per pod, the
  hash that each pod is expected to report after a send, the pods it has deleted, and the
  queue of reconcile requests. A stream keeps a pointer to its own connection object for
  its whole life, while the cache may already point to the object of a newer stream of the
  same pod; so connection objects live on a heap and the cache holds addresses.

  A stream is a first message (\<open>RegisterV1_open\<close>), any number of status messages
  (\<open>RegisterV1_recv\<close>), and its end (\<open>RegisterV1_close\<close>). The handlers of pod and
  namespace events decide which VirtualApps to reconcile.
\<close>

record grpc_conn =
  gc_status :: proxy_status_v1
  gc_sendTimes :: nat
  gc_disconnected :: bool

record server_state =
  srv_heap :: "grpc_conn list"
  srv_cached :: "(string, nat) gomap"
  srv_hashExpectation :: "(string, string) gomap"
  srv_deletionExpectation :: goset
  srv_triggers :: "namespaced_name list"

record cluster_reader =
  \<comment> \<open>reads of the API server or its cache\<close>
  cr_getPod :: "namespaced_name \<Rightarrow> api_error + pod"
  cr_getVApp :: "namespaced_name \<Rightarrow> api_error + VirtualApp"
  cr_listVApps :: "api_error + VirtualApp list"
  cr_listPods :: "string \<Rightarrow> string \<Rightarrow> api_error + pod list"
  cr_listNamespaces :: "api_error + namespace list"

subsection \<open>Streams\<close>

datatype grpc_code = Aborted | InvalidArgument | CodeNotFound | Internal | Canceled

definition set_delete :: "goset \<Rightarrow> string \<Rightarrow> goset" where
  "set_delete s x = filter (\<lambda>y. y \<noteq> x) s"

definition newConn :: "string \<Rightarrow> proxy_status_v1 \<Rightarrow> server_state \<Rightarrow> server_state \<times> nat" where
  "newConn uid status st =
     (let addr = length (srv_heap st) in
      (st\<lparr>srv_heap := srv_heap st @ [\<lparr>gc_status = status, gc_sendTimes = 0, gc_disconnected = False\<rparr>],
          srv_cached := AList.update uid addr (srv_cached st),
          srv_hashExpectation := AList.delete uid (srv_hashExpectation st)\<rparr>, addr))"

record grpc_stream =
  \<comment> \<open>the local variables of one call of \<^verbatim>\<open>RegisterV1\<close>\<close>
  str_uid :: string
  str_conn :: nat
  str_event :: namespaced_name

definition RegisterV1_open ::
    "cluster_reader \<Rightarrow> proxy_status_v1 option \<Rightarrow> server_state \<Rightarrow> (grpc_code + grpc_stream) \<times> server_state" where
  \<comment> \<open>\<^const>\<open>None\<close> is an error of the first \<^verbatim>\<open>Recv\<close>\<close>
  "RegisterV1_open cr first st =
     (case first of
        None \<Rightarrow> (Inl Aborted, st)
      | Some pStatus \<Rightarrow>
          (case st_SelfInfo pStatus of
             None \<Rightarrow> (Inl InvalidArgument, st)
           | Some self \<Rightarrow>
               if si_Namespace self = '''' \<or> si_Name self = '''' then (Inl InvalidArgument, st)
               else (case cr_getPod cr (si_Namespace self, si_Name self) of
                  Inl NotFound \<Rightarrow> (Inl CodeNotFound, st)
                | Inl _ \<Rightarrow> (Inl Internal, st)
                | Inr p \<Rightarrow>
                    if \<not> IsPodActive p then (Inl Canceled, st)
                    else (let vAppName = goget (pod_Labels p) VirtualAppInjectedKey in
                      if vAppName = '''' then (Inl InvalidArgument, st)
                      else (let (st1, addr) = newConn (pod_UID p) pStatus st;
                                ev = (si_Namespace self, vAppName)
                            in (Inr \<lparr>str_uid = pod_UID p, str_conn = addr, str_event = ev\<rparr>,
                                st1\<lparr>srv_triggers := srv_triggers st1 @ [ev]\<rparr>))))))"

definition RegisterV1_recv :: "grpc_stream \<Rightarrow> proxy_status_v1 \<Rightarrow> server_state \<Rightarrow> server_state" where
  "RegisterV1_recv str pStatus st =
     (let conn = srv_heap st ! str_conn str;
          statusChanged = (gc_status conn \<noteq> pStatus);
          st1 = st\<lparr>srv_heap := (srv_heap st)[str_conn str := conn\<lparr>gc_status := pStatus\<rparr>]\<rparr>
      in if statusChanged then st1\<lparr>srv_triggers := srv_triggers st1 @ [str_event str]\<rparr> else st1)"

definition RegisterV1_close :: "grpc_stream \<Rightarrow> server_state \<Rightarrow> server_state" where
  \<comment> \<open>after \<^verbatim>\<open>srv.Context().Done()\<close>\<close>
  "RegisterV1_close str st =
     (let conn = srv_heap st ! str_conn str
      in st\<lparr>srv_hashExpectation := AList.delete (str_uid str) (srv_hashExpectation st),
            srv_heap := (srv_heap st)[str_conn str := conn\<lparr>gc_disconnected := True\<rparr>],
            srv_triggers := srv_triggers st @ [str_event str]\<rparr>)"

definition conn_send :: "nat \<Rightarrow> server_state \<Rightarrow> server_state" where
  \<comment> \<open>the bookkeeping of \<^verbatim>\<open>grpcSrvConnection.send\<close>; the message itself is an action of the caller\<close>
  "conn_send addr st =
     st\<lparr>srv_heap := (srv_heap st)[addr := (srv_heap st ! addr)\<lparr>gc_sendTimes := Suc (gc_sendTimes (srv_heap st ! addr))\<rparr>]\<rparr>"

subsection \<open>Pod events\<close>

definition getVAppForPod :: "cluster_reader \<Rightarrow> pod \<Rightarrow> api_error + VirtualApp option" where
  "getVAppForPod cr p =
     (let name = goget (pod_Labels p) VirtualAppInjectedKey in
      if name = '''' then Inr None
      else (case cr_getVApp cr (pod_Namespace p, name) of Inl e \<Rightarrow> Inl e | Inr v \<Rightarrow> Inr (Some v)))"

definition vapp_key :: "VirtualApp \<Rightarrow> namespaced_name" where
  "vapp_key v = (va_Namespace v, va_Name v)"

definition podEvent_Create :: "cluster_reader \<Rightarrow> pod \<Rightarrow> namespaced_name list" where
  "podEvent_Create cr p = (case getVAppForPod cr p of Inr (Some v) \<Rightarrow> [vapp_key v] | _ \<Rightarrow> [])"

definition podEvent_Update :: "cluster_reader \<Rightarrow> pod \<Rightarrow> pod \<Rightarrow> namespaced_name list" where
  "podEvent_Update cr oldPod newPod =
     (case getVAppForPod cr newPod of
        Inr (Some v) \<Rightarrow>
          if pod_DeletionTimestamp newPod \<noteq> None then
            (if pod_DeletionTimestamp oldPod = None
                \<or> length (getRunningContainers oldPod) \<noteq> length (getRunningContainers newPod)
             then [vapp_key v] else [])
          else if determinePodSubset v oldPod \<noteq> determinePodSubset v newPod
               \<or> pod_Phase oldPod \<noteq> pod_Phase newPod \<or> IsPodReady oldPod \<noteq> IsPodReady newPod
          then [vapp_key v] else []
      | _ \<Rightarrow> [])"

definition podEvent_Delete :: "cluster_reader \<Rightarrow> pod \<Rightarrow> server_state \<Rightarrow> server_state \<times> namespaced_name list" where
  "podEvent_Delete cr p st =
     (case getVAppForPod cr p of
        Inr (Some v) \<Rightarrow>
          (st\<lparr>srv_hashExpectation := AList.delete (pod_UID p) (srv_hashExpectation st),
              srv_deletionExpectation := set_delete (srv_deletionExpectation st) (pod_UID p)\<rparr>, [vapp_key v])
      | _ \<Rightarrow> (st, []))"

subsection \<open>Namespace events\<close>

definition getSensitiveVApps :: "cluster_reader \<Rightarrow> VirtualApp list" where
  "getSensitiveVApps cr =
     (case cr_listVApps cr of
        Inl _ \<Rightarrow> []
      | Inr vs \<Rightarrow> filter (\<lambda>v. case va_Route v of
                              None \<Rightarrow> False
                            | Some r \<Rightarrow> \<not> (vr_GlobalLimits r = [] \<and> vr_SubRules r = [])) vs)"

definition nsEvent_Create :: "cluster_reader \<Rightarrow> namespaced_name list" where
  "nsEvent_Create cr = map vapp_key (getSensitiveVApps cr)"

definition limits_differ :: "regexp_compile \<Rightarrow> namespace \<Rightarrow> namespace \<Rightarrow> MatchLimitSelector list \<Rightarrow> bool" where
  "limits_differ rc oldNS newNS limits \<longleftrightarrow>
     list_ex (\<lambda>ms. isNamespaceMatched rc ms oldNS \<noteq> isNamespaceMatched rc ms newNS) limits"

definition nsUpdate_enqueues :: "regexp_compile \<Rightarrow> namespace \<Rightarrow> namespace \<Rightarrow> VirtualApp \<Rightarrow> bool" where
  \<comment> \<open>the body of the loop over the VirtualApps\<close>
  "nsUpdate_enqueues rc oldNS newNS v =
     (case va_Route v of
        None \<Rightarrow> False
      | Some r \<Rightarrow>
          if limits_differ rc oldNS newNS (vr_GlobalLimits r) then True
          else list_ex (\<lambda>sr. limits_differ rc oldNS newNS (sr_Match sr)) (vr_SubRules r))"

definition nsEvent_Update :: "regexp_compile \<Rightarrow> cluster_reader \<Rightarrow> namespace \<Rightarrow> namespace \<Rightarrow> namespaced_name list" where
  "nsEvent_Update rc cr oldNS newNS =
     (if gomap_eq (ns_Labels newNS) (ns_Labels oldNS) then []
      else map vapp_key (filter (nsUpdate_enqueues rc oldNS newNS) (getSensitiveVApps cr)))"

definition nsEvent_Delete :: "cluster_reader \<Rightarrow> namespaced_name list" where
  "nsEvent_Delete cr = map vapp_key (getSensitiveVApps cr)"

subsection \<open>When a namespace event matters\<close>

lemma selector_matches_cong:
  assumes "map_of a = map_of b"
  shows "selector_matches sel a = selector_matches sel b"
proof -
  have "requirement_matches r a = requirement_matches r b" for r
    unfolding requirement_matches_def assms ..
  then show ?thesis by (cases sel) simp_all
qed

lemma isNamespaceMatched_cong:
  assumes "map_of (ns_Labels a) = map_of (ns_Labels b)" and "ns_Name a = ns_Name b"
  shows "isNamespaceMatched rc ms a = isNamespaceMatched rc ms b"
  using selector_matches_cong [OF assms(1)] assms(2)
  by (simp add: isNamespaceMatched_def split: option.split sum.split)

lemma generateMatchLimitRules_replace:
  assumes "ns_Name a = ns_Name b" and "\<forall>ms\<in>set limits. isNamespaceMatched rc ms a = isNamespaceMatched rc ms b"
  shows "generateMatchLimitRules rc dj limits (pre @ a # post) = generateMatchLimitRules rc dj limits (pre @ b # post)"
  using assms(2)
proof (induction limits)
  case (Cons ms limits)
  then have eqs: "map ns_Name (filter (isNamespaceMatched rc ms) (pre @ a # post))
      = map ns_Name (filter (isNamespaceMatched rc ms) (pre @ b # post))"
    "map ns_Name (filter (\<lambda>ns. \<not> isNamespaceMatched rc ms ns) (pre @ a # post))
      = map ns_Name (filter (\<lambda>ns. \<not> isNamespaceMatched rc ms ns) (pre @ b # post))"
    using assms(1) by simp_all
  have IH: "generateMatchLimitRules rc dj limits (pre @ a # post) = generateMatchLimitRules rc dj limits (pre @ b # post)"
    using Cons by simp
  show ?case unfolding generateMatchLimitRules.simps Let_def IH eqs ..
qed simp

lemma rulesMap_ran:
  assumes "map_of (rulesMap v) name = Some limits" and "va_Route v = Some r"
  shows "\<exists>sr\<in>set (vr_SubRules r). limits = sr_Match sr"
proof -
  have "map_of (foldl (\<lambda>m sr. AList.update (sr_Name sr) (sr_Match sr) m) m0 srs) name = Some limits \<Longrightarrow>
      map_of m0 name = Some limits \<or> (\<exists>sr\<in>set srs. limits = sr_Match sr)" for m0 srs
    by (induction srs arbitrary: m0) (fastforce simp: update_conv' split: if_splits)+
  from this [of "[]"] assms show ?thesis by (auto simp: rulesMap_def)
qed

lemma subsetLimits_from_rules:
  assumes "ms \<in> set (subsetLimits (rulesMap v) s)"
  obtains r sr where "va_Route v = Some r" "sr \<in> set (vr_SubRules r)" "ms \<in> set (sr_Match sr)"
proof -
  obtain name limits where "map_of (rulesMap v) name = Some limits" "ms \<in> set limits"
    using assms unfolding subsetLimits_def by (auto split: option.splits dest: sym)
  moreover from this obtain r where "va_Route v = Some r" by (cases "va_Route v") (auto simp: rulesMap_def)
  ultimately show thesis using that rulesMap_ran by blast
qed

definition app_limits :: "VirtualApp \<Rightarrow> MatchLimitSelector set" where
  "app_limits v =
     (case va_Route v of
        None \<Rightarrow> {}
      | Some r \<Rightarrow> set (vr_GlobalLimits r) \<union> (\<Union>sr\<in>set (vr_SubRules r). set (sr_Match sr)))"

lemma generateProtoRoute_replace:
  assumes "ns_Name a = ns_Name b" and "\<forall>ms\<in>app_limits v. isNamespaceMatched rc ms a = isNamespaceMatched rc ms b"
  shows "generateProtoRoute rc dj v (pre @ a # post) = generateProtoRoute rc dj v (pre @ b # post)"
proof -
  have "generateMatchLimitRules rc dj (subsetLimits (rulesMap v) s) (pre @ a # post)
      = generateMatchLimitRules rc dj (subsetLimits (rulesMap v) s) (pre @ b # post)" for s
    using assms by (intro generateMatchLimitRules_replace)
      (auto simp: app_limits_def elim!: subsetLimits_from_rules)
  moreover have "generateMatchLimitRules rc dj (vr_GlobalLimits r) (pre @ a # post)
      = generateMatchLimitRules rc dj (vr_GlobalLimits r) (pre @ b # post)" if "va_Route v = Some r" for r
    using assms that by (intro generateMatchLimitRules_replace) (auto simp: app_limits_def)
  ultimately show ?thesis
    by (simp add: generateProtoRoute_def generateSubsetLimits_eq Let_def split: option.split)
qed

lemma nsUpdate_enqueues_iff:
  "nsUpdate_enqueues rc a b v \<longleftrightarrow> (\<exists>ms\<in>app_limits v. isNamespaceMatched rc ms a \<noteq> isNamespaceMatched rc ms b)"
  by (auto simp: nsUpdate_enqueues_def limits_differ_def app_limits_def list_ex_iff split: option.split)

lemma not_enqueued_same_matches:
  assumes "cr_listVApps cr = Inr vs" and "v \<in> set vs" and "vapp_key v \<notin> set (nsEvent_Update rc cr oldNS newNS)"
    and "ns_Name oldNS = ns_Name newNS" and "gomap_ok (ns_Labels oldNS)" and "gomap_ok (ns_Labels newNS)"
  shows "\<forall>ms\<in>app_limits v. isNamespaceMatched rc ms oldNS = isNamespaceMatched rc ms newNS"
proof (cases "gomap_eq (ns_Labels newNS) (ns_Labels oldNS)")
  case True
  then have "map_of (ns_Labels oldNS) = map_of (ns_Labels newNS)"
    using assms(5,6) by (simp add: gomap_eq_iff)
  then show ?thesis using isNamespaceMatched_cong assms(4) by blast
next
  case False
  show ?thesis
  proof (cases "v \<in> set (getSensitiveVApps cr)")
    case True
    with False assms(3) have "\<not> nsUpdate_enqueues rc oldNS newNS v" by (auto simp: nsEvent_Update_def)
    then show ?thesis by (simp add: nsUpdate_enqueues_iff)
  next
    case False
    with assms(1,2) have "app_limits v = {}"
      by (auto simp: getSensitiveVApps_def app_limits_def split: option.splits)
    then show ?thesis by simp
  qed
qed

text \<open>
  The handler compares labels only. A namespace that starts to terminate keeps its labels,
  so that the update enqueues nothing, although \<^verbatim>\<open>getActiveNamespaces\<close> no longer lists it.
\<close>

lemma terminating_namespace_not_enqueued:
  "gomap_ok (ns_Labels ns) \<Longrightarrow> nsEvent_Update rc cr ns (ns\<lparr>ns_DeletionTimestamp := t\<rparr>) = []"
  by (simp add: nsEvent_Update_def)

subsection \<open>Properties\<close>

lemma RegisterV1_open_Inr:
  assumes "RegisterV1_open cr (Some status) st = (Inr str, st1)"
  shows "str_conn str = length (srv_heap st)"
    and "srv_heap st1 = srv_heap st @ [\<lparr>gc_status = status, gc_sendTimes = 0, gc_disconnected = False\<rparr>]"
    and "srv_cached st1 = AList.update (str_uid str) (str_conn str) (srv_cached st)"
    and "srv_hashExpectation st1 = AList.delete (str_uid str) (srv_hashExpectation st)"
  using assms
  by (auto simp: RegisterV1_open_def newConn_def Let_def split: option.splits sum.splits api_error.splits if_splits)

text \<open>
  C23. Reconnecting. A proxy opens a new stream before the old one of the same pod has been
  torn down, and the manager sends a spec with hash \<open>h\<close> over the new one. Then a status
  message of the old stream does not reach the new connection, and the end of the old
  stream disconnects the old connection only. But the end of the old stream forgets the
  hash that the manager expects from the new one, which was recorded until then.
\<close>

theorem reconnect_keeps_new_connection:
  assumes "RegisterV1_open cr (Some status) st = (Inr new, st1)" and "str_conn old < length (srv_heap st)"
    and "str_uid old = str_uid new"
    and "sent = (conn_send (str_conn new) st1)\<lparr>srv_hashExpectation := AList.update (str_uid new) h (srv_hashExpectation st1)\<rparr>"
    and "told = RegisterV1_recv old status' sent" and "st2 = RegisterV1_close old told"
  shows "map_of (srv_cached st2) (str_uid new) = Some (str_conn new)
    \<and> srv_heap st2 ! str_conn new = \<lparr>gc_status = status, gc_sendTimes = 1, gc_disconnected = False\<rparr>
    \<and> gc_disconnected (srv_heap st2 ! str_conn old)
    \<and> map_of (srv_hashExpectation told) (str_uid new) = Some h
    \<and> map_of (srv_hashExpectation st2) (str_uid new) = None"
  using assms(2,3) RegisterV1_open_Inr [OF assms(1)]
  by (simp add: assms(4-6) RegisterV1_close_def RegisterV1_recv_def conn_send_def Let_def nth_append
      list_update_append update_conv' delete_conv')

definition example_registered_pod :: pod where
  "example_registered_pod =
     \<lparr>pod_Namespace = ''default'', pod_Name = ''app-0'', pod_UID = ''u0'',
      pod_Labels = [(VirtualAppInjectedKey, ''app'')], pod_CreationTimestamp = 0, pod_DeletionTimestamp = None,
      pod_Phase = PodRunning, pod_PodIP = '''', pod_Conditions = [], pod_ContainerStatuses = [],
      pod_Spec = \<lparr>psp_HostNetwork = False, psp_InitContainers = [], psp_Containers = [], psp_Volumes = [],
                  psp_ImagePullSecrets = []\<rparr>\<rparr>"

definition example_registry :: cluster_reader where
  "example_registry =
     \<lparr>cr_getPod = (\<lambda>_. Inr example_registered_pod), cr_getVApp = (\<lambda>_. Inr example_app),
      cr_listVApps = Inr [example_app], cr_listPods = (\<lambda>_ _. Inr []), cr_listNamespaces = Inr []\<rparr>"

definition example_ns :: "string \<Rightarrow> namespace" where
  "example_ns team = \<lparr>ns_Name = ''a'', ns_Labels = [(''team'', team)], ns_DeletionTimestamp = None\<rparr>"

definition example_first_status :: proxy_status_v1 where
  "example_first_status =
     \<lparr>st_SelfInfo = Some \<lparr>si_Namespace = ''default'', si_Name = ''app-0''\<rparr>, st_MetaState = None,
      st_LeaderElectionState = None\<rparr>"

definition example_connected :: "server_state \<times> grpc_stream" where
  \<comment> \<open>a manager to which the pod is connected for the first time\<close>
  "example_connected =
     (let st = \<lparr>srv_heap = [\<lparr>gc_status = example_first_status, gc_sendTimes = 0, gc_disconnected = False\<rparr>],
                srv_cached = [(''u0'', 0)], srv_hashExpectation = [], srv_deletionExpectation = [], srv_triggers = []\<rparr>
      in (st, \<lparr>str_uid = ''u0'', str_conn = 0, str_event = (''default'', ''app'')\<rparr>))"

theorem reconnect_keeps_new_connection_witness:
  "\<exists>new st1. RegisterV1_open example_registry (Some example_first_status) (fst example_connected) = (Inr new, st1)
     \<and> (let sent = (conn_send (str_conn new) st1)\<lparr>srv_hashExpectation := [(''u0'', ''h'')]\<rparr>;
            st2 = RegisterV1_close (snd example_connected)
               (RegisterV1_recv (snd example_connected) example_first_status sent)
        in \<not> gc_disconnected (srv_heap st2 ! str_conn new) \<and> map_of (srv_hashExpectation st2) ''u0'' = None)"
proof -
  obtain new st1 where opn: "RegisterV1_open example_registry (Some example_first_status) (fst example_connected) = (Inr new, st1)"
    and uid: "str_uid new = ''u0''" and none: "srv_hashExpectation st1 = []"
    by (auto simp: RegisterV1_open_def example_first_status_def example_registry_def example_registered_pod_def
        IsPodActive_def goget_def Let_def newConn_def example_connected_def)
  have "str_conn (snd example_connected) < length (srv_heap (fst example_connected))"
    "str_uid (snd example_connected) = str_uid new"
    by (simp_all add: example_connected_def Let_def uid)
  from reconnect_keeps_new_connection [OF opn this refl refl refl, where h = "''h''" and status' = example_first_status] opn uid none
  show ?thesis by (auto simp: Let_def)
qed

end
