(* ===== verification/Server_Reconcile.thy ===== *)
theory Server_Reconcile
  imports Grpc_Server
begin

section \<open>The VirtualApp controller (\<^verbatim>\<open>controllers/server/virtualapp_controller.go\<close>)\<close>

text \<open>
  One reconcile of a VirtualApp: wait until the states of all its pods are settled, compute
  the spec every proxy should have, decide for each connected pod whether to delete it,
  update it or dispatch to it, and carry out the most urgent kind of action only. What the
  controller does to the outside world (pod deletions and messages) is a trace. The
  cluster's answers are the parameter \<open>cr\<close> for reads and \<open>ef\<close> for effects and the clock.

  The lemmas show that unsettled pods block every action, that the four kinds of action
  exclude each other in a fixed order, what a message contains, and that a reconcile whose
  pods already are in the desired state does nothing.
\<close>

record effects =
  ef_deletePod :: "pod \<Rightarrow> api_error option"
  ef_send :: "nat \<Rightarrow> proxy_spec_v1 \<Rightarrow> string option"
  ef_now :: int

record gen_params =
  \<comment> \<open>the parameters of \<open>Route_Gen\<close>\<close>
  gp_rc :: regexp_compile
  gp_dj :: "label_selector \<Rightarrow> string"
  gp_djs :: "proxy_spec_v1 \<Rightarrow> string"
  gp_md5 :: "string \<Rightarrow> nat list"

datatype action = DeletePod pod | SendSpec nat pod proxy_spec_v1

datatype reconcile_error = ApiError api_error | SendError string

record reconcile_result =
  res_requeueAfter :: int
  res_err :: "reconcile_error option"

abbreviation result_ok :: reconcile_result where
  "result_ok \<equiv> \<lparr>res_requeueAfter = 0, res_err = None\<rparr>"

record sync_pod =
  sp_pod :: pod
  sp_conn :: nat
  sp_dispatched :: bool
  sp_status :: proxy_status_v1

definition Minute :: int where
  "Minute = 60000000000"

subsection \<open>Waiting for the pods\<close>

definition hash_unsatisfied :: "server_state \<Rightarrow> pod \<Rightarrow> proxy_status_v1 \<Rightarrow> bool" where
  "hash_unsatisfied st p status =
     (case map_of (srv_hashExpectation st) (pod_UID p) of
        None \<Rightarrow> False
      | Some expectHash \<Rightarrow>
          (case st_MetaState status of None \<Rightarrow> True | Some ms \<Rightarrow> expectHash \<noteq> ms_ExpectedHash ms))"

fun syncPodsLoop ::
    "int \<Rightarrow> server_state \<Rightarrow> pod list \<Rightarrow> pod list \<Rightarrow> sync_pod list
     \<Rightarrow> server_state \<times> (reconcile_result + pod list \<times> sync_pod list)" where
  \<comment> \<open>the first loop of \<^verbatim>\<open>Reconcile\<close>: a left value is an early return\<close>
  "syncPodsLoop now st [] activePods syncPods = (st, Inr (activePods, syncPods))"
| "syncPodsLoop now st (p # ps) activePods syncPods =
     (if \<not> IsPodActive p then
        (if length (getRunningContainers p) > 0 then (st, Inl result_ok)
         else syncPodsLoop now st ps activePods syncPods)
      else if pod_UID p \<in> set (srv_deletionExpectation st) then (st, Inl result_ok)
      else (let activePods' = activePods @ [p] in
        case map_of (srv_cached st) (pod_UID p) of
          None \<Rightarrow>
            if pod_Phase p = PodRunning \<and> IsPodReady p
            then (st, Inl \<lparr>res_requeueAfter = Minute, res_err = None\<rparr>)
            else if pod_Phase p = PodPending \<and> now - pod_CreationTimestamp p < Minute
            then (st, Inl \<lparr>res_requeueAfter = Minute - (now - pod_CreationTimestamp p), res_err = None\<rparr>)
            else syncPodsLoop now st ps activePods' syncPods
        | Some addr \<Rightarrow>
            (let conn = srv_heap st ! addr in
             if gc_disconnected conn then (st, Inl result_ok)
             else if hash_unsatisfied st p (gc_status conn) then (st, Inl result_ok)
             else syncPodsLoop now
                    (st\<lparr>srv_hashExpectation := AList.delete (pod_UID p) (srv_hashExpectation st)\<rparr>) ps activePods'
                    (syncPods @ [\<lparr>sp_pod = p, sp_conn = addr, sp_dispatched = (gc_sendTimes conn > 0),
                                  sp_status = gc_status conn\<rparr>]))))"

subsection \<open>Deciding\<close>

datatype decision = Dispatch | UpdateProto | DeleteLeader | DeleteNonLeader | Nothing_to_do

definition isLeader :: "proxy_status_v1 \<Rightarrow> bool" where
  "isLeader status = (case st_LeaderElectionState status of None \<Rightarrow> False | Some le \<Rightarrow> le_IsLeader le)"

definition decide :: "string \<Rightarrow> VirtualApp \<Rightarrow> sync_pod \<Rightarrow> decision" where
  \<comment> \<open>the body of the second loop; \<open>hash\<close> is the hash of the new spec\<close>
  "decide hash vApp sp =
     (let sub = determinePodSubset vApp (sp_pod sp);
          del = (if isLeader (sp_status sp) then DeleteLeader else DeleteNonLeader)
      in case st_MetaState (sp_status sp) of
           None \<Rightarrow> Dispatch
         | Some ms \<Rightarrow>
             if ms_Subset ms \<noteq> sub then del
             else if ms_ExpectedHash ms \<noteq> ms_CurrentHash ms then del
             else if hash \<noteq> ms_ExpectedHash ms then UpdateProto
             else if \<not> sp_dispatched sp then Dispatch
             else Nothing_to_do)"

definition newSpec :: "VirtualApp \<Rightarrow> string \<Rightarrow> route_v1 \<Rightarrow> endpoint_v1 list \<Rightarrow> sync_pod \<Rightarrow> proxy_spec_v1" where
  "newSpec vApp hash protoRoute protoEndpoints sp =
     \<lparr>ps_Meta = Some \<lparr>sm_VAppName = va_Name vApp, sm_Hash = hash\<rparr>,
      ps_Route = Some \<lparr>rt_Subset = determinePodSubset vApp (sp_pod sp),
                       rt_GlobalLimits = rt_GlobalLimits protoRoute,
                       rt_SubsetLimits = rt_SubsetLimits protoRoute,
                       rt_SubsetPublicResources = rt_SubsetPublicResources protoRoute,
                       rt_SubsetDefaultOnlyUserAgents = rt_SubsetDefaultOnlyUserAgents protoRoute\<rparr>,
      ps_Endpoints = protoEndpoints\<rparr>"

subsection \<open>Acting\<close>

fun deletePods ::
    "effects \<Rightarrow> sync_pod list \<Rightarrow> reconcile_error option \<Rightarrow> server_state
     \<Rightarrow> server_state \<times> reconcile_error option \<times> action list" where
  \<comment> \<open>each iteration overwrites \<^verbatim>\<open>err\<close>, so the last one is returned\<close>
  "deletePods ef [] err st = (st, err, [])"
| "deletePods ef (sp # sps) err st =
     (let p = sp_pod sp;
          (err', st') =
            (case ef_deletePod ef p of
               Some e \<Rightarrow> (Some (ApiError e), st)
             | None \<Rightarrow> (None, st\<lparr>srv_deletionExpectation := set_insert (srv_deletionExpectation st) (pod_UID p)\<rparr>));
          (st'', err'', acts) = deletePods ef sps err' st'
      in (st'', err'', DeletePod p # acts))"

fun sendSpecs ::
    "effects \<Rightarrow> (sync_pod \<Rightarrow> proxy_spec_v1) \<Rightarrow> string \<Rightarrow> sync_pod list \<Rightarrow> reconcile_error option \<Rightarrow> server_state
     \<Rightarrow> server_state \<times> reconcile_error option \<times> action list" where
  "sendSpecs ef mk hash [] err st = (st, err, [])"
| "sendSpecs ef mk hash (sp # sps) err st =
     (let spec = mk sp;
          st1 = conn_send (sp_conn sp) st;
          (err', st') =
            (case ef_send ef (sp_conn sp) spec of
               Some e \<Rightarrow> (Some (SendError e), st1)
             | None \<Rightarrow> (None, st1\<lparr>srv_hashExpectation :=
                                AList.update (pod_UID (sp_pod sp)) hash (srv_hashExpectation st1)\<rparr>));
          (st'', err'', acts) = sendSpecs ef mk hash sps err' st'
      in (st'', err'', SendSpec (sp_conn sp) (sp_pod sp) spec # acts))"

definition act ::
    "effects \<Rightarrow> (sync_pod \<Rightarrow> decision) \<Rightarrow> (sync_pod \<Rightarrow> proxy_spec_v1) \<Rightarrow> string \<Rightarrow> sync_pod list \<Rightarrow> server_state
     \<Rightarrow> server_state \<times> reconcile_result \<times> action list" where
  "act ef dec mk hash syncPods st =
     (let podsProtoToDispatch = filter (\<lambda>sp. dec sp = Dispatch) syncPods;
          podsProtoToUpdate = filter (\<lambda>sp. dec sp = UpdateProto) syncPods;
          leaderPodsToDelete = filter (\<lambda>sp. dec sp = DeleteLeader) syncPods;
          nonLeaderPodsToDelete = filter (\<lambda>sp. dec sp = DeleteNonLeader) syncPods;
          podsToDelete = (if length nonLeaderPodsToDelete = 0 then leaderPodsToDelete else nonLeaderPodsToDelete)
      in if length podsProtoToDispatch = 0 \<and> length podsProtoToUpdate = 0
            \<and> length leaderPodsToDelete = 0 \<and> length nonLeaderPodsToDelete = 0
         then (st, result_ok, [])
         else if length podsToDelete > 0 then
           (case deletePods ef podsToDelete None st of
              (st', err, acts) \<Rightarrow> (st', \<lparr>res_requeueAfter = 0, res_err = err\<rparr>, acts))
         else if length podsProtoToUpdate > 0 then
           (case sendSpecs ef mk hash podsProtoToUpdate None st of
              (st', err, acts) \<Rightarrow> (st', \<lparr>res_requeueAfter = 0, res_err = err\<rparr>, acts))
         else
           (case sendSpecs ef mk hash podsProtoToDispatch None st of
              (st', err, acts) \<Rightarrow> (st', \<lparr>res_requeueAfter = 0, res_err = err\<rparr>, acts)))"

subsection \<open>Reconcile\<close>

definition getPodsForVApp :: "cluster_reader \<Rightarrow> VirtualApp \<Rightarrow> api_error + pod list" where
  "getPodsForVApp cr vApp =
     (case cr_listPods cr (va_Namespace vApp) (va_Name vApp) of
        Inl e \<Rightarrow> Inl e
      | Inr ps \<Rightarrow> Inr (sort_key pod_Name ps))"

definition getActiveNamespaces :: "cluster_reader \<Rightarrow> api_error + namespace list" where
  "getActiveNamespaces cr =
     (case cr_listNamespaces cr of
        Inl e \<Rightarrow> Inl e
      | Inr nss \<Rightarrow> Inr (sort_key ns_Name (filter (\<lambda>n. ns_DeletionTimestamp n = None) nss)))"

definition error_result :: "api_error \<Rightarrow> reconcile_result" where
  "error_result e = \<lparr>res_requeueAfter = 0, res_err = Some (ApiError e)\<rparr>"

definition Reconcile ::
    "gen_params \<Rightarrow> cluster_reader \<Rightarrow> effects \<Rightarrow> namespaced_name \<Rightarrow> server_state
     \<Rightarrow> server_state \<times> reconcile_result \<times> action list" where
  "Reconcile gp cr ef req st =
     (case cr_getVApp cr req of
        Inl NotFound \<Rightarrow> (st, result_ok, [])
      | Inl e \<Rightarrow> (st, error_result e, [])
      | Inr vApp \<Rightarrow>
          (case getPodsForVApp cr vApp of
             Inl e \<Rightarrow> (st, error_result e, [])
           | Inr allPods \<Rightarrow>
               (case syncPodsLoop (ef_now ef) st allPods [] [] of
                  (st1, Inl r) \<Rightarrow> (st1, r, [])
                | (st1, Inr (activePods, syncPods)) \<Rightarrow>
                    (case getActiveNamespaces cr of
                       Inl e \<Rightarrow> (st1, error_result e, [])
                     | Inr namespaces \<Rightarrow>
                         (let protoRoute = generateProtoRoute (gp_rc gp) (gp_dj gp) vApp namespaces;
                              protoEndpoints = generateProtoEndpoints vApp activePods;
                              hash = calculateSpecHash (gp_djs gp) (gp_md5 gp)
                                \<lparr>ps_Meta = None, ps_Route = Some protoRoute, ps_Endpoints = protoEndpoints\<rparr>
                          in act ef (decide hash vApp) (newSpec vApp hash protoRoute protoEndpoints) hash
                               syncPods st1)))))"

subsection \<open>Settled pods\<close>

definition pod_settled :: "int \<Rightarrow> server_state \<Rightarrow> pod \<Rightarrow> bool" where
  "pod_settled now st p \<longleftrightarrow>
     (if \<not> IsPodActive p then getRunningContainers p = []
      else pod_UID p \<notin> set (srv_deletionExpectation st) \<and>
        (case map_of (srv_cached st) (pod_UID p) of
           None \<Rightarrow> \<not> (pod_Phase p = PodRunning \<and> IsPodReady p) \<and>
                   \<not> (pod_Phase p = PodPending \<and> now - pod_CreationTimestamp p < Minute)
         | Some addr \<Rightarrow> \<not> gc_disconnected (srv_heap st ! addr) \<and>
                        \<not> hash_unsatisfied st p (gc_status (srv_heap st ! addr))))"

definition sync_of :: "server_state \<Rightarrow> pod \<Rightarrow> sync_pod option" where
  "sync_of st p =
     (if IsPodActive p then
        map_option (\<lambda>addr. \<lparr>sp_pod = p, sp_conn = addr, sp_dispatched = (gc_sendTimes (srv_heap st ! addr) > 0),
                            sp_status = gc_status (srv_heap st ! addr)\<rparr>) (map_of (srv_cached st) (pod_UID p))
      else None)"

definition forget :: "server_state \<Rightarrow> pod \<Rightarrow> server_state" where
  "forget st p = st\<lparr>srv_hashExpectation := AList.delete (pod_UID p) (srv_hashExpectation st)\<rparr>"

lemma sync_of_forget [simp]: "sync_of (forget st p) q = sync_of st q"
  by (simp add: sync_of_def forget_def)

lemma forget_settled:
  assumes "pod_settled now st p" and "pod_settled now (forget st p) q" and "IsPodActive p"
  shows "pod_settled now st q"
proof (cases "pod_UID p = pod_UID q")
  case True
  with assms show ?thesis
    by (auto simp: pod_settled_def forget_def hash_unsatisfied_def split: option.splits if_splits)
next
  case False
  then show ?thesis using assms(2)
    by (auto simp: pod_settled_def forget_def hash_unsatisfied_def delete_conv' split: option.splits if_splits)
qed

lemma settled_forget: "pod_settled now st q \<Longrightarrow> pod_settled now (forget st p) q"
  by (auto simp: pod_settled_def forget_def hash_unsatisfied_def delete_conv' split: option.splits if_splits)

lemma syncPodsLoop_Cons:
  "syncPodsLoop now st (p # ps) A S =
     (if \<not> pod_settled now st p then
        (st, Inl (if IsPodActive p \<and> pod_UID p \<notin> set (srv_deletionExpectation st) \<and> map_of (srv_cached st) (pod_UID p) = None
                  then \<lparr>res_requeueAfter = (if pod_Phase p = PodRunning \<and> IsPodReady p then Minute
                          else Minute - (now - pod_CreationTimestamp p)), res_err = None\<rparr>
                  else result_ok))
      else case sync_of st p of
             Some sp \<Rightarrow> syncPodsLoop now (forget st p) ps (A @ [p]) (S @ [sp])
           | None \<Rightarrow> syncPodsLoop now st ps (if IsPodActive p then A @ [p] else A) S)"
  by (auto simp: pod_settled_def sync_of_def forget_def Let_def split: option.split)

declare syncPodsLoop.simps(2) [simp del]

lemma syncPodsLoop_Inr:
  "syncPodsLoop now st ps A S = (st', Inr (A', S')) \<Longrightarrow>
     (\<forall>p\<in>set ps. pod_settled now st p) \<and> A' = A @ filter IsPodActive ps \<and>
     S' = S @ List.map_filter (sync_of st) ps"
proof (induction ps arbitrary: st A S)
  case Nil
  then show ?case by (simp add: List.map_filter_def)
next
  case (Cons p ps)
  then have settled: "pod_settled now st p" by (auto simp: syncPodsLoop_Cons split: if_splits)
  show ?case
  proof (cases "sync_of st p")
    case None
    with settled Cons.prems
    have "syncPodsLoop now st ps (if IsPodActive p then A @ [p] else A) S = (st', Inr (A', S'))"
      by (simp add: syncPodsLoop_Cons)
    from Cons.IH [OF this] show ?thesis
      using settled None by (simp add: List.map_filter_def)
  next
    case (Some sp)
    then have active: "IsPodActive p" by (simp add: sync_of_def split: if_splits)
    from Some settled Cons.prems
    have "syncPodsLoop now (forget st p) ps (A @ [p]) (S @ [sp]) = (st', Inr (A', S'))"
      by (simp add: syncPodsLoop_Cons)
    from Cons.IH [OF this] show ?thesis
      using settled active Some forget_settled [OF settled _ active]
      by (auto simp: List.map_filter_def)
  qed
qed

lemma syncPodsLoop_settled:
  "\<forall>p\<in>set ps. pod_settled now st p \<Longrightarrow> \<exists>st' A' S'. syncPodsLoop now st ps A S = (st', Inr (A', S'))"
proof (induction ps arbitrary: st A S)
  case (Cons p ps)
  show ?case
    using Cons.prems Cons.IH [of st] Cons.IH [of "forget st p"]
    by (auto simp: syncPodsLoop_Cons settled_forget split: option.split)
qed simp

lemma syncPodsLoop_state:
  "syncPodsLoop now st ps A S = (st', r) \<Longrightarrow>
     srv_heap st' = srv_heap st \<and> srv_cached st' = srv_cached st \<and>
     srv_deletionExpectation st' = srv_deletionExpectation st \<and> srv_triggers st' = srv_triggers st"
proof (induction ps arbitrary: st A S)
  case (Cons p ps)
  then show ?case
    by (fastforce simp: syncPodsLoop_Cons forget_def split: if_splits option.splits)
qed simp

subsection \<open>What the phases do\<close>

lemma deletePods_trace: "snd (snd (deletePods ef sps err st)) = map (DeletePod \<circ> sp_pod) sps"
  by (induction sps arbitrary: err st) (simp_all add: Let_def case_prod_beta)

lemma sendSpecs_trace:
  "snd (snd (sendSpecs ef mk hash sps err st)) = map (\<lambda>sp. SendSpec (sp_conn sp) (sp_pod sp) (mk sp)) sps"
  by (induction sps arbitrary: err st) (simp_all add: Let_def case_prod_beta)

lemma sendSpecs_expectation:
  "map_of (srv_hashExpectation (fst (sendSpecs ef mk hash sps err st))) uid =
     (if \<exists>sp\<in>set sps. pod_UID (sp_pod sp) = uid \<and> ef_send ef (sp_conn sp) (mk sp) = None
      then Some hash else map_of (srv_hashExpectation st) uid)"
  by (induction sps arbitrary: err st)
    (auto simp: Let_def case_prod_beta conn_send_def update_conv' split: option.splits)

definition phase :: "(sync_pod \<Rightarrow> decision) \<Rightarrow> sync_pod list \<Rightarrow> decision" where
  \<comment> \<open>the most urgent kind of action that some pod needs\<close>
  "phase dec sps =
     (if DeleteNonLeader \<in> dec ` set sps then DeleteNonLeader
      else if DeleteLeader \<in> dec ` set sps then DeleteLeader
      else if UpdateProto \<in> dec ` set sps then UpdateProto
      else if Dispatch \<in> dec ` set sps then Dispatch
      else Nothing_to_do)"

definition action_of :: "decision \<Rightarrow> (sync_pod \<Rightarrow> proxy_spec_v1) \<Rightarrow> sync_pod \<Rightarrow> action" where
  "action_of d mk sp =
     (if d \<in> {DeleteLeader, DeleteNonLeader} then DeletePod (sp_pod sp)
      else SendSpec (sp_conn sp) (sp_pod sp) (mk sp))"

lemma filter_eq_Nil_iff: "filter (\<lambda>sp. dec sp = d) sps = [] \<longleftrightarrow> d \<notin> dec ` set sps"
  by (auto simp: filter_empty_conv)

lemma act_trace:
  "snd (snd (act ef dec mk hash sps st)) =
     (if phase dec sps = Nothing_to_do then []
      else map (action_of (phase dec sps) mk) (filter (\<lambda>sp. dec sp = phase dec sps) sps))"
  by (simp add: act_def Let_def case_prod_beta filter_eq_Nil_iff deletePods_trace sendSpecs_trace phase_def
      action_of_def comp_def)

lemma act_expectation:
  assumes "SendSpec a p spec \<in> set (snd (snd (act ef dec mk hash sps st)))" and "ef_send ef a spec = None"
  shows "map_of (srv_hashExpectation (fst (act ef dec mk hash sps st))) (pod_UID p) = Some hash"
proof -
  let ?d = "phase dec sps" and ?sel = "filter (\<lambda>sp. dec sp = phase dec sps) sps"
  from assms(1) obtain sp where sp: "sp \<in> set ?sel" "a = sp_conn sp" "p = sp_pod sp" "spec = mk sp"
    and d: "?d = UpdateProto \<or> ?d = Dispatch"
    by (cases ?d) (auto simp: act_trace action_of_def split: if_splits)
  have "fst (act ef dec mk hash sps st) = fst (sendSpecs ef mk hash ?sel None st)"
    using d by (auto simp: act_def Let_def case_prod_beta filter_eq_Nil_iff phase_def split: if_splits)
  with sp assms(2) show ?thesis by (auto simp: sendSpecs_expectation)
qed

subsection \<open>A reconcile that acts\<close>

definition spec_hash :: "gen_params \<Rightarrow> VirtualApp \<Rightarrow> namespace list \<Rightarrow> pod list \<Rightarrow> string" where
  "spec_hash gp vApp nss ps =
     calculateSpecHash (gp_djs gp) (gp_md5 gp)
       \<lparr>ps_Meta = None, ps_Route = Some (generateProtoRoute (gp_rc gp) (gp_dj gp) vApp nss),
        ps_Endpoints = generateProtoEndpoints vApp (filter IsPodActive ps)\<rparr>"

definition pod_spec_for :: "gen_params \<Rightarrow> VirtualApp \<Rightarrow> namespace list \<Rightarrow> pod list \<Rightarrow> pod \<Rightarrow> proxy_spec_v1" where
  \<comment> \<open>the spec that a pod of the application should have\<close>
  "pod_spec_for gp vApp nss ps p =
     \<lparr>ps_Meta = Some \<lparr>sm_VAppName = va_Name vApp, sm_Hash = spec_hash gp vApp nss ps\<rparr>,
      ps_Route = Some ((generateProtoRoute (gp_rc gp) (gp_dj gp) vApp nss)\<lparr>rt_Subset := determinePodSubset vApp p\<rparr>),
      ps_Endpoints = generateProtoEndpoints vApp (filter IsPodActive ps)\<rparr>"

lemma newSpec_eq: "newSpec vApp h r es sp =
    \<lparr>ps_Meta = Some \<lparr>sm_VAppName = va_Name vApp, sm_Hash = h\<rparr>,
     ps_Route = Some (r\<lparr>rt_Subset := determinePodSubset vApp (sp_pod sp)\<rparr>), ps_Endpoints = es\<rparr>"
  by (simp add: newSpec_def)

lemma Reconcile_acts:
  assumes "cr_getVApp cr req = Inr vApp" and "getPodsForVApp cr vApp = Inr ps" and "getActiveNamespaces cr = Inr nss"
    and "snd (snd (Reconcile gp cr ef req st)) \<noteq> []"
  obtains st1 where "\<forall>p\<in>set ps. pod_settled (ef_now ef) st p"
    "Reconcile gp cr ef req st =
       act ef (decide (spec_hash gp vApp nss ps) vApp) (pod_spec_for gp vApp nss ps \<circ> sp_pod)
         (spec_hash gp vApp nss ps) (List.map_filter (sync_of st) ps) st1"
proof -
  obtain st1 x where loop: "syncPodsLoop (ef_now ef) st ps [] [] = (st1, x)" by fastforce
  with assms obtain A S where x: "x = Inr (A, S)"
    by (cases x) (auto simp: Reconcile_def)
  from syncPodsLoop_Inr [OF loop [unfolded x]]
  have *: "\<forall>p\<in>set ps. pod_settled (ef_now ef) st p" "A = filter IsPodActive ps" "S = List.map_filter (sync_of st) ps"
    by auto
  have mk: "newSpec vApp (spec_hash gp vApp nss ps) (generateProtoRoute (gp_rc gp) (gp_dj gp) vApp nss)
      (generateProtoEndpoints vApp (filter IsPodActive ps)) = pod_spec_for gp vApp nss ps \<circ> sp_pod"
    by (simp add: fun_eq_iff newSpec_eq pod_spec_for_def)
  have "Reconcile gp cr ef req st =
       act ef (decide (spec_hash gp vApp nss ps) vApp) (pod_spec_for gp vApp nss ps \<circ> sp_pod)
         (spec_hash gp vApp nss ps) (List.map_filter (sync_of st) ps) st1"
    using assms(1-3) loop * mk [unfolded spec_hash_def]
    by (simp add: Reconcile_def x Let_def spec_hash_def)
  with *(1) show thesis by (rule that)
qed

lemma Reconcile_acts_inputs:
  assumes "snd (snd (Reconcile gp cr ef req st)) \<noteq> []"
  obtains vApp ps nss where "cr_getVApp cr req = Inr vApp" "getPodsForVApp cr vApp = Inr ps"
    "getActiveNamespaces cr = Inr nss"
proof -
  obtain vApp where v: "cr_getVApp cr req = Inr vApp"
    using assms by (auto simp: Reconcile_def split: sum.splits api_error.splits)
  obtain ps where ps: "getPodsForVApp cr vApp = Inr ps"
    using assms by (auto simp: Reconcile_def v split: sum.splits)
  obtain nss where "getActiveNamespaces cr = Inr nss"
    using assms by (auto simp: Reconcile_def v ps split: sum.splits prod.splits)
  with v ps show thesis by (rule that)
qed

lemma in_map_filter: "y \<in> set (List.map_filter f xs) \<longleftrightarrow> (\<exists>x\<in>set xs. f x = Some y)"
  by (auto simp: List.map_filter_def image_iff)

lemma sync_of_SomeD:
  "sync_of st p = Some sp \<Longrightarrow> IsPodActive p \<and> map_of (srv_cached st) (pod_UID p) = Some (sp_conn sp) \<and>
     sp_pod sp = p \<and> (sp_dispatched sp \<longleftrightarrow> gc_sendTimes (srv_heap st ! sp_conn sp) > 0) \<and>
     sp_status sp = gc_status (srv_heap st ! sp_conn sp)"
  by (auto simp: sync_of_def split: if_splits)

lemma getPodsForVApp_set:
  "getPodsForVApp cr vApp = Inr ps \<longleftrightarrow> (\<exists>qs. cr_listPods cr (va_Namespace vApp) (va_Name vApp) = Inr qs \<and> ps = sort_key pod_Name qs)"
  by (auto simp: getPodsForVApp_def split: sum.splits)

lemma reconcile_waits:
  assumes "snd (snd (Reconcile gp cr ef req st)) \<noteq> []" and "cr_getVApp cr req = Inr vApp"
    and "cr_listPods cr (va_Namespace vApp) (va_Name vApp) = Inr ps" and "p \<in> set ps"
  shows "pod_settled (ef_now ef) st p"
proof -
  have pods: "getPodsForVApp cr vApp = Inr (sort_key pod_Name ps)" by (simp add: getPodsForVApp_def assms(3))
  obtain nss where "getActiveNamespaces cr = Inr nss"
    using Reconcile_acts_inputs [OF assms(1)] by metis
  from Reconcile_acts [OF assms(2) pods this assms(1)] assms(4) show ?thesis by (metis set_sort)
qed

definition needs_deletion :: "VirtualApp \<Rightarrow> server_state \<Rightarrow> pod \<Rightarrow> bool" where
  \<comment> \<open>the proxy reports another subset than its pod has, or could not load the expected spec\<close>
  "needs_deletion vApp st p \<longleftrightarrow>
     IsPodActive p \<and>
     (\<exists>addr ms. map_of (srv_cached st) (pod_UID p) = Some addr \<and>
        st_MetaState (gc_status (srv_heap st ! addr)) = Some ms \<and>
        (ms_Subset ms \<noteq> determinePodSubset vApp p \<or> ms_ExpectedHash ms \<noteq> ms_CurrentHash ms))"

definition pod_is_leader :: "server_state \<Rightarrow> pod \<Rightarrow> bool" where
  "pod_is_leader st p \<longleftrightarrow>
     (\<exists>addr. map_of (srv_cached st) (pod_UID p) = Some addr \<and> isLeader (gc_status (srv_heap st ! addr)))"

lemma decide_delete:
  assumes "sync_of st p = Some sp"
  shows "decide h vApp sp = DeleteLeader \<longleftrightarrow> needs_deletion vApp st p \<and> pod_is_leader st p"
    and "decide h vApp sp = DeleteNonLeader \<longleftrightarrow> needs_deletion vApp st p \<and> \<not> pod_is_leader st p"
  using assms
  by (auto simp: sync_of_def decide_def needs_deletion_def pod_is_leader_def Let_def split: option.splits if_splits)

subsection \<open>Properties\<close>

text \<open>
  No action on unsettled state. If a reconcile deletes a pod or sends a spec, then every
  pod listed for the application is settled: an inactive pod has no running containers; an
  active one is not already deleted by the controller; if it has no connection it is
  neither ready nor freshly pending; if it has one, that is alive and the proxy has
  reported the hash that was last sent to it.
\<close>

theorem reconcile_waits_for_settled_pods:
  assumes "snd (snd (Reconcile gp cr ef req st)) \<noteq> []" and "cr_getVApp cr req = Inr vApp"
    and "cr_listPods cr (va_Namespace vApp) (va_Name vApp) = Inr ps" and "p \<in> set ps"
  shows "pod_settled (ef_now ef) st p"
  by (rule reconcile_waits [OF assms])

text \<open>
  C21. Deletion comes first, and leaders last. A pod is deleted only if its proxy reports a
  wrong subset or could not load the expected spec. A reconcile that deletes a pod sends
  nothing, and one that deletes a leader has no other non-leader to delete.
\<close>

theorem reconcile_deletes_first:
  assumes "DeletePod p \<in> set (snd (snd (Reconcile gp cr ef req st)))"
    and "cr_getVApp cr req = Inr vApp" and "cr_listPods cr (va_Namespace vApp) (va_Name vApp) = Inr ps"
  shows "p \<in> set ps \<and> needs_deletion vApp st p
    \<and> (\<forall>a q spec. SendSpec a q spec \<notin> set (snd (snd (Reconcile gp cr ef req st))))
    \<and> (pod_is_leader st p \<longrightarrow> (\<forall>q\<in>set ps. needs_deletion vApp st q \<longrightarrow> pod_is_leader st q))"
proof -
  let ?acts = "snd (snd (Reconcile gp cr ef req st))" and ?qs = "sort_key pod_Name ps"
  let ?sps = "List.map_filter (sync_of st) ?qs"
  have ne: "?acts \<noteq> []" using assms(1) by auto
  have pods: "getPodsForVApp cr vApp = Inr ?qs" by (simp add: getPodsForVApp_def assms(3))
  obtain nss where nss: "getActiveNamespaces cr = Inr nss"
    using Reconcile_acts_inputs [OF ne] by metis
  let ?h = "spec_hash gp vApp nss ?qs"
  obtain st1 where R: "Reconcile gp cr ef req st =
      act ef (decide ?h vApp) (pod_spec_for gp vApp nss ?qs \<circ> sp_pod) ?h ?sps st1"
    using Reconcile_acts [OF assms(2) pods nss ne] by metis
  let ?d = "phase (decide ?h vApp) ?sps"
  from assms(1) obtain sp where sp: "sp \<in> set ?sps" "decide ?h vApp sp = ?d" "p = sp_pod sp"
    and d: "?d = DeleteLeader \<or> ?d = DeleteNonLeader"
    by (auto simp: R act_trace action_of_def split: if_splits)
  then have p: "p \<in> set ps" "sync_of st p = Some sp" by (auto simp: in_map_filter dest: sync_of_SomeD)
  have "pod_is_leader st q" if q: "pod_is_leader st p" "q \<in> set ps" "needs_deletion vApp st q" for q
  proof (rule ccontr)
    assume "\<not> pod_is_leader st q"
    moreover obtain sq where sq: "sync_of st q = Some sq" using q(3) by (auto simp: needs_deletion_def sync_of_def)
    ultimately have "decide ?h vApp sq = DeleteNonLeader" using q(3) by (simp add: decide_delete)
    moreover have "sq \<in> set ?sps" using sq q(2) by (auto simp: in_map_filter)
    ultimately have "?d = DeleteNonLeader" unfolding phase_def by (metis image_eqI)
    with sp(2) q(1) p(2) show False by (simp add: decide_delete)
  qed
  moreover have "needs_deletion vApp st p" using sp(2) d p(2) by (auto simp: decide_delete)
  moreover have "SendSpec a q spec \<notin> set ?acts" for a q spec
    using d by (auto simp: R act_trace action_of_def)
  ultimately show ?thesis using p(1) by blast
qed

text \<open>
  What is sent. Every spec sent by a reconcile goes to the cached connection of an active
  pod of the application. It is the pod's spec: the generated route with the subset that
  the pod's labels determine, the endpoints, and the hash, which is the same for all pods
  of the application. It is sent only when no pod of the application has to be deleted.
\<close>

theorem reconcile_sends_pod_specs:
  assumes "SendSpec a p spec \<in> set (snd (snd (Reconcile gp cr ef req st)))"
    and "cr_getVApp cr req = Inr vApp" and "cr_listPods cr (va_Namespace vApp) (va_Name vApp) = Inr ps"
    and "getActiveNamespaces cr = Inr nss"
  shows "p \<in> set ps \<and> IsPodActive p \<and> map_of (srv_cached st) (pod_UID p) = Some a
    \<and> spec = pod_spec_for gp vApp nss (sort_key pod_Name ps) p
    \<and> (\<forall>q\<in>set ps. \<not> needs_deletion vApp st q)"
proof -
  let ?acts = "snd (snd (Reconcile gp cr ef req st))" and ?qs = "sort_key pod_Name ps"
  let ?sps = "List.map_filter (sync_of st) ?qs" and ?h = "spec_hash gp vApp nss (sort_key pod_Name ps)"
  have ne: "?acts \<noteq> []" using assms(1) by auto
  have pods: "getPodsForVApp cr vApp = Inr ?qs" by (simp add: getPodsForVApp_def assms(3))
  obtain st1 where R: "Reconcile gp cr ef req st =
      act ef (decide ?h vApp) (pod_spec_for gp vApp nss ?qs \<circ> sp_pod) ?h ?sps st1"
    using Reconcile_acts [OF assms(2) pods assms(4) ne] by metis
  let ?d = "phase (decide ?h vApp) ?sps"
  from assms(1) obtain sp where sp: "sp \<in> set ?sps" "p = sp_pod sp" "a = sp_conn sp"
    "spec = pod_spec_for gp vApp nss ?qs (sp_pod sp)" and d: "?d \<noteq> DeleteLeader" "?d \<noteq> DeleteNonLeader"
    by (auto simp: R act_trace action_of_def split: if_splits)
  have none: "decide ?h vApp sq \<noteq> DeleteLeader" "decide ?h vApp sq \<noteq> DeleteNonLeader" if "sq \<in> set ?sps" for sq
    using d that unfolding phase_def by (metis image_eqI)+
  have "\<not> needs_deletion vApp st q" if q: "q \<in> set ps" for q
  proof
    assume del: "needs_deletion vApp st q"
    then obtain sq where sq: "sync_of st q = Some sq" by (auto simp: needs_deletion_def sync_of_def)
    with q have "sq \<in> set ?sps" by (auto simp: in_map_filter)
    from none [OF this] del sq show False by (simp add: decide_delete)
  qed
  with sp show ?thesis by (auto simp: in_map_filter dest!: sync_of_SomeD)
qed

subsection \<open>Between two reconciles\<close>

lemma deletePods_state:
  "srv_hashExpectation (fst (deletePods ef sps err st)) = srv_hashExpectation st"
  "srv_cached (fst (deletePods ef sps err st)) = srv_cached st"
  by (induction sps arbitrary: err st) (auto simp: Let_def case_prod_beta split: option.split)

lemma sendSpecs_cached: "srv_cached (fst (sendSpecs ef mk hash sps err st)) = srv_cached st"
  by (induction sps arbitrary: err st) (auto simp: Let_def case_prod_beta conn_send_def split: option.split)

lemma act_cached: "srv_cached (fst (act ef dec mk hash sps st)) = srv_cached st"
  by (simp add: act_def Let_def case_prod_beta deletePods_state sendSpecs_cached)

lemma act_other:
  assumes "\<forall>sp\<in>set sps. pod_UID (sp_pod sp) \<noteq> uid"
  shows "map_of (srv_hashExpectation (fst (act ef dec mk hash sps st))) uid = map_of (srv_hashExpectation st) uid"
  using assms by (auto simp: act_def Let_def case_prod_beta deletePods_state sendSpecs_expectation)

definition unreported :: "string \<Rightarrow> string \<Rightarrow> server_state \<Rightarrow> bool" where
  \<comment> \<open>the status held for the pod does not name the hash\<close>
  "unreported uid h st \<longleftrightarrow>
     (\<forall>a ms. map_of (srv_cached st) uid = Some a \<longrightarrow> st_MetaState (gc_status (srv_heap st ! a)) = Some ms
        \<longrightarrow> ms_ExpectedHash ms \<noteq> h)"

definition awaits :: "string \<Rightarrow> string \<Rightarrow> server_state \<Rightarrow> bool" where
  "awaits uid h st \<longleftrightarrow>
     map_of (srv_hashExpectation st) uid = Some h \<and> map_of (srv_cached st) uid \<noteq> None"

lemma awaited_not_settled:
  "\<lbrakk>awaits uid h st; unreported uid h st; pod_UID p = uid; IsPodActive p\<rbrakk> \<Longrightarrow> \<not> pod_settled now st p"
  by (auto simp: awaits_def unreported_def pod_settled_def hash_unsatisfied_def split: option.splits)

lemma syncPodsLoop_awaits:
  "syncPodsLoop now st ps A S = (st', r) \<Longrightarrow> awaits uid h st \<Longrightarrow> unreported uid h st \<Longrightarrow> awaits uid h st'"
proof (induction ps arbitrary: st A S)
  case (Cons p ps)
  show ?case
  proof (cases "pod_settled now st p")
    case False
    with Cons.prems show ?thesis by (simp add: syncPodsLoop_Cons)
  next
    case settled: True
    show ?thesis
    proof (cases "sync_of st p")
      case None
      with settled Cons.prems(1)
      have "syncPodsLoop now st ps (if IsPodActive p then A @ [p] else A) S = (st', r)"
        by (simp add: syncPodsLoop_Cons)
      from Cons.IH [OF this Cons.prems(2,3)] show ?thesis .
    next
      case (Some sp)
      with settled Cons.prems(1) have loop: "syncPodsLoop now (forget st p) ps (A @ [p]) (S @ [sp]) = (st', r)"
        by (simp add: syncPodsLoop_Cons)
      have "pod_UID p \<noteq> uid"
        using awaited_not_settled [OF Cons.prems(2,3)] settled sync_of_SomeD [OF Some] by blast
      with Cons.prems(2,3) have "awaits uid h (forget st p)" "unreported uid h (forget st p)"
        by (simp_all add: awaits_def unreported_def forget_def delete_conv')
      from Cons.IH [OF loop this] show ?thesis .
    qed
  qed
qed simp

lemma Reconcile_cached: "srv_cached (fst (Reconcile gp cr ef req st)) = srv_cached st"
  using syncPodsLoop_state
  by (auto simp: Reconcile_def Let_def act_cached split: sum.split api_error.split prod.split)

lemma Reconcile_awaits:
  assumes "awaits uid h st" and "unreported uid h st"
  shows "awaits uid h (fst (Reconcile gp cr ef req st))"
proof -
  have loop: "awaits uid h st1" if "syncPodsLoop now st ps [] [] = (st1, r)" for now ps st1 r
    using syncPodsLoop_awaits [OF that assms] .
  have "awaits uid h (fst (act ef dec mk hash sps st1))"
    if l: "syncPodsLoop now st ps [] [] = (st1, Inr (A, sps))" for now ps A sps st1 dec mk hash
  proof -
    have "pod_UID (sp_pod sp) \<noteq> uid" if "sp \<in> set sps" for sp
      using that syncPodsLoop_Inr [OF l] awaited_not_settled [OF assms]
      by (auto simp: in_map_filter dest!: sync_of_SomeD)
    with loop [OF l] show ?thesis by (simp add: awaits_def act_other act_cached)
  qed
  with loop assms(1) show ?thesis
    by (auto simp: Reconcile_def Let_def split: sum.split api_error.split prod.split)
qed

inductive manager_event :: "string \<Rightarrow> server_state \<Rightarrow> server_state \<Rightarrow> bool" for uid where
  \<comment> \<open>everything the manager does, except that no stream of the pod \<open>uid\<close> is opened or closed and
     its deletion is not observed\<close>
  reconciled: "manager_event uid st (fst (Reconcile gp cr ef req st))"
| reported: "manager_event uid st (RegisterV1_recv str status st)"
| opened: "RegisterV1_open cr (Some status) st = (Inr str, st') \<Longrightarrow> str_uid str \<noteq> uid \<Longrightarrow> manager_event uid st st'"
| closed: "str_uid str \<noteq> uid \<Longrightarrow> manager_event uid st (RegisterV1_close str st)"
| removed: "pod_UID p \<noteq> uid \<Longrightarrow> manager_event uid st (fst (podEvent_Delete cr p st))"

lemma manager_event_awaits:
  assumes "manager_event uid st st'" and "awaits uid h st" and "unreported uid h st"
  shows "awaits uid h st'"
  using assms(1)
proof cases
  case reconciled
  then show ?thesis using Reconcile_awaits [OF assms(2,3)] by simp
next
  case reported
  then show ?thesis using assms(2) by (simp add: awaits_def RegisterV1_recv_def Let_def)
next
  case opened
  then show ?thesis
    using assms(2) RegisterV1_open_Inr [OF opened(1)] by (simp add: awaits_def update_conv' delete_conv')
next
  case closed
  then show ?thesis using assms(2) by (simp add: awaits_def RegisterV1_close_def Let_def delete_conv')
next
  case removed
  then show ?thesis
    using assms(2) by (auto simp: awaits_def podEvent_Delete_def delete_conv' split: sum.split option.split)
qed

inductive unacknowledged :: "string \<Rightarrow> string \<Rightarrow> server_state \<Rightarrow> server_state \<Rightarrow> bool" for uid h st where
  \<comment> \<open>the states after \<open>st\<close> along which the pod has not reported the hash\<close>
  now: "unreported uid h st \<Longrightarrow> unacknowledged uid h st st"
| later: "unacknowledged uid h st st1 \<Longrightarrow> manager_event uid st1 st2 \<Longrightarrow> unreported uid h st2
    \<Longrightarrow> unacknowledged uid h st st2"

lemma unacknowledged_awaits:
  "unacknowledged uid h st st2 \<Longrightarrow> awaits uid h st \<Longrightarrow> awaits uid h st2 \<and> unreported uid h st2"
  by (induction rule: unacknowledged.induct) (auto intro: manager_event_awaits elim: unacknowledged.cases)

text \<open>
  C10. No action before the acknowledgement. A reconcile has sent a spec to a pod. Let any
  number of events follow: reconciles of any application, status messages of any stream,
  streams of other pods that are opened or closed, deletions of other pods, but neither a
  new stream of the pod nor the end of one nor its deletion, all of which erase the hash
  that the manager expects. As long as the status held for the pod does not name the hash of the
  spec, no reconcile that lists the pod as an active one sends or deletes anything.
\<close>

theorem no_action_before_acknowledgement:
  assumes "Reconcile gp cr ef req st = (st', r, acts)" and "SendSpec a p spec \<in> set acts"
    and "ef_send ef a spec = None" and "ps_Meta spec = Some m"
    and "unacknowledged (pod_UID p) (sm_Hash m) st' st2"
    and "cr_getVApp cr2 req2 = Inr vApp2" and "cr_listPods cr2 (va_Namespace vApp2) (va_Name vApp2) = Inr ps2"
    and "p2 \<in> set ps2" and "pod_UID p2 = pod_UID p" and "IsPodActive p2"
  shows "snd (snd (Reconcile gp2 cr2 ef2 req2 st2)) = []"
proof -
  have acts: "acts = snd (snd (Reconcile gp cr ef req st))" and st': "st' = fst (Reconcile gp cr ef req st)"
    using assms(1) by simp_all
  then have ne: "snd (snd (Reconcile gp cr ef req st)) \<noteq> []" using assms(2) by auto
  obtain vApp ps nss where v: "cr_getVApp cr req = Inr vApp" and ps: "getPodsForVApp cr vApp = Inr ps"
    and nss: "getActiveNamespaces cr = Inr nss" by (rule Reconcile_acts_inputs [OF ne])
  obtain st1 where R: "Reconcile gp cr ef req st =
      act ef (decide (spec_hash gp vApp nss ps) vApp) (pod_spec_for gp vApp nss ps \<circ> sp_pod)
        (spec_hash gp vApp nss ps) (List.map_filter (sync_of st) ps) st1"
    using Reconcile_acts [OF v ps nss ne] by metis
  have "map_of (srv_hashExpectation st') (pod_UID p) = Some (spec_hash gp vApp nss ps)"
    unfolding st' R using assms(2,3) by (intro act_expectation) (simp_all add: acts R)
  moreover have "sm_Hash m = spec_hash gp vApp nss ps" "map_of (srv_cached st) (pod_UID p) \<noteq> None"
    using assms(2,4)
    by (auto simp: acts R act_trace action_of_def pod_spec_for_def in_map_filter split: if_splits dest!: sync_of_SomeD)
  ultimately have "awaits (pod_UID p) (sm_Hash m) st'" by (simp add: awaits_def st' Reconcile_cached)
  from unacknowledged_awaits [OF assms(5) this] assms(9,10)
  have "\<not> pod_settled (ef_now ef2) st2 p2" using awaited_not_settled by blast
  with reconcile_waits [OF _ assms(6-8)] show ?thesis by blast
qed

subsection \<open>Namespaces\<close>

lemma insort_key_same:
  "f a = f b \<Longrightarrow> \<exists>us vs. insort_key f a zs = us @ a # vs \<and> insort_key f b zs = us @ b # vs"
proof (induction zs)
  case Nil
  then show ?case by (simp add: exI [of _ "[]"])
next
  case (Cons z zs)
  then obtain us vs where "insort_key f a zs = us @ a # vs" "insort_key f b zs = us @ b # vs" by blast
  then have "f a > f z \<Longrightarrow> ?case" using Cons.prems by (intro exI [of _ "z # us"] exI [of _ vs]) auto
  moreover have "f a \<le> f z \<Longrightarrow> ?case" using Cons.prems by (intro exI [of _ "[]"] exI [of _ "z # zs"]) auto
  ultimately show ?case by fastforce
qed

lemma insort_key_split:
  "f a = f b \<Longrightarrow> \<exists>us' vs'. insort_key f x (us @ a # vs) = us' @ a # vs' \<and> insort_key f x (us @ b # vs) = us' @ b # vs'"
proof (induction us)
  case Nil
  then show ?case
    by (cases "f x \<le> f a")
      (auto intro: exI [of _ "[x]"] exI [of _ "[]"])
next
  case (Cons z us)
  then obtain us' vs' where IH: "insort_key f x (us @ a # vs) = us' @ a # vs'" "insort_key f x (us @ b # vs) = us' @ b # vs'"
    by blast
  show ?case
  proof (cases "f x \<le> f z")
    case True
    then show ?thesis by (intro exI [of _ "x # z # us"] exI [of _ vs]) simp
  next
    case False
    with IH show ?thesis by (intro exI [of _ "z # us'"] exI [of _ vs']) simp
  qed
qed

lemma sort_key_same:
  assumes "f a = f b"
  shows "\<exists>us vs. sort_key f (pre @ a # post) = us @ a # vs \<and> sort_key f (pre @ b # post) = us @ b # vs"
proof (induction pre)
  case Nil
  show ?case using insort_key_same [of f a b, OF assms] by (simp add: sort_key_def)
next
  case (Cons x pre)
  then show ?case using insort_key_split [of f a b, OF assms] by (fastforce simp: sort_key_def)
qed

text \<open>
  C22. Namespace events are not lost. The cluster lists the same namespaces before and after
  one of them is updated, and the update does not change whether it is terminating. If the
  update does not enqueue a VirtualApp, then the route that \<^verbatim>\<open>Reconcile\<close> generates for it from
  the active namespaces is the same before and after. (An update keeps the name of the
  object. For an update that starts the termination this is false, see
  \<open>terminating_namespace_not_enqueued\<close>.)
\<close>

theorem namespace_update_complete:
  assumes "cr_listVApps cr = Inr vs" and "v \<in> set vs" and "vapp_key v \<notin> set (nsEvent_Update rc cr oldNS newNS)"
    and "ns_Name oldNS = ns_Name newNS" and "gomap_ok (ns_Labels oldNS)" and "gomap_ok (ns_Labels newNS)"
    and "ns_DeletionTimestamp oldNS = None \<longleftrightarrow> ns_DeletionTimestamp newNS = None"
    and "cr_listNamespaces before = Inr (pre @ oldNS # post)" and "cr_listNamespaces after = Inr (pre @ newNS # post)"
  shows "\<exists>nss nss'. getActiveNamespaces before = Inr nss \<and> getActiveNamespaces after = Inr nss'
    \<and> generateProtoRoute rc dj v nss = generateProtoRoute rc dj v nss'"
proof -
  let ?active = "filter (\<lambda>n. ns_DeletionTimestamp n = None)"
  obtain us ws where "sort_key ns_Name (?active pre @ oldNS # ?active post) = us @ oldNS # ws"
    "sort_key ns_Name (?active pre @ newNS # ?active post) = us @ newNS # ws"
    using sort_key_same [of ns_Name, OF assms(4)] by blast
  moreover have "generateProtoRoute rc dj v (us @ oldNS # ws) = generateProtoRoute rc dj v (us @ newNS # ws)"
    using generateProtoRoute_replace [OF assms(4) not_enqueued_same_matches [OF assms(1-6)]] .
  ultimately show ?thesis using assms(7) by (simp add: getActiveNamespaces_def assms(8,9))
qed

subsection \<open>Witnesses\<close>

definition example_pod :: pod where
  "example_pod =
     \<lparr>pod_Namespace = ''default'', pod_Name = ''app-0'', pod_UID = ''u0'',
      pod_Labels = [(''version'', ''v2'')], pod_CreationTimestamp = 0, pod_DeletionTimestamp = None,
      pod_Phase = PodRunning, pod_PodIP = ''10.0.0.1'',
      pod_Conditions = [\<lparr>pc_Type = ''Ready'', pc_Status = ConditionTrue\<rparr>], pod_ContainerStatuses = [],
      pod_Spec = \<lparr>psp_HostNetwork = False, psp_InitContainers = [], psp_Containers = [], psp_Volumes = [],
                  psp_ImagePullSecrets = []\<rparr>\<rparr>"

definition example_reader :: cluster_reader where
  "example_reader =
     \<lparr>cr_getPod = (\<lambda>_. Inr example_pod), cr_getVApp = (\<lambda>_. Inr example_app), cr_listVApps = Inr [example_app],
      cr_listPods = (\<lambda>_ _. Inr [example_pod]), cr_listNamespaces = Inr []\<rparr>"

definition example_effects :: effects where
  "example_effects = \<lparr>ef_deletePod = (\<lambda>_. None), ef_send = (\<lambda>_ _. None), ef_now = 0\<rparr>"

definition example_params :: gen_params where
  "example_params = \<lparr>gp_rc = Map.empty, gp_dj = example_json, gp_djs = (\<lambda>_. ''''), gp_md5 = (\<lambda>_. [1])\<rparr>"

definition example_proxy_status :: "meta_state_v1 option \<Rightarrow> proxy_status_v1" where
  "example_proxy_status ms = \<lparr>st_SelfInfo = None, st_MetaState = ms, st_LeaderElectionState = None\<rparr>"

definition example_server :: "meta_state_v1 option \<Rightarrow> server_state" where
  "example_server ms =
     \<lparr>srv_heap = [\<lparr>gc_status = example_proxy_status ms, gc_sendTimes = 0, gc_disconnected = False\<rparr>],
      srv_cached = [(''u0'', 0)], srv_hashExpectation = [], srv_deletionExpectation = [], srv_triggers = []\<rparr>"

definition example_wrong_subset :: meta_state_v1 where
  "example_wrong_subset =
     \<lparr>ms_Subset = ''v1'', ms_ExpectedHash = ''h'', ms_CurrentHash = ''h'', ms_HashUnloadReason = ''''\<rparr>"

definition example_reconcile :: "meta_state_v1 option \<Rightarrow> server_state \<times> reconcile_result \<times> action list" where
  "example_reconcile ms = Reconcile example_params example_reader example_effects (''default'', ''app'') (example_server ms)"

lemma example_reader_sel:
  "cr_getVApp example_reader req = Inr example_app" "cr_listPods example_reader n l = Inr [example_pod]"
  "getPodsForVApp example_reader example_app = Inr [example_pod]" "getActiveNamespaces example_reader = Inr []"
  by (simp_all add: example_reader_def getPodsForVApp_def getActiveNamespaces_def)

lemma example_sync:
  "syncPodsLoop (ef_now example_effects) (example_server ms) [example_pod] [] [] =
     (forget (example_server ms) example_pod,
      Inr ([example_pod], [\<lparr>sp_pod = example_pod, sp_conn = 0, sp_dispatched = False, sp_status = example_proxy_status ms\<rparr>]))"
  by (simp add: syncPodsLoop_Cons pod_settled_def example_pod_def IsPodActive_def example_server_def
      hash_unsatisfied_def sync_of_def)

lemma example_subset: "determinePodSubset example_app example_pod = ''v2''"
  by (simp add: determinePodSubset_def example_app_def example_pod_def goget_def)

lemma example_dispatch:
  "snd (snd (example_reconcile None)) = [SendSpec 0 example_pod (pod_spec_for example_params example_app [] [example_pod] example_pod)]"
  unfolding example_reconcile_def Reconcile_def
  by (simp add: example_reader_sel example_sync act_trace phase_def decide_def Let_def action_of_def
      example_proxy_status_def newSpec_eq pod_spec_for_def spec_hash_def)
    (simp add: example_pod_def IsPodActive_def)

lemma example_delete: "snd (snd (example_reconcile (Some example_wrong_subset))) = [DeletePod example_pod]"
  unfolding example_reconcile_def Reconcile_def
  by (simp add: example_reader_sel example_sync act_trace phase_def decide_def Let_def action_of_def
      example_proxy_status_def example_subset isLeader_def example_wrong_subset_def)

theorem reconcile_waits_for_settled_pods_witness:
  "snd (snd (example_reconcile None)) \<noteq> [] \<and> pod_settled 0 (example_server None) example_pod"
proof -
  have "snd (snd (example_reconcile None)) \<noteq> []" by (simp add: example_dispatch)
  with reconcile_waits_for_settled_pods [OF _ example_reader_sel(1,2), of example_params example_effects
      "(''default'', ''app'')" "example_server None" example_pod]
  show ?thesis by (simp add: example_reconcile_def) (simp add: example_effects_def)
qed

theorem reconcile_deletes_first_witness:
  "snd (snd (example_reconcile (Some example_wrong_subset))) = [DeletePod example_pod]
   \<and> needs_deletion example_app (example_server (Some example_wrong_subset)) example_pod"
  using reconcile_deletes_first [OF _ example_reader_sel(1,2), of example_pod example_params example_effects
      "(''default'', ''app'')" "example_server (Some example_wrong_subset)"] example_delete
  by (simp add: example_reconcile_def)

theorem reconcile_sends_pod_specs_witness:
  "snd (snd (example_reconcile None)) = [SendSpec 0 example_pod (pod_spec_for example_params example_app [] [example_pod] example_pod)]
   \<and> \<not> needs_deletion example_app (example_server None) example_pod"
proof -
  have "SendSpec 0 example_pod (pod_spec_for example_params example_app [] [example_pod] example_pod)
      \<in> set (snd (snd (Reconcile example_params example_reader example_effects (''default'', ''app'') (example_server None))))"
    using example_dispatch by (simp add: example_reconcile_def)
  from reconcile_sends_pod_specs [OF this example_reader_sel(1,2,4)]
  have "\<not> needs_deletion example_app (example_server None) example_pod" by simp
  with example_dispatch show ?thesis by simp
qed

definition example_late_status :: "server_state \<Rightarrow> server_state" where
  \<comment> \<open>a status message that the pod sent before it has received the spec\<close>
  "example_late_status =
     RegisterV1_recv \<lparr>str_uid = ''u0'', str_conn = 0, str_event = (''default'', ''app'')\<rparr> (example_proxy_status None)"

theorem no_action_before_acknowledgement_witness:
  "snd (snd (Reconcile example_params example_reader example_effects (''default'', ''app'')
     (example_late_status (fst (example_reconcile None))))) = []"
proof -
  let ?spec = "pod_spec_for example_params example_app [] [example_pod] example_pod"
  let ?h = "spec_hash example_params example_app [] [example_pod]"
  obtain st' r acts where R: "example_reconcile None = (st', r, acts)" by (cases "example_reconcile None")
  have ef: "ef_send example_effects n s = None" for n s by (simp add: example_effects_def)
  have send: "SendSpec 0 example_pod ?spec \<in> set acts" using example_dispatch R by simp
  have st': "srv_cached st' = [(''u0'', 0)]" "length (srv_heap st') = 1" "st_MetaState (gc_status (srv_heap st' ! 0)) = None"
    using R ef by (auto simp: example_reconcile_def Reconcile_def example_reader_sel example_sync act_def Let_def
        decide_def example_proxy_status_def conn_send_def forget_def)
      (auto simp: example_server_def example_proxy_status_def)
  have meta: "ps_Meta ?spec = Some \<lparr>sm_VAppName = ''app'', sm_Hash = ?h\<rparr>"
    by (simp add: pod_spec_for_def example_app_def)
  have p: "example_pod \<in> set [example_pod]" "IsPodActive example_pod"
    by (simp_all add: example_pod_def IsPodActive_def)
  have "unreported uid h st'" "unreported uid h (example_late_status st')" for uid h
    using st' by (auto simp: unreported_def example_late_status_def RegisterV1_recv_def Let_def example_proxy_status_def)
  then have "unacknowledged uid h st' (example_late_status st')" for uid h
    using unacknowledged.later [OF unacknowledged.now manager_event.reported]
    unfolding example_late_status_def by blast
  from no_action_before_acknowledgement [OF R [unfolded example_reconcile_def] send ef meta this
        example_reader_sel(1,2) p(1) refl p(2)]
  show ?thesis by (simp add: R)
qed

definition example_namespaces :: "string \<Rightarrow> cluster_reader" where
  "example_namespaces team =
     example_registry\<lparr>cr_listNamespaces := Inr [(example_ns ''z'')\<lparr>ns_Name := ''b''\<rparr>, example_ns team]\<rparr>"

theorem namespace_update_complete_witness:
  "nsEvent_Update Map.empty example_registry (example_ns ''x'') (example_ns ''y'') = []
   \<and> (\<exists>nss nss'. getActiveNamespaces (example_namespaces ''x'') = Inr nss
        \<and> getActiveNamespaces (example_namespaces ''y'') = Inr nss'
        \<and> generateProtoRoute Map.empty example_json example_app nss
            = generateProtoRoute Map.empty example_json example_app nss')"
proof
  show quiet: "nsEvent_Update Map.empty example_registry (example_ns ''x'') (example_ns ''y'') = []"
    by (simp add: nsEvent_Update_def getSensitiveVApps_def example_registry_def nsUpdate_enqueues_def
        limits_differ_def example_ns_def gomap_eq_def example_app_simps)
  show "\<exists>nss nss'. getActiveNamespaces (example_namespaces ''x'') = Inr nss
        \<and> getActiveNamespaces (example_namespaces ''y'') = Inr nss'
        \<and> generateProtoRoute Map.empty example_json example_app nss
            = generateProtoRoute Map.empty example_json example_app nss'"
    by (rule namespace_update_complete [of example_registry "[example_app]" _ _ "example_ns ''x''" "example_ns ''y''" _
          "[(example_ns ''z'')\<lparr>ns_Name := ''b''\<rparr>]" "[]"], simp add: example_registry_def, simp, simp add: quiet)
      (simp_all add: example_namespaces_def example_ns_def gomap_ok_def)
qed

end
