(* ===== verification/Webhook_Util.thy ===== *)
theory Webhook_Util
  imports Prelude
begin

section \<open>Settings of the manager's webhook (\<^verbatim>\<open>webhook/util/util.go\<close>) and small utilities\<close>

text \<open>
  The environment of the process is a function from names to values, the empty string for
  an unset variable. \<open>GetPort\<close> ends the process on a malformed number (\<^const>\<open>None\<close>).
  Also here: \<^verbatim>\<open>util/string.go\<close> and the constants the components share.
\<close>

type_synonym environ = "string \<Rightarrow> string"

definition GetHost :: "environ \<Rightarrow> string" where
  "GetHost env = env ''WEBHOOK_HOST''"

definition GetNamespace :: "environ \<Rightarrow> string" where
  "GetNamespace env = (let ns = env ''POD_NAMESPACE'' in if length ns > 0 then ns else ''ctrlmesh-system'')"

definition GetSecretName :: "environ \<Rightarrow> string" where
  "GetSecretName env = (let n = env ''SECRET_NAME'' in if length n > 0 then n else ''ctrlmesh-webhook-certs'')"

definition GetServiceName :: "environ \<Rightarrow> string" where
  "GetServiceName env = (let n = env ''SERVICE_NAME'' in if length n > 0 then n else ''ctrlmesh-webhook-service'')"

definition GetPort :: "environ \<Rightarrow> int option" where
  "GetPort env =
     (let p = env ''WEBHOOK_PORT'' in if length p > 0 then parseInt 32 p else Some 9443)"

definition GetCertDir :: "environ \<Rightarrow> string" where
  "GetCertDir env = (let p = env ''WEBHOOK_CERT_DIR'' in if length p > 0 then p else ''/tmp/kruise-webhook-certs'')"

definition GetCertWriter :: "environ \<Rightarrow> string" where
  "GetCertWriter env = env ''WEBHOOK_CERT_WRITER''"

definition LastReplace :: "string \<Rightarrow> string \<Rightarrow> string \<Rightarrow> string" where
  "LastReplace s old new =
     (case lastIndex s old of
        None \<Rightarrow> s
      | Some idx \<Rightarrow> take idx s @ new @ drop (idx + length old) s)"

lemma LastReplace_spec:
  "(\<nexists>a b. s = a @ old @ b) \<and> LastReplace s old new = s
   \<or> (\<exists>a b. s = a @ old @ b \<and> LastReplace s old new = a @ new @ b)"
proof (cases "lastIndex s old")
  case None
  then have "\<nexists>a b. s = a @ old @ b" using lastIndex_Some_iff [of s old] by auto
  with None show ?thesis by (simp add: LastReplace_def)
next
  case (Some i)
  note i = lastIndex_SomeD [OF Some]
  then have "s = take i s @ old @ drop (i + length old) s"
    by (metis append_take_drop_id drop_drop add.commute)
  with Some show ?thesis by (auto simp: LastReplace_def)
qed

lemma GetPort_roundtrip:
  "env ''WEBHOOK_PORT'' = itoa p \<Longrightarrow> - (2 ^ 31) \<le> p \<Longrightarrow> p < 2 ^ 31 \<Longrightarrow> GetPort env = Some p"
  using parseInt_itoa [of 32 p] by (simp add: GetPort_def Let_def itoa_def)

end
