(* ===== verification/Pod_Injection.thy ===== *)
theory Pod_Injection
  imports Kube_Types Webhook_Util
begin

section \<open>Sidecar injection (\<^verbatim>\<open>webhook/pod\<close>)\<close>

text \<open>
  The mutating webhook of pods: find the VirtualApp that selects the pod, build the init
  and proxy containers, and add them to the pod. Command-line flags are the record
  \<open>inject_flags\<close>. The secrets of the API server are a store \<open>secret_store\<close>; reading one
  can fail for other reasons than absence, and creating one can fail. Whether a resource
  quantity parses is the parameter \<open>qp\<close> (\<^verbatim>\<open>resource.MustParse\<close> panics if it does not).
\<close>

record inject_flags =
  fl_initImage :: string
  fl_proxyImage :: string
  fl_proxyImagePullSecrets :: string
  fl_proxyImagePullPolicy :: string
  fl_proxyResourceCPU :: string
  fl_proxyResourceMemory :: string
  fl_proxyLogLevel :: nat
  fl_proxyExtraEnvs :: string

record secret_store =
  ss_secrets :: "(namespaced_name, string) gomap"
  ss_getFails :: "namespaced_name \<Rightarrow> bool"
  ss_createFails :: "namespaced_name \<Rightarrow> bool"

datatype inject_error =
  ListVAppsError api_error | MultipleVApps string string | UsesHostNetwork | ImagesNotSet
  | MultipleHosts string string | MultiplePorts string string | MultipleCertMounts | NoCertMount

subsection \<open>Helpers\<close>

definition split_kv :: "string \<Rightarrow> env_var option" where
  "split_kv str =
     (case split_on CHR ''='' str of
        [k, v] \<Rightarrow> Some \<lparr>ev_Name = k, ev_Value = v, ev_FieldPath = None\<rparr>
      | _ \<Rightarrow> None)"

definition getExtraEnvs :: "inject_flags \<Rightarrow> env_var list" where
  "getExtraEnvs fl =
     (if length (fl_proxyExtraEnvs fl) = 0 then []
      else List.map_filter split_kv (split_on CHR '';'' (fl_proxyExtraEnvs fl)))"

definition getCertVolumeMounts :: "pod \<Rightarrow> string \<Rightarrow> volume_mount list" where
  "getCertVolumeMounts p certDir =
     concat (map (\<lambda>c. map (\<lambda>m. m\<lparr>vm_ReadOnly := True\<rparr>) (filter (\<lambda>m. vm_MountPath m = certDir) (c_VolumeMounts c)))
       (psp_Containers (pod_Spec p)))"

definition env_update :: "(string \<Rightarrow> string \<Rightarrow> inject_error) \<Rightarrow> env_var option \<Rightarrow> env_var option \<Rightarrow> inject_error + env_var option" where
  \<comment> \<open>the test and assignment that the loop makes for the host and for the port\<close>
  "env_update err cur found =
     (case found of
        None \<Rightarrow> Inr cur
      | Some e \<Rightarrow>
          (case cur of
             None \<Rightarrow> Inr (Some e)
           | Some c \<Rightarrow> if ev_Value c \<noteq> ev_Value e then Inl (err (ev_Value c) (ev_Value e)) else Inr (Some e)))"

fun hostPortLoop :: "env_var option \<Rightarrow> env_var option \<Rightarrow> container list \<Rightarrow> inject_error + (env_var option \<times> env_var option)" where
  "hostPortLoop hostEnv portEnv [] = Inr (hostEnv, portEnv)"
| "hostPortLoop hostEnv portEnv (c # cs) =
     (case env_update MultipleHosts hostEnv (GetContainerEnvVar c ''KUBERNETES_SERVICE_HOST'') of
        Inl e \<Rightarrow> Inl e
      | Inr hostEnv' \<Rightarrow>
          (case env_update MultiplePorts portEnv (GetContainerEnvVar c ''KUBERNETES_SERVICE_PORT'') of
             Inl e \<Rightarrow> Inl e
           | Inr portEnv' \<Rightarrow> hostPortLoop hostEnv' portEnv' cs))"

definition getKubernetesServiceHostPort :: "pod \<Rightarrow> inject_error + env_var list" where
  "getKubernetesServiceHostPort p =
     (case hostPortLoop None None (psp_Containers (pod_Spec p)) of
        Inl e \<Rightarrow> Inl e
      | Inr (hostEnv, portEnv) \<Rightarrow>
          Inr ((case hostEnv of None \<Rightarrow> [] | Some e \<Rightarrow> [e]) @ (case portEnv of None \<Rightarrow> [] | Some e \<Rightarrow> [e])))"

definition getSecret :: "secret_store \<Rightarrow> namespaced_name \<Rightarrow> string option" where
  "getSecret ss key = (if ss_getFails ss key then None else map_of (ss_secrets ss) key)"

definition createSecret :: "secret_store \<Rightarrow> namespaced_name \<Rightarrow> string \<Rightarrow> secret_store option" where
  "createSecret ss key data =
     (if ss_createFails ss key \<or> map_of (ss_secrets ss) key \<noteq> None then None
      else Some (ss\<lparr>ss_secrets := (key, data) # ss_secrets ss\<rparr>))"

definition injectionSecretName :: "string \<Rightarrow> string" where
  "injectionSecretName n = ''ctrlmesh-injection-'' @ n"

definition copySecret :: "string \<Rightarrow> string \<Rightarrow> string \<Rightarrow> secret_store \<Rightarrow> string option \<times> secret_store" where
  \<comment> \<open>one iteration of the loop over the secret names when the pod is in another namespace;
      \<^const>\<open>None\<close> is \<^verbatim>\<open>continue\<close> without a reference\<close>
  "copySecret managerNS podNS n ss =
     (let injected = injectionSecretName n in
      case getSecret ss (podNS, n) of
        Some _ \<Rightarrow> (Some n, ss)
      | None \<Rightarrow>
          (case getSecret ss (podNS, injected) of
             Some _ \<Rightarrow> (Some injected, ss)
           | None \<Rightarrow>
               (case getSecret ss (managerNS, n) of
                  None \<Rightarrow> (None, ss)
                | Some data \<Rightarrow>
                    (case createSecret ss (podNS, injected) data of
                       None \<Rightarrow> (None, ss)
                     | Some ss1 \<Rightarrow> (Some injected, ss1)))))"

fun copySecrets :: "string \<Rightarrow> string \<Rightarrow> string list \<Rightarrow> secret_store \<Rightarrow> string list \<times> secret_store" where
  "copySecrets managerNS podNS [] ss = ([], ss)"
| "copySecrets managerNS podNS (n # ns) ss =
     (let (r, ss1) = copySecret managerNS podNS n ss;
          (refs, ss2) = copySecrets managerNS podNS ns ss1
      in ((case r of None \<Rightarrow> refs | Some x \<Rightarrow> x # refs), ss2))"

definition getImagePullSecrets :: "environ \<Rightarrow> string \<Rightarrow> string list \<Rightarrow> secret_store \<Rightarrow> string list \<times> secret_store" where
  "getImagePullSecrets env podNS secretNames ss =
     (let managerNS = GetNamespace env in
      if managerNS = podNS then (secretNames, ss) else copySecrets managerNS podNS secretNames ss)"

subsection \<open>Choosing the VirtualApp\<close>

fun matchVApp :: "pod \<Rightarrow> VirtualApp option \<Rightarrow> VirtualApp list \<Rightarrow> inject_error + VirtualApp option" where
  "matchVApp p matched [] = Inr matched"
| "matchVApp p matched (v # vs) =
     (case ValidatedLabelSelectorAsSelector (va_Selector v) of
        Inl _ \<Rightarrow> matchVApp p matched vs
      | Inr selector \<Rightarrow>
          if selector_matches selector (pod_Labels p) then
            (case matched of
               Some m \<Rightarrow> Inl (MultipleVApps (va_Name m) (va_Name v))
             | None \<Rightarrow> matchVApp p (Some v) vs)
          else matchVApp p matched vs)"

subsection \<open>The containers\<close>

definition InitContainerName :: string where "InitContainerName = ''ctrlmesh-init''"
definition ProxyContainerName :: string where "ProxyContainerName = ''ctrlmesh-proxy''"

definition volumeMount :: volume_mount where
  "volumeMount = \<lparr>vm_Name = ''ctrlmesh'', vm_ReadOnly = False, vm_MountPath = ''/ctrlmesh'', vm_SubPath = ''''\<rparr>"

definition imagePullPolicy :: "inject_flags \<Rightarrow> string" where
  "imagePullPolicy fl = (if fl_proxyImagePullPolicy fl = ''IfNotPresent'' then ''IfNotPresent'' else ''Always'')"

definition initContainer0 :: "inject_flags \<Rightarrow> container" where
  "initContainer0 fl =
     \<lparr>c_Name = InitContainerName, c_Image = fl_initImage fl, c_ImagePullPolicy = imagePullPolicy fl,
      c_Args = [], c_Env = [], c_PostStart = None, c_ReadinessProbe = None, c_Limits = [], c_Requests = [],
      c_SecurityContext = Some \<lparr>sc_Privileged = Some True, sc_ReadOnlyRootFilesystem = None, sc_RunAsUser = None,
                                sc_CapabilitiesAdd = [''NET_ADMIN'']\<rparr>,
      c_VolumeMounts = [volumeMount]\<rparr>"

definition fieldEnv :: "string \<Rightarrow> string \<Rightarrow> env_var" where
  "fieldEnv name path = \<lparr>ev_Name = name, ev_Value = '''', ev_FieldPath = Some path\<rparr>"

definition proxyContainer0 :: "inject_flags \<Rightarrow> container" where
  "proxyContainer0 fl =
     \<lparr>c_Name = ProxyContainerName, c_Image = fl_proxyImage fl, c_ImagePullPolicy = imagePullPolicy fl,
      c_Args = [''--v='' @ utoa (fl_proxyLogLevel fl)],
      c_Env = [fieldEnv ''POD_NAME'' ''metadata.name'', fieldEnv ''POD_NAMESPACE'' ''metadata.namespace'',
               fieldEnv ''POD_IP'' ''status.podIP''],
      c_PostStart = Some [''/bin/sh'', ''-c'', ''/poststart.sh''],
      c_ReadinessProbe = Some \<lparr>rp_Path = ''/readyz'', rp_Port = 5441, rp_PeriodSeconds = 3\<rparr>,
      c_Limits = [(''cpu'', fl_proxyResourceCPU fl), (''memory'', fl_proxyResourceMemory fl)],
      c_Requests = [(''cpu'', ''0''), (''memory'', ''0'')],
      c_SecurityContext = Some \<lparr>sc_Privileged = Some True, sc_ReadOnlyRootFilesystem = Some True,
                                sc_RunAsUser = Some 1359, sc_CapabilitiesAdd = []\<rparr>,
      c_VolumeMounts = [volumeMount]\<rparr>"

definition add_env :: "env_var list \<Rightarrow> container \<Rightarrow> container" where
  "add_env es c = c\<lparr>c_Env := c_Env c @ es\<rparr>"

definition add_args :: "string list \<Rightarrow> container \<Rightarrow> container" where
  "add_args as c = c\<lparr>c_Args := c_Args c @ as\<rparr>"

definition configure ::
    "VirtualAppConfiguration \<Rightarrow> pod \<Rightarrow> container \<times> container \<Rightarrow> inject_error + container \<times> container" where
  \<comment> \<open>the settings from \<^verbatim>\<open>Spec.Configuration\<close>, on the init and the proxy container\<close>
  "configure cfg p ip =
     (let (ini, prx) = ip;
          prx1 = (case cfg_Controller cfg of
                    None \<Rightarrow> prx | Some name \<Rightarrow> add_args [''--leader-election-name='' @ name] prx);
          override = (\<lambda>prx. case cfg_RestConfigOverrides cfg of
                    Some (Some ua) \<Rightarrow> add_args [''--user-agent-override='' @ ua] prx
                  | _ \<Rightarrow> prx)
      in case cfg_Webhook cfg of
           None \<Rightarrow> Inr (ini, override prx1)
         | Some w \<Rightarrow>
             (let ini1 = add_env [\<lparr>ev_Name = ''INBOUND_WEBHOOK_PORT'', ev_Value = itoa (wc_Port w), ev_FieldPath = None\<rparr>] ini;
                  prx2 = add_args [''--webhook-cert-dir='' @ wc_CertDir w, ''--webhook-serve-port='' @ itoa (wc_Port w)] prx1
              in case getCertVolumeMounts p (wc_CertDir w) of
                   [] \<Rightarrow> Inl NoCertMount
                 | [m] \<Rightarrow> Inr (ini1, override (prx2\<lparr>c_VolumeMounts := c_VolumeMounts prx2 @ [m]\<rparr>))
                 | _ \<Rightarrow> Inl MultipleCertMounts))"

definition attach :: "string \<Rightarrow> container \<Rightarrow> container \<Rightarrow> string list \<Rightarrow> pod \<Rightarrow> pod" where
  \<comment> \<open>the final changes of the pod\<close>
  "attach vAppName ini prx secrets p =
     p\<lparr>pod_Spec := (pod_Spec p)
         \<lparr>psp_InitContainers := ini # psp_InitContainers (pod_Spec p),
          psp_Containers := prx # psp_Containers (pod_Spec p),
          psp_Volumes := psp_Volumes (pod_Spec p) @ [\<lparr>vol_Name = ''ctrlmesh'', vol_Source = EmptyDir\<rparr>],
          psp_ImagePullSecrets := psp_ImagePullSecrets (pod_Spec p) @ secrets\<rparr>,
       pod_Labels := AList.update VirtualAppInjectedKey vAppName (pod_Labels p)\<rparr>"

definition injectByVirtualApp ::
    "environ \<Rightarrow> inject_flags \<Rightarrow> (string \<Rightarrow> bool) \<Rightarrow> (string \<Rightarrow> api_error + VirtualApp list) \<Rightarrow> pod \<Rightarrow> secret_store
     \<Rightarrow> ((inject_error + pod) \<times> secret_store) option" where
  \<comment> \<open>\<^const>\<open>None\<close> is a panic: a quantity that does not parse, or a nil \<^verbatim>\<open>Spec.Configuration\<close>\<close>
  "injectByVirtualApp env fl qp listVApps p ss =
     (case listVApps (pod_Namespace p) of
        Inl e \<Rightarrow> Some (Inl (ListVAppsError e), ss)
      | Inr vs \<Rightarrow>
          (case matchVApp p None vs of
             Inl e \<Rightarrow> Some (Inl e, ss)
           | Inr None \<Rightarrow> Some (Inr p, ss)
           | Inr (Some v) \<Rightarrow>
               if psp_HostNetwork (pod_Spec p) then Some (Inl UsesHostNetwork, ss)
               else if fl_initImage fl = '''' \<or> fl_proxyImage fl = '''' then Some (Inl ImagesNotSet, ss)
               else if \<not> qp (fl_proxyResourceCPU fl) \<or> \<not> qp (fl_proxyResourceMemory fl) then Panic
               else (case getKubernetesServiceHostPort p of
                  Inl e \<Rightarrow> Some (Inl e, ss)
                | Inr hostPort \<Rightarrow>
                    (case va_Configuration v of
                       None \<Rightarrow> Panic
                     | Some cfg \<Rightarrow>
                         (case configure cfg p (add_env hostPort (initContainer0 fl),
                                  add_env hostPort (add_env (getExtraEnvs fl) (proxyContainer0 fl))) of
                            Inl e \<Rightarrow> Some (Inl e, ss)
                          | Inr (ini, prx) \<Rightarrow>
                              (let (refs, ss') =
                                 (if length (fl_proxyImagePullSecrets fl) > 0
                                  then getImagePullSecrets env (pod_Namespace p)
                                         (split_on CHR '','' (fl_proxyImagePullSecrets fl)) ss
                                  else ([], ss))
                               in Some (Inr (attach (va_Name v) ini prx refs p), ss')))))))"

datatype pod_response = PodAllowed | PodErrored nat | PodPatched pod

definition pod_Handle ::
    "environ \<Rightarrow> inject_flags \<Rightarrow> (string \<Rightarrow> bool) \<Rightarrow> (string \<Rightarrow> api_error + VirtualApp list) \<Rightarrow> bool \<Rightarrow> string \<Rightarrow>
     pod option \<Rightarrow> secret_store \<Rightarrow> (pod_response \<times> secret_store) option" where
  \<comment> \<open>\<open>create\<close> says whether the operation is a creation; the object is \<^const>\<open>None\<close> if it does not
      decode; encoding the result does not fail\<close>
  "pod_Handle env fl qp listVApps create reqNamespace obj ss =
     (if \<not> create then Some (PodAllowed, ss)
      else (case obj of
         None \<Rightarrow> Some (PodErrored 400, ss)
       | Some p \<Rightarrow>
           (let p1 = (if pod_Namespace p = '''' then p\<lparr>pod_Namespace := reqNamespace\<rparr> else p)
            in case injectByVirtualApp env fl qp listVApps p1 ss of
                 None \<Rightarrow> Panic
               | Some (Inl _, ss') \<Rightarrow> Some (PodErrored 400, ss')
               | Some (Inr p2, ss') \<Rightarrow> Some (PodPatched p2, ss'))))"

subsection \<open>Lemmas\<close>

definition app_selects :: "pod \<Rightarrow> VirtualApp \<Rightarrow> bool" where
  "app_selects p v \<longleftrightarrow>
     (\<exists>sel. ValidatedLabelSelectorAsSelector (va_Selector v) = Inr sel \<and> selector_matches sel (pod_Labels p))"

lemma matchVApp_eq:
  "matchVApp p m vs =
     (case (case m of None \<Rightarrow> [] | Some v \<Rightarrow> [v]) @ filter (app_selects p) vs of
        [] \<Rightarrow> Inr None
      | [v] \<Rightarrow> Inr (Some v)
      | v # w # _ \<Rightarrow> Inl (MultipleVApps (va_Name v) (va_Name w)))"
proof (induction vs arbitrary: m)
  case Nil
  show ?case by (simp split: option.split)
next
  case (Cons v vs)
  then show ?case by (cases m) (auto simp: app_selects_def split: sum.splits)
qed

abbreviation env_host :: "container \<Rightarrow> env_var option" where
  "env_host c \<equiv> GetContainerEnvVar c ''KUBERNETES_SERVICE_HOST''"

abbreviation env_port :: "container \<Rightarrow> env_var option" where
  "env_port c \<equiv> GetContainerEnvVar c ''KUBERNETES_SERVICE_PORT''"

definition same_value :: "env_var option \<Rightarrow> env_var option \<Rightarrow> bool" where
  \<comment> \<open>if the first is set, the second is, to the same value\<close>
  "same_value x y \<longleftrightarrow> (\<forall>e. x = Some e \<longrightarrow> (\<exists>f. y = Some f \<and> ev_Value f = ev_Value e))"

lemma env_update_same: "env_update err x y = Inr z \<Longrightarrow> same_value x z \<and> same_value y z"
  by (auto simp: env_update_def same_value_def split: option.splits if_splits)

lemma same_value_trans: "same_value x y \<Longrightarrow> same_value y z \<Longrightarrow> same_value x z"
  by (fastforce simp: same_value_def)

lemma hostPortLoop_step:
  assumes "hostPortLoop h p (c # cs) = Inr r"
  obtains h1 p1 where "hostPortLoop h1 p1 cs = Inr r" "same_value h h1" "same_value (env_host c) h1"
    "same_value p p1" "same_value (env_port c) p1"
  using assms by (auto split: sum.splits dest!: env_update_same)

lemma hostPortLoop_keeps:
  "hostPortLoop h p cs = Inr (h', p') \<Longrightarrow> same_value h h' \<and> same_value p p'"
proof (induction cs arbitrary: h p)
  case Nil
  then show ?case by (auto simp: same_value_def)
next
  case (Cons c cs)
  show ?case
    by (rule hostPortLoop_step [OF Cons.prems]) (blast dest: Cons.IH intro: same_value_trans)
qed

lemma hostPortLoop_values:
  "hostPortLoop h p cs = Inr (h', p') \<Longrightarrow> c \<in> set cs \<Longrightarrow> same_value (env_host c) h' \<and> same_value (env_port c) p'"
proof (induction cs arbitrary: h p)
  case (Cons d cs)
  obtain h1 p1 where rest: "hostPortLoop h1 p1 cs = Inr (h', p')" "same_value (env_host d) h1" "same_value (env_port d) p1"
    by (rule hostPortLoop_step [OF Cons.prems(1)])
  show ?case
  proof (cases "c = d")
    case True
    with hostPortLoop_keeps [OF rest(1)] rest(2,3) show ?thesis by (blast intro: same_value_trans)
  next
    case False
    with Cons.prems(2) Cons.IH [OF rest(1)] show ?thesis by simp
  qed
qed simp

definition env_agrees :: "container list \<Rightarrow> string \<Rightarrow> bool" where
  "env_agrees cs key \<longleftrightarrow>
     (\<forall>c\<in>set cs. \<forall>d\<in>set cs. \<forall>e f. GetContainerEnvVar c key = Some e \<longrightarrow> GetContainerEnvVar d key = Some f \<longrightarrow>
        ev_Value e = ev_Value f)"

lemma hostPortLoop_Inr_single:
  assumes "hostPortLoop h p cs = Inr (h', p')"
  shows "env_agrees cs ''KUBERNETES_SERVICE_HOST''" "env_agrees cs ''KUBERNETES_SERVICE_PORT''"
proof -
  have "ev_Value e = ev_Value f" if "same_value (Some e) y" "same_value (Some f) y" for e f y
    using that by (auto simp: same_value_def)
  with hostPortLoop_values [OF assms]
  show "env_agrees cs ''KUBERNETES_SERVICE_HOST''" "env_agrees cs ''KUBERNETES_SERVICE_PORT''"
    unfolding env_agrees_def by metis+
qed

lemma split_kv_render:
  "CHR ''='' \<notin> set k \<Longrightarrow> CHR ''='' \<notin> set v \<Longrightarrow>
   split_kv (k @ CHR ''='' # v) = Some \<lparr>ev_Name = k, ev_Value = v, ev_FieldPath = None\<rparr>"
  by (simp add: split_kv_def split_on_append_sep split_on_no_sep)

definition render_env :: "string \<times> string \<Rightarrow> string" where
  "render_env kv = fst kv @ CHR ''='' # snd kv"

lemma map_filter_map_Some: "\<forall>x\<in>set xs. f (g x) = Some (h x) \<Longrightarrow> List.map_filter f (map g xs) = map h xs"
  by (induction xs) (simp_all add: List.map_filter_def)

lemma configure_Inr:
  assumes "configure cfg p (ini, prx) = Inr (ini', prx')"
  shows "c_Name ini' = c_Name ini \<and> c_Name prx' = c_Name prx \<and> c_Image ini' = c_Image ini \<and> c_Image prx' = c_Image prx \<and>
     (\<forall>w. cfg_Webhook cfg = Some w \<longrightarrow> (\<exists>m\<in>set (c_VolumeMounts prx'). vm_MountPath m = wc_CertDir w \<and> vm_ReadOnly m)) \<and>
     (\<forall>n. cfg_Controller cfg = Some n \<longrightarrow> ''--leader-election-name='' @ n \<in> set (c_Args prx'))"
proof -
  have mounts: "vm_MountPath m = d \<and> vm_ReadOnly m" if "getCertVolumeMounts p d = [m]" for m d
  proof -
    have "m \<in> set (getCertVolumeMounts p d)" using that by simp
    then show ?thesis by (auto simp: getCertVolumeMounts_def)
  qed
  show ?thesis
  proof (cases "cfg_Webhook cfg")
    case None
    with assms show ?thesis
      by (auto simp: configure_def Let_def add_args_def add_env_def split: option.splits)
  next
    case (Some w)
    then obtain m where m: "getCertVolumeMounts p (wc_CertDir w) = [m]"
      using assms by (auto simp: configure_def Let_def split: list.splits)
    from assms mounts [OF m] show ?thesis
      by (auto simp: configure_def Let_def add_args_def add_env_def Some m split: option.splits)
  qed
qed

lemma copySecret_mono:
  "copySecret m pns n ss = (r, ss') \<Longrightarrow> map_of (ss_secrets ss) k = Some d \<Longrightarrow> map_of (ss_secrets ss') k = Some d"
  by (auto simp: copySecret_def createSecret_def Let_def split: option.splits if_splits)

lemma copySecret_ref: "copySecret m pns n ss = (Some x, ss') \<Longrightarrow> map_of (ss_secrets ss') (pns, x) \<noteq> None"
  by (auto simp: copySecret_def createSecret_def getSecret_def Let_def split: option.splits if_splits)

lemma copySecrets_mono:
  "copySecrets m pns ns ss = (refs, ss') \<Longrightarrow> map_of (ss_secrets ss) k = Some d \<Longrightarrow> map_of (ss_secrets ss') k = Some d"
  by (induction ns arbitrary: ss refs) (auto simp: Let_def split: prod.splits dest: copySecret_mono)

lemma copySecrets_refs:
  "copySecrets m pns ns ss = (refs, ss') \<Longrightarrow> x \<in> set refs \<Longrightarrow> map_of (ss_secrets ss') (pns, x) \<noteq> None"
proof (induction ns arbitrary: ss refs)
  case (Cons n ns)
  obtain r ss1 refs1 where step: "copySecret m pns n ss = (r, ss1)" "copySecrets m pns ns ss1 = (refs1, ss')"
    and refs: "refs = (case r of None \<Rightarrow> refs1 | Some x \<Rightarrow> x # refs1)"
    using Cons.prems(1) by (auto simp: Let_def split: prod.splits)
  show ?case
  proof (cases "x \<in> set refs1")
    case True
    with Cons.IH step(2) show ?thesis by blast
  next
    case False
    with refs Cons.prems(2) have "r = Some x" by (auto split: option.splits)
    with copySecret_ref step(1) copySecrets_mono [OF step(2)] show ?thesis by fastforce
  qed
qed simp

subsection \<open>Properties\<close>

text \<open>
  C24. What injection does. If it succeeds, then either no VirtualApp of the namespace selects
  the pod and nothing changes, or exactly one does. In that case the pod is not on the host
  network; the init and proxy containers come before all others, and no other container is
  changed; all containers agree on the address of the API server; the pod is labelled with
  the name of the VirtualApp and keeps its other labels; and for a webhook the proxy mounts
  the certificate directory read-only. If injection fails, no secret has been created.
\<close>

theorem injectByVirtualApp_result:
  assumes "injectByVirtualApp env fl qp listVApps p ss = Some (r, ss')" and "listVApps (pod_Namespace p) = Inr vs"
  shows "case r of
      Inl _ \<Rightarrow> ss' = ss
    | Inr p' \<Rightarrow>
        filter (app_selects p) vs = [] \<and> p' = p \<and> ss' = ss
        \<or> (\<exists>v ini prx. filter (app_selects p) vs = [v]
            \<and> psp_InitContainers (pod_Spec p') = ini # psp_InitContainers (pod_Spec p)
            \<and> psp_Containers (pod_Spec p') = prx # psp_Containers (pod_Spec p)
            \<and> c_Name ini = InitContainerName \<and> c_Name prx = ProxyContainerName
            \<and> c_Image ini = fl_initImage fl \<and> c_Image prx = fl_proxyImage fl
            \<and> \<not> psp_HostNetwork (pod_Spec p')
            \<and> map_of (pod_Labels p') = (map_of (pod_Labels p))(VirtualAppInjectedKey \<mapsto> va_Name v)
            \<and> env_agrees (psp_Containers (pod_Spec p)) ''KUBERNETES_SERVICE_HOST''
            \<and> env_agrees (psp_Containers (pod_Spec p)) ''KUBERNETES_SERVICE_PORT''
            \<and> (\<forall>cfg w. va_Configuration v = Some cfg \<longrightarrow> cfg_Webhook cfg = Some w \<longrightarrow>
                 (\<exists>m\<in>set (c_VolumeMounts prx). vm_MountPath m = wc_CertDir w \<and> vm_ReadOnly m)))"
proof (cases r)
  case (Inl e)
  with assms show ?thesis
    by (auto simp: injectByVirtualApp_def Let_def split: sum.splits option.splits if_splits prod.splits)
next
  case (Inr p')
  show ?thesis
  proof (cases "matchVApp p None vs")
    case (Inl e)
    with assms \<open>r = Inr p'\<close> show ?thesis by (simp add: injectByVirtualApp_def)
  next
    case matched: (Inr mv)
    show ?thesis
    proof (cases mv)
      case None
      with matched have "filter (app_selects p) vs = []"
        by (auto simp: matchVApp_eq split: list.splits)
      with assms matched None \<open>r = Inr p'\<close> show ?thesis by (simp add: injectByVirtualApp_def)
    next
      case (Some v)
      with matched have one: "filter (app_selects p) vs = [v]"
        by (auto simp: matchVApp_eq split: list.splits)
      have R: "injectByVirtualApp env fl qp listVApps p ss = Some (Inr p', ss')"
        using assms(1) \<open>r = Inr p'\<close> by simp
      obtain hp where hp: "getKubernetesServiceHostPort p = Inr hp" and host: "\<not> psp_HostNetwork (pod_Spec p)"
        using R assms(2) matched Some
        by (auto simp: injectByVirtualApp_def split: sum.splits option.splits if_splits)
      obtain cfg ini prx refs where cfg: "va_Configuration v = Some cfg"
        and conf: "configure cfg p (add_env hp (initContainer0 fl),
            add_env hp (add_env (getExtraEnvs fl) (proxyContainer0 fl))) = Inr (ini, prx)"
        and p': "p' = attach (va_Name v) ini prx refs p"
        using R assms(2) matched Some hp
        by (auto simp: injectByVirtualApp_def Let_def split: sum.splits option.splits if_splits prod.splits)
      obtain h q where "hostPortLoop None None (psp_Containers (pod_Spec p)) = Inr (h, q)"
        using hp by (auto simp: getKubernetesServiceHostPort_def split: sum.splits)
      note agree = hostPortLoop_Inr_single [OF this]
      have names: "c_Name ini = InitContainerName" "c_Name prx = ProxyContainerName"
        "c_Image ini = fl_initImage fl" "c_Image prx = fl_proxyImage fl"
        "\<forall>w. cfg_Webhook cfg = Some w \<longrightarrow> (\<exists>m\<in>set (c_VolumeMounts prx). vm_MountPath m = wc_CertDir w \<and> vm_ReadOnly m)"
        using configure_Inr [OF conf] by (simp_all add: add_env_def initContainer0_def proxyContainer0_def)
      show ?thesis
        unfolding \<open>r = Inr p'\<close> sum.case
        by (rule disjI2, rule exI [of _ v], rule exI [of _ ini], rule exI [of _ prx])
          (use one host agree names cfg in \<open>simp add: p' attach_def update_conv'\<close>)
    qed
  qed
qed

text \<open>
  Image pull secrets. When the pod is not in the manager's namespace, every secret that
  injection refers to exists in the pod's namespace afterwards, and no secret that existed
  has changed.
\<close>

theorem image_pull_secrets_exist:
  assumes "getImagePullSecrets env podNS names ss = (refs, ss')" and "GetNamespace env \<noteq> podNS"
  shows "(\<forall>n\<in>set refs. map_of (ss_secrets ss') (podNS, n) \<noteq> None)
    \<and> (\<forall>k d. map_of (ss_secrets ss) k = Some d \<longrightarrow> map_of (ss_secrets ss') k = Some d)"
proof -
  have copy: "copySecrets (GetNamespace env) podNS names ss = (refs, ss')"
    using assms by (simp add: getImagePullSecrets_def Let_def)
  show ?thesis using copySecrets_refs [OF copy] copySecrets_mono [OF copy] by blast
qed

text \<open>
  Extra environment variables are read back. A flag of the form \<^verbatim>\<open>k1=v1;k2=v2\<close> whose
  names and values contain neither separator gives exactly these variables, in order.
\<close>

theorem getExtraEnvs_roundtrip:
  assumes "kvs \<noteq> []" and "\<forall>(k, v)\<in>set kvs. set (k @ v) \<inter> {CHR ''='', CHR '';''} = {}"
    and "fl_proxyExtraEnvs fl = join_with '';'' (map render_env kvs)"
  shows "getExtraEnvs fl = map (\<lambda>(k, v). \<lparr>ev_Name = k, ev_Value = v, ev_FieldPath = None\<rparr>) kvs"
proof -
  have "split_on CHR '';'' (join_with '';'' (map render_env kvs)) = map render_env kvs"
    using assms(1,2) by (intro split_join_on) (auto simp: render_env_def)
  moreover have "length (join_with '';'' (map render_env kvs)) > 0"
    using assms(1) by (cases kvs rule: list.exhaust; cases "tl kvs") (auto simp: render_env_def)
  moreover have "List.map_filter split_kv (map render_env kvs)
      = map (\<lambda>(k, v). \<lparr>ev_Name = k, ev_Value = v, ev_FieldPath = None\<rparr>) kvs"
    using assms(2) by (intro map_filter_map_Some) (auto simp: render_env_def split_kv_render)
  ultimately show ?thesis by (simp add: getExtraEnvs_def assms(3))
qed

subsection \<open>Witnesses\<close>

definition example_flags :: inject_flags where
  "example_flags =
     \<lparr>fl_initImage = ''init:1'', fl_proxyImage = ''proxy:1'', fl_proxyImagePullSecrets = '''',
      fl_proxyImagePullPolicy = ''Always'', fl_proxyResourceCPU = ''100m'', fl_proxyResourceMemory = ''200Mi'',
      fl_proxyLogLevel = 3, fl_proxyExtraEnvs = ''A=1;B=2''\<rparr>"

definition example_injectable :: pod where
  "example_injectable =
     \<lparr>pod_Namespace = ''default'', pod_Name = ''app-0'', pod_UID = '''', pod_Labels = [(''app'', ''x'')],
      pod_CreationTimestamp = 0, pod_DeletionTimestamp = None, pod_Phase = PodPending, pod_PodIP = '''',
      pod_Conditions = [], pod_ContainerStatuses = [],
      pod_Spec = \<lparr>psp_HostNetwork = False, psp_InitContainers = [], psp_Containers = [], psp_Volumes = [],
                  psp_ImagePullSecrets = []\<rparr>\<rparr>"

definition example_selecting :: VirtualApp where
  "example_selecting =
     \<lparr>va_Namespace = ''default'', va_Name = ''vapp'',
      va_Selector = Some \<lparr>matchLabels = [(''app'', ''x'')], matchExpressions = []\<rparr>,
      va_Configuration = Some \<lparr>cfg_Controller = Some ''lock'', cfg_Webhook = None, cfg_RestConfigOverrides = None\<rparr>,
      va_Route = None, va_Subsets = []\<rparr>"

definition example_secrets :: secret_store where
  "example_secrets =
     \<lparr>ss_secrets = [((''ctrlmesh-system'', ''pull''), ''data'')], ss_getFails = (\<lambda>_. False),
      ss_createFails = (\<lambda>_. False)\<rparr>"

lemma example_selected: "app_selects example_injectable example_selecting"
  by (simp add: app_selects_def example_selecting_def example_injectable_def ValidatedLabelSelectorAsSelector_def
      compile_labels_def selector_add_def newRequirement_def requirement_matches_def)

theorem injectByVirtualApp_result_witness:
  "\<exists>p' ss'. injectByVirtualApp (\<lambda>_. '''') example_flags (\<lambda>_. True) (\<lambda>_. Inr [example_selecting]) example_injectable
       example_secrets = Some (Inr p', ss')
     \<and> map_of (pod_Labels p') VirtualAppInjectedKey = Some ''vapp'' \<and> map_of (pod_Labels p') ''app'' = Some ''x''
     \<and> length (psp_Containers (pod_Spec p')) = 1"
proof -
  have "matchVApp example_injectable None [example_selecting] = Inr (Some example_selecting)"
    by (simp add: matchVApp_eq example_selected)
  then obtain p' ss' where R: "injectByVirtualApp (\<lambda>_. '''') example_flags (\<lambda>_. True) (\<lambda>_. Inr [example_selecting])
      example_injectable example_secrets = Some (Inr p', ss')"
    by (simp add: injectByVirtualApp_def getKubernetesServiceHostPort_def configure_def example_injectable_def
        example_flags_def example_selecting_def Let_def)
  from injectByVirtualApp_result [OF R refl] show ?thesis
    by (intro exI [of _ p'] exI [of _ ss'])
      (auto simp: R example_selected, auto simp: example_injectable_def example_selecting_def VirtualAppInjectedKey_def)
qed

theorem image_pull_secrets_exist_witness:
  "\<exists>refs ss'. getImagePullSecrets (\<lambda>_. '''') ''default'' [''pull''] example_secrets = (refs, ss')
     \<and> refs = [''ctrlmesh-injection-pull''] \<and> map_of (ss_secrets ss') (''default'', ''ctrlmesh-injection-pull'') \<noteq> None"
proof -
  obtain refs ss' where R: "getImagePullSecrets (\<lambda>_. '''') ''default'' [''pull''] example_secrets = (refs, ss')"
    and refs: "refs = [''ctrlmesh-injection-pull'']"
    by (simp add: getImagePullSecrets_def GetNamespace_def copySecret_def getSecret_def createSecret_def
        injectionSecretName_def example_secrets_def Let_def)
  have "GetNamespace (\<lambda>_. '''') \<noteq> ''default''" by (simp add: GetNamespace_def)
  from image_pull_secrets_exist [OF R this] show ?thesis
    by (intro exI [of _ refs] exI [of _ ss']) (simp add: R refs)
qed

theorem getExtraEnvs_roundtrip_witness:
  "getExtraEnvs example_flags =
     [\<lparr>ev_Name = ''A'', ev_Value = ''1'', ev_FieldPath = None\<rparr>, \<lparr>ev_Name = ''B'', ev_Value = ''2'', ev_FieldPath = None\<rparr>]"
  using getExtraEnvs_roundtrip [of "[(''A'', ''1''), (''B'', ''2'')]" example_flags]
  by (simp add: example_flags_def render_env_def)

end
