(* ===== verification/Query_String.thy ===== *)
theory Query_String
  imports Prelude
begin

section \<open>Query strings (\<^verbatim>\<open>util/http/request_util.go\<close>)\<close>

text \<open>
  Parsing and printing of the raw query of a request URL, and the escaping functions of
  Go's \<^verbatim>\<open>net/url\<close> that the proxy applies to the label selector in it. A string is a list
  of bytes. Printing ranges over a map, so its result depends on the order of the list;
  the round trip holds for every order.
\<close>

subsection \<open>Parsing and printing\<close>

fun parse_pairs :: "labels \<Rightarrow> string list \<Rightarrow> labels option" where
  "parse_pairs result [] = Some result"
| "parse_pairs result (pair # pairs) =
     (case split_on (CHR ''='') pair of
        [k, v] \<Rightarrow> parse_pairs (AList.update k v result) pairs
      | _ \<Rightarrow> None)"

definition ParseRawQuery :: "string \<Rightarrow> string + labels" where
  \<comment> \<open>the error carries the query; the partial map next to it is ignored by the caller\<close>
  "ParseRawQuery rawQuery =
     (if rawQuery = '''' then Inr []
      else (case parse_pairs [] (split_on (CHR ''&'') rawQuery) of
              None \<Rightarrow> Inl rawQuery
            | Some result \<Rightarrow> Inr result))"

fun marshal_pairs :: "string \<Rightarrow> labels \<Rightarrow> string" where
  "marshal_pairs result [] = result"
| "marshal_pairs result ((k, v) # kvs) =
     (if length result = 0 then marshal_pairs (result @ k @ ''='' @ v) kvs
      else marshal_pairs (result @ ''&'' @ k @ ''='' @ v) kvs)"

definition MarshalRawQuery :: "labels \<Rightarrow> string" where
  "MarshalRawQuery queryParm = marshal_pairs '''' queryParm"

subsection \<open>Escaping\<close>

definition unreserved :: "char \<Rightarrow> bool" where
  "unreserved c \<longleftrightarrow> c \<in> set ''ABCDEFGHIJKLMNOPQRSTUVWXYZabcdefghijklmnopqrstuvwxyz0123456789-_.~''"

definition upper_hex :: "nat \<Rightarrow> char" where
  "upper_hex n = ''0123456789ABCDEF'' ! (n mod 16)"

definition unhex :: "char \<Rightarrow> nat option" where
  \<comment> \<open>the value of a hexadecimal digit\<close>
  "unhex c = map_of (zip ''0123456789ABCDEFabcdef'' ([0..<16] @ [10..<16])) c"

definition escape_byte :: "char \<Rightarrow> string" where
  "escape_byte c =
     (if unreserved c then [c]
      else if c = CHR '' '' then ''+''
      else [CHR ''%'', upper_hex (of_char c div 16), upper_hex (of_char c)])"

definition QueryEscape :: "string \<Rightarrow> string" where
  "QueryEscape s = concat (map escape_byte s)"

fun QueryUnescape :: "string \<Rightarrow> string option" where
  "QueryUnescape [] = Some []"
| "QueryUnescape (c # cs) =
     (if c = CHR ''%'' then
        (case cs of
           a # b # cs' \<Rightarrow>
             (case (unhex a, unhex b) of
                (Some x, Some y) \<Rightarrow> map_option (Cons (char_of (16 * x + y))) (QueryUnescape cs')
              | _ \<Rightarrow> None)
         | _ \<Rightarrow> None)
      else map_option (Cons (if c = CHR ''+'' then CHR '' '' else c)) (QueryUnescape cs))"

subsection \<open>The round trips\<close>

lemma unhex_upper_hex [simp]: "unhex (upper_hex n) = Some (n mod 16)"
proof -
  have "list_all (\<lambda>k. unhex (''0123456789ABCDEF'' ! k) = Some k) [0..<16]" by code_simp
  then show ?thesis by (simp add: upper_hex_def list_all_iff)
qed

lemma unreserved_plain:
  "unreserved c \<Longrightarrow> c \<noteq> CHR ''%'' \<and> c \<noteq> CHR ''+'' \<and> c \<noteq> CHR ''&'' \<and> c \<noteq> CHR ''=''"
  by (auto simp: unreserved_def)

lemma upper_hex_unreserved: "unreserved (upper_hex n)"
proof -
  have "list_all (\<lambda>k. unreserved (''0123456789ABCDEF'' ! k)) [0..<16]" by code_simp
  then show ?thesis by (simp add: upper_hex_def list_all_iff)
qed

lemma byte_split: "16 * (of_char c div 16 mod 16) + of_char c mod 16 = (of_char c :: nat)"
proof -
  have "(of_char c :: nat) < 16 * 16" using nat_of_char_less_256 [of c] by simp
  then have "(of_char c :: nat) div 16 < 16" by (rule less_mult_imp_div_less)
  then show ?thesis by simp
qed

lemma QueryUnescape_escape_byte:
  "QueryUnescape (escape_byte c @ s) = map_option (Cons c) (QueryUnescape s)"
proof -
  consider "unreserved c" | "\<not> unreserved c" "c = CHR '' ''" | "\<not> unreserved c" "c \<noteq> CHR '' ''" by blast
  then show ?thesis
  proof cases
    case 1
    with unreserved_plain [of c] show ?thesis by (simp add: escape_byte_def)
  next
    case 2
    then show ?thesis by (simp add: escape_byte_def)
  next
    case 3
    have "char_of (16 * (of_char c div 16 mod 16) + of_char c mod 16 :: nat) = c"
      unfolding byte_split by simp
    with 3 show ?thesis by (simp add: escape_byte_def)
  qed
qed

lemma QueryUnescape_QueryEscape [simp]: "QueryUnescape (QueryEscape s) = Some s"
  by (induction s) (simp_all add: QueryEscape_def QueryUnescape_escape_byte)

lemma set_escape_byte: "x \<in> set (escape_byte c) \<Longrightarrow> unreserved x \<or> x = CHR ''+'' \<or> x = CHR ''%''"
  by (auto simp: escape_byte_def upper_hex_unreserved split: if_splits)

lemma set_QueryEscape: "CHR ''&'' \<notin> set (QueryEscape s)" "CHR ''='' \<notin> set (QueryEscape s)"
  using set_escape_byte [of "CHR ''&''"] unreserved_plain [of "CHR ''&''"]
    set_escape_byte [of "CHR ''=''"] unreserved_plain [of "CHR ''=''"]
  by (auto simp: QueryEscape_def)

definition query_ok :: "labels \<Rightarrow> bool" where
  \<comment> \<open>a map whose keys and values do not contain the separators\<close>
  "query_ok m \<longleftrightarrow> gomap_ok m \<and>
     (\<forall>(k, v)\<in>set m. CHR ''&'' \<notin> set (k @ v) \<and> CHR ''='' \<notin> set (k @ v))"

definition show_pair :: "string \<times> string \<Rightarrow> string" where
  "show_pair kv = fst kv @ ''='' @ snd kv"

lemma marshal_pairs_eq:
  "marshal_pairs r m = (if m = [] then r else if r = '''' then join_with ''&'' (map show_pair m)
     else r @ ''&'' @ join_with ''&'' (map show_pair m))"
proof (induction m arbitrary: r)
  case (Cons kv kvs)
  obtain k v where "kv = (k, v)" by fastforce
  with Cons show ?case by (cases kvs) (auto simp: show_pair_def)
qed simp

lemma MarshalRawQuery_join: "MarshalRawQuery m = join_with ''&'' (map show_pair m)"
  by (cases m) (simp_all add: MarshalRawQuery_def marshal_pairs_eq)

lemma split_show_pair:
  "CHR ''='' \<notin> set (k @ v) \<Longrightarrow> split_on (CHR ''='') (show_pair (k, v)) = [k, v]"
  by (simp add: show_pair_def split_on_append_sep split_on_no_sep)

lemma parse_pairs_show:
  "\<forall>(k, v)\<in>set m. CHR ''='' \<notin> set (k @ v) \<Longrightarrow>
   parse_pairs r (map show_pair m) = Some (gomap_set_all r m)"
  by (induction m arbitrary: r) (auto simp: split_show_pair gomap_set_all_def)

lemma gomap_set_all_fresh:
  "distinct (map fst (r @ m)) \<Longrightarrow> gomap_set_all r m = r @ m"
proof (induction m arbitrary: r)
  case (Cons kv m)
  have "fst kv \<notin> fst ` set r" using Cons.prems by auto
  then have "AList.update (fst kv) (snd kv) r = r @ [kv]" by (induction r) auto
  with Cons show ?case by (simp add: gomap_set_all_def)
qed (simp add: gomap_set_all_def)

lemma ParseRawQuery_MarshalRawQuery:
  assumes "query_ok m"
  shows "ParseRawQuery (MarshalRawQuery m) = Inr m"
proof (cases m)
  case Nil
  then show ?thesis by (simp add: MarshalRawQuery_def ParseRawQuery_def)
next
  case (Cons kv kvs)
  have ne: "MarshalRawQuery m \<noteq> ''''"
    by (cases kvs) (simp_all add: MarshalRawQuery_join Cons show_pair_def)
  have "split_on (CHR ''&'') (MarshalRawQuery m) = map show_pair m"
    unfolding MarshalRawQuery_join using assms
    by (intro split_join_on) (auto simp: Cons query_ok_def show_pair_def)
  moreover have "parse_pairs [] (map show_pair m) = Some (gomap_set_all [] m)"
    using assms by (intro parse_pairs_show) (auto simp: query_ok_def)
  moreover have "gomap_set_all [] m = m"
    using assms by (simp add: gomap_set_all_fresh query_ok_def gomap_ok_def)
  ultimately show ?thesis using ne by (simp add: ParseRawQuery_def)
qed

subsection \<open>Parsed queries\<close>

lemma set_split_on_subset: "w \<in> set (split_on c s) \<Longrightarrow> set w \<subseteq> set s"
proof (induction s arbitrary: w)
  case (Cons x s)
  obtain v vs where v: "split_on c s = v # vs" by (cases "split_on c s") auto
  with Cons show ?case by (fastforce split: if_splits)
qed simp

lemma parse_pairs_ok:
  assumes "parse_pairs r ps = Some m" and "query_ok r" and "\<forall>p\<in>set ps. CHR ''&'' \<notin> set p"
  shows "query_ok m"
  using assms
proof (induction ps arbitrary: r)
  case (Cons p ps)
  obtain k v where kv: "split_on (CHR ''='') p = [k, v]"
    and rest: "parse_pairs (AList.update k v r) ps = Some m"
    using Cons.prems(1) by (auto split: list.splits)
  have "CHR ''='' \<notin> set k" "CHR ''='' \<notin> set v"
    using set_split_on_no_sep [of k "CHR ''=''" p] set_split_on_no_sep [of v "CHR ''=''" p] kv by auto
  moreover have "CHR ''&'' \<notin> set k" "CHR ''&'' \<notin> set v"
    using set_split_on_subset [of k "CHR ''=''" p] set_split_on_subset [of v "CHR ''=''" p] kv Cons.prems(3) by auto
  moreover have "set (AList.update k v r) \<subseteq> insert (k, v) (set r)"
    by (induction r) (auto split: if_splits)
  ultimately have "query_ok (AList.update k v r)"
    using Cons.prems(2) by (fastforce simp: query_ok_def gomap_ok_def distinct_update)
  with Cons.IH [OF rest] Cons.prems(3) show ?case by simp
qed simp

lemma ParseRawQuery_ok:
  assumes "ParseRawQuery q = Inr m"
  shows "query_ok m"
proof (cases "q = ''''")
  case True
  with assms show ?thesis by (auto simp: ParseRawQuery_def query_ok_def gomap_ok_def)
next
  case False
  then have "parse_pairs [] (split_on (CHR ''&'') q) = Some m"
    using assms by (auto simp: ParseRawQuery_def split: option.splits)
  then show ?thesis
    by (rule parse_pairs_ok) (auto simp: query_ok_def gomap_ok_def dest: set_split_on_no_sep)
qed

lemma query_ok_update:
  "query_ok m \<Longrightarrow> CHR ''&'' \<notin> set (k @ v) \<Longrightarrow> CHR ''='' \<notin> set (k @ v) \<Longrightarrow> query_ok (AList.update k v m)"
proof -
  assume "query_ok m" "CHR ''&'' \<notin> set (k @ v)" "CHR ''='' \<notin> set (k @ v)"
  moreover have "set (AList.update k v m) \<subseteq> insert (k, v) (set m)"
    by (induction m) (auto split: if_splits)
  ultimately show "query_ok (AList.update k v m)"
    by (fastforce simp: query_ok_def gomap_ok_def distinct_update)
qed

end
