(* ===== verification/Watch_Stream.thy ===== *)
theory Watch_Stream
  imports Prelude
begin

section \<open>Buffers and framed streams (\<^verbatim>\<open>util/pool\<close>, \<^verbatim>\<open>proxy/apiserver/router/reader.go\<close>)\<close>

text \<open>
  The pool of byte buffers, and the reader that takes one frame after the other off a watch
  response. A byte is a character, a byte slice a string. Of a pooled slice only the
  capacity matters: every user overwrites the contents.

  The frames come from the reader of the vendored \<^verbatim>\<open>framer\<close> package. Its state here is the
  rest of the frame in progress, the complete frames that the connection still delivers, and
  the error with which it ends. \<^verbatim>\<open>bytes.Buffer.Grow\<close> is the one of Go 1.18: it only
  guarantees space for \<open>n\<close> further bytes and does nothing if the space is there.
\<close>

type_synonym bytes = string

subsection \<open>The pool of buffers\<close>

record bytes_pool =
  bp_pool :: "nat list"
  bp_chan :: nat
  bp_baseWidth :: nat

definition BytesPool :: bytes_pool where
  "BytesPool = \<lparr>bp_pool = [], bp_chan = 1000, bp_baseWidth = 32 * 1024\<rparr>"

definition pool_Get :: "bytes_pool \<Rightarrow> nat \<times> bytes_pool" where
  "pool_Get bp =
     (case bp_pool bp of
        b # bs \<Rightarrow> (b, bp\<lparr>bp_pool := bs\<rparr>)
      | [] \<Rightarrow> (bp_baseWidth bp, bp))"

definition pool_Put :: "nat \<Rightarrow> bytes_pool \<Rightarrow> bytes_pool" where
  "pool_Put b bp =
     (if b < bp_baseWidth bp then bp
      else if length (bp_pool bp) < bp_chan bp then bp\<lparr>bp_pool := bp_pool bp @ [b]\<rparr>
      else bp)"

definition pool_ok :: "bytes_pool \<Rightarrow> bool" where
  "pool_ok bp \<longleftrightarrow> length (bp_pool bp) \<le> bp_chan bp \<and> (\<forall>b\<in>set (bp_pool bp). bp_baseWidth bp \<le> b)"

text \<open>
  What the users of a pool rely on (the interface \<^verbatim>\<open>BufferPool\<close> of the reverse proxy): a
  buffer that is handed out has at least the base width, in whatever order buffers were
  taken and given back.
\<close>

locale buffer_pool =
  fixes get :: "'p \<Rightarrow> nat \<times> 'p" and put :: "nat \<Rightarrow> 'p \<Rightarrow> 'p"
    and ok :: "'p \<Rightarrow> bool" and width :: "'p \<Rightarrow> nat"
  assumes get_width: "ok p \<Longrightarrow> get p = (b, p') \<Longrightarrow> width p \<le> b"
    and get_ok: "ok p \<Longrightarrow> get p = (b, p') \<Longrightarrow> ok p' \<and> width p' = width p"
    and put_ok: "ok p \<Longrightarrow> ok (put b p) \<and> width (put b p) = width p"
begin

inductive used :: "'p \<Rightarrow> 'p \<Rightarrow> bool" where
  used_refl: "used p p"
| used_get: "used p q \<Longrightarrow> used p (snd (get q))"
| used_put: "used p q \<Longrightarrow> used p (put b q)"

lemma used_keeps: "used p q \<Longrightarrow> ok p \<Longrightarrow> ok q \<and> width q = width p"
  by (induction rule: used.induct) (metis get_ok prod.collapse, metis get_ok prod.collapse, metis put_ok)

lemma get_after_use: "used p q \<Longrightarrow> ok p \<Longrightarrow> width p \<le> fst (get q)"
  by (metis get_width prod.collapse used_keeps)

end

interpretation bp: buffer_pool pool_Get pool_Put pool_ok bp_baseWidth
proof
  fix p p' b
  assume ok: "pool_ok p"
  show "bp_baseWidth p \<le> b" if "pool_Get p = (b, p')"
    using ok that by (auto simp: pool_Get_def pool_ok_def split: list.splits)
  show "pool_ok p' \<and> bp_baseWidth p' = bp_baseWidth p" if "pool_Get p = (b, p')"
    using ok that by (auto simp: pool_Get_def pool_ok_def split: list.splits)
  show "pool_ok (pool_Put b p) \<and> bp_baseWidth (pool_Put b p) = bp_baseWidth p"
    using ok by (auto simp: pool_Put_def pool_ok_def)
qed

subsection \<open>Framed readers\<close>

datatype read_error =
    ErrShortBuffer
  | EOF
  | ErrCanceled
  | ErrStream string
  | HashChangedError string string
  | ErrRead string

definition IsHashChangedError :: "read_error \<Rightarrow> bool" where
  "IsHashChangedError err = (case err of HashChangedError _ _ \<Rightarrow> True | _ \<Rightarrow> False)"

record frame_reader =
  fr_remaining :: bytes
  fr_frames :: "bytes list"
  fr_end :: read_error

definition frame_Read :: "nat \<Rightarrow> frame_reader \<Rightarrow> bytes \<times> read_error option \<times> frame_reader" where
  \<comment> \<open>\<^verbatim>\<open>jsonFrameReader.Read\<close> into a slice of \<open>n\<close> bytes: what it wrote, the error, the reader\<close>
  "frame_Read n fr =
     (if fr_remaining fr \<noteq> [] then
        (if length (fr_remaining fr) \<le> n then (fr_remaining fr, None, fr\<lparr>fr_remaining := []\<rparr>)
         else (take n (fr_remaining fr), Some ErrShortBuffer,
               fr\<lparr>fr_remaining := drop n (fr_remaining fr)\<rparr>))
      else (case fr_frames fr of
              [] \<Rightarrow> ([], Some (fr_end fr), fr)
            | m # ms \<Rightarrow>
                if n < length m
                then (take n m, Some ErrShortBuffer, fr\<lparr>fr_remaining := drop n m, fr_frames := ms\<rparr>)
                else (m, None, fr\<lparr>fr_frames := ms\<rparr>)))"

definition frame_size :: "frame_reader \<Rightarrow> nat" where
  \<comment> \<open>what is left to read\<close>
  "frame_size fr =
     length (fr_remaining fr) + sum_list (map length (fr_frames fr)) + length (fr_frames fr)"

lemma frame_Read_size:
  assumes "frame_Read n fr = (chunk, err, fr')"
    and "err = None \<or> err = Some ErrShortBuffer \<and> chunk \<noteq> []" and "fr_end fr \<noteq> ErrShortBuffer \<or> chunk \<noteq> []"
  shows "frame_size fr' < frame_size fr"
  using assms by (auto simp: frame_Read_def frame_size_def split: if_splits list.splits)

subsection \<open>The reader of a response\<close>

definition maxBufferBytes :: nat where
  "maxBufferBytes = 16 * 1024 * 1024"

record io_reader =
  ior_reader :: frame_reader
  ior_resetRead :: bool

datatype stream_error = ShortBufferZero nat nat | ErrObjectTooLarge | StreamReadError read_error

definition bytes_Grow :: "nat \<Rightarrow> nat \<Rightarrow> nat \<Rightarrow> nat" where
  \<comment> \<open>\<^verbatim>\<open>bytes.Buffer.Grow(n)\<close> on an unread buffer of length \<open>len\<close>: the new capacity\<close>
  "bytes_Grow capacity len n = (if n \<le> capacity - len then capacity else 2 * capacity + n)"

function readStreaming :: "nat \<Rightarrow> bytes \<Rightarrow> io_reader \<Rightarrow> bytes \<times> stream_error option \<times> nat \<times> io_reader" where
  \<comment> \<open>the loop, with the capacity of the buffer and its first \<^verbatim>\<open>base\<close> bytes; the capacity is
      returned with the buffer\<close>
  "readStreaming capacity data r =
     (case frame_Read (capacity - length data) (ior_reader r) of
        (chunk, err, rd) \<Rightarrow>
          (case err of
             Some ErrShortBuffer \<Rightarrow>
               if chunk = [] then
                 (data, Some (ShortBufferZero (length data) capacity), capacity, r\<lparr>ior_reader := rd\<rparr>)
               else if ior_resetRead r then readStreaming capacity data (r\<lparr>ior_reader := rd\<rparr>)
               else if capacity < maxBufferBytes then
                 readStreaming (bytes_Grow capacity 0 capacity) (data @ chunk) (r\<lparr>ior_reader := rd\<rparr>)
               else ([], Some ErrObjectTooLarge, capacity, r\<lparr>ior_reader := rd, ior_resetRead := True\<rparr>)
           | Some e \<Rightarrow> (data, Some (StreamReadError e), capacity, r\<lparr>ior_reader := rd\<rparr>)
           | None \<Rightarrow>
               if ior_resetRead r
               then readStreaming capacity data (r\<lparr>ior_reader := rd, ior_resetRead := False\<rparr>)
               else (data @ chunk, None, capacity, r\<lparr>ior_reader := rd\<rparr>)))"
  by auto
termination
proof (relation "measure (\<lambda>(c, d, r). frame_size (ior_reader r))", goal_cases)
  case 1
  show ?case by simp
qed (auto simp: frame_Read_def frame_size_def split: if_splits list.splits)

declare readStreaming.simps [simp del]

subsection \<open>What one call returns\<close>

lemma readStreaming_fits:
  assumes "ior_resetRead r = False" and "fr_remaining (ior_reader r) = []"
    and "fr_frames (ior_reader r) = m # ms" and "length m \<le> capacity"
  shows "readStreaming capacity [] r = (m, None, capacity, r\<lparr>ior_reader := (ior_reader r)\<lparr>fr_frames := ms\<rparr>\<rparr>)"
  using assms by (subst readStreaming.simps) (simp add: frame_Read_def)

lemma readStreaming_short:
  assumes "ior_resetRead r = False" and "fr_remaining (ior_reader r) = []"
    and "fr_frames (ior_reader r) = m # ms" and "capacity < length m" and "capacity < maxBufferBytes"
  shows "\<exists>r'. readStreaming capacity [] r = (take capacity m, Some (ShortBufferZero capacity capacity), capacity, r')"
proof (cases "capacity = 0")
  case True
  with assms show ?thesis by (subst readStreaming.simps) (auto simp: frame_Read_def)
next
  case False
  let ?r = "r\<lparr>ior_reader := (ior_reader r)\<lparr>fr_remaining := drop capacity m, fr_frames := ms\<rparr>\<rparr>"
  have grow: "bytes_Grow capacity 0 capacity = capacity" by (simp add: bytes_Grow_def)
  have "readStreaming capacity [] r = readStreaming capacity (take capacity m) ?r"
    using assms False by (subst readStreaming.simps) (auto simp: frame_Read_def grow)
  moreover have "readStreaming capacity (take capacity m) ?r
      = (take capacity m, Some (ShortBufferZero capacity capacity), capacity, ?r)"
    using assms by (subst readStreaming.simps) (auto simp: frame_Read_def)
  ultimately show ?thesis by simp
qed

lemma readStreaming_too_large:
  assumes "ior_resetRead r = False" and "fr_remaining (ior_reader r) = []"
    and "fr_frames (ior_reader r) = m # ms" and "capacity < length m" and "maxBufferBytes \<le> capacity"
  shows "readStreaming capacity [] r = ([], Some ErrObjectTooLarge, capacity,
    r\<lparr>ior_reader := (ior_reader r)\<lparr>fr_remaining := drop capacity m, fr_frames := ms\<rparr>, ior_resetRead := True\<rparr>)"
  using assms by (subst readStreaming.simps) (auto simp: frame_Read_def maxBufferBytes_def)

lemma readStreaming_drain:
  assumes "0 < capacity" and "fr_remaining (ior_reader r) \<noteq> []" and "ior_resetRead r"
  shows "readStreaming capacity [] r
    = readStreaming capacity [] (r\<lparr>ior_reader := (ior_reader r)\<lparr>fr_remaining := []\<rparr>, ior_resetRead := False\<rparr>)"
  using assms(2,3)
proof (induction "length (fr_remaining (ior_reader r))" arbitrary: r rule: less_induct)
  case less
  let ?rest = "fr_remaining (ior_reader r)"
  show ?case
  proof (cases "length ?rest \<le> capacity")
    case True
    with less.prems show ?thesis
      by (subst readStreaming.simps [of _ _ r]) (simp add: frame_Read_def)
  next
    case False
    let ?r = "r\<lparr>ior_reader := (ior_reader r)\<lparr>fr_remaining := drop capacity ?rest\<rparr>\<rparr>"
    have "readStreaming capacity [] r = readStreaming capacity [] ?r"
      using less.prems False assms(1) by (subst readStreaming.simps) (auto simp: frame_Read_def)
    also have "\<dots> = readStreaming capacity []
        (?r\<lparr>ior_reader := (ior_reader ?r)\<lparr>fr_remaining := []\<rparr>, ior_resetRead := False\<rparr>)"
      using less.prems False assms(1) by (intro less.hyps) auto
    finally show ?thesis by simp
  qed
qed

subsection \<open>Properties\<close>

text \<open>
  C25. The reader of a watch between two frames. A frame that fits the buffer is returned
  whole and nothing else is consumed. A longer frame makes the call fail: the buffer is
  never enlarged, because growing an empty buffer by its own capacity does nothing, so
  below the limit of 16 MiB the next read gets no space and the call reports a short
  buffer. With a buffer of at least 16 MiB the frame is refused as too large, and the next
  call skips the rest of it and returns the frame behind it.
\<close>

theorem readStreaming_frames:
  assumes "ior_resetRead r = False" and "fr_remaining (ior_reader r) = []"
    and "fr_frames (ior_reader r) = m # ms"
  shows "case readStreaming capacity [] r of (data, err, capacity', r') \<Rightarrow>
     capacity' = capacity
     \<and> (if length m \<le> capacity
        then data = m \<and> err = None \<and> r' = r\<lparr>ior_reader := (ior_reader r)\<lparr>fr_frames := ms\<rparr>\<rparr>
        else if capacity < maxBufferBytes then err = Some (ShortBufferZero capacity capacity)
        else err = Some ErrObjectTooLarge
          \<and> (\<forall>m' ms'. ms = m' # ms' \<and> length m' \<le> capacity \<longrightarrow>
               readStreaming capacity [] r'
                 = (m', None, capacity, r\<lparr>ior_reader := (ior_reader r)\<lparr>fr_frames := ms'\<rparr>\<rparr>)))"
proof -
  consider "length m \<le> capacity" | "capacity < length m" "capacity < maxBufferBytes"
    | "capacity < length m" "maxBufferBytes \<le> capacity" by linarith
  then show ?thesis
  proof cases
    case 1
    then show ?thesis by (simp add: readStreaming_fits [OF assms])
  next
    case 2
    then show ?thesis using readStreaming_short [OF assms 2] by auto
  next
    case 3
    then have pos: "0 < capacity" by (simp add: maxBufferBytes_def)
    let ?r = "r\<lparr>ior_reader := (ior_reader r)\<lparr>fr_remaining := drop capacity m, fr_frames := ms\<rparr>, ior_resetRead := True\<rparr>"
    have "readStreaming capacity [] ?r
        = (m', None, capacity, r\<lparr>ior_reader := (ior_reader r)\<lparr>fr_frames := ms'\<rparr>\<rparr>)"
      if "ms = m' # ms'" and "length m' \<le> capacity" for m' ms'
    proof -
      have "readStreaming capacity [] ?r = readStreaming capacity []
          (?r\<lparr>ior_reader := (ior_reader ?r)\<lparr>fr_remaining := []\<rparr>, ior_resetRead := False\<rparr>)"
        using 3 pos by (intro readStreaming_drain) auto
      also have "\<dots> = (m', None, capacity, r\<lparr>ior_reader := (ior_reader r)\<lparr>fr_frames := ms'\<rparr>\<rparr>)"
        using that assms(1,2) by (subst readStreaming_fits) (auto intro!: arg_cong [of _ _ "\<lambda>x. (m', None, capacity, x)"])
      finally show ?thesis .
    qed
    then show ?thesis using 3 by (simp add: readStreaming_too_large [OF assms])
  qed
qed

definition example_stream :: "bytes list \<Rightarrow> io_reader" where
  "example_stream ms =
     \<lparr>ior_reader = \<lparr>fr_remaining = [], fr_frames = ms, fr_end = EOF\<rparr>, ior_resetRead = False\<rparr>"

theorem readStreaming_frames_witness:
  "readStreaming 4 [] (example_stream [''abcd'', ''e'']) = (''abcd'', None, 4, example_stream [''e''])
   \<and> fst (snd (readStreaming 3 [] (example_stream [''abcd'', ''e'']))) = Some (ShortBufferZero 3 3)"
proof -
  have r: "ior_resetRead (example_stream [''abcd'', ''e'']) = False"
    "fr_remaining (ior_reader (example_stream [''abcd'', ''e''])) = []"
    "fr_frames (ior_reader (example_stream [''abcd'', ''e''])) = ''abcd'' # [''e'']"
    by (simp_all add: example_stream_def)
  show ?thesis
    using readStreaming_frames [OF r, of 4] readStreaming_frames [OF r, of 3]
    by (simp add: maxBufferBytes_def example_stream_def split: prod.splits)
qed

text \<open>
  Whatever sequence of takes and returns the users of the pool perform, every buffer
  that the pool hands out has at least the base width of 32 KiB, and the pool never holds
  more than its 1000 slots.
\<close>

theorem pool_bounds:
  assumes "bp.used BytesPool p"
  shows "32 * 1024 \<le> fst (pool_Get p) \<and> length (bp_pool p) \<le> 1000"
proof -
  have ok: "pool_ok BytesPool" by (simp add: BytesPool_def pool_ok_def)
  have "bp_chan (pool_Put b q) = bp_chan q" "bp_chan (snd (pool_Get q)) = bp_chan q" for b q
    by (auto simp: pool_Put_def pool_Get_def split: list.splits)
  with assms have "bp_chan p = bp_chan BytesPool"
    by (induction rule: bp.used.induct) simp_all
  moreover have "pool_ok p" using bp.used_keeps [OF assms ok] by simp
  ultimately show ?thesis
    using bp.get_after_use [OF assms ok] by (simp add: BytesPool_def pool_ok_def)
qed

theorem pool_bounds_witness:
  "bp.used BytesPool (pool_Put 40000 BytesPool)
   \<and> 32 * 1024 \<le> fst (pool_Get (pool_Put 40000 BytesPool))"
proof -
  have u: "bp.used BytesPool (pool_Put 40000 BytesPool)"
    by (intro bp.used_put bp.used_refl)
  with pool_bounds [OF u] show ?thesis by simp
qed

end
