(* ===== verification/Http_Types.thy ===== *)
theory Http_Types
  imports Query_String Watch_Stream
begin

section \<open>Requests, responses and headers (Go's \<^verbatim>\<open>net/http\<close>)\<close>

text \<open>
  The parts of \<^verbatim>\<open>http.Request\<close>, \<^verbatim>\<open>http.Response\<close> and \<^verbatim>\<open>http.Header\<close> that the proxies touch.
  A header is a Go map from canonical names to lists of values; an entry with the empty
  list is the nil slice. A body is what successive reads deliver, with the error of the last
  one. A response writer is the record of what was written to it.
\<close>

named_theorems http_defs \<open>definitions of the header operations\<close>

subsection \<open>Headers\<close>

type_synonym header = "(string, string list) gomap"

definition upper_case :: string where
  "upper_case = ''ABCDEFGHIJKLMNOPQRSTUVWXYZ''"

definition lower_case :: string where
  "lower_case = ''abcdefghijklmnopqrstuvwxyz''"

definition to_upper :: "char \<Rightarrow> char" where
  "to_upper c = (case map_of (zip lower_case upper_case) c of None \<Rightarrow> c | Some d \<Rightarrow> d)"

definition to_lower :: "char \<Rightarrow> char" where
  "to_lower c = (case map_of (zip upper_case lower_case) c of None \<Rightarrow> c | Some d \<Rightarrow> d)"

definition token_byte :: "char \<Rightarrow> bool" where
  \<comment> \<open>\<^verbatim>\<open>validHeaderFieldByte\<close>\<close>
  "token_byte c \<longleftrightarrow> c \<in> set (upper_case @ lower_case @ ''0123456789!#$%&*+-.^_|~'' @ [CHR 0x27, CHR 0x60])"

fun canonical_bytes :: "bool \<Rightarrow> string \<Rightarrow> string" where
  "canonical_bytes upper [] = []"
| "canonical_bytes upper (c # cs) =
     (if upper then to_upper c else to_lower c) # canonical_bytes (c = CHR ''-'') cs"

definition CanonicalHeaderKey :: "string \<Rightarrow> string" where
  "CanonicalHeaderKey k = (if list_all token_byte k then canonical_bytes True k else k)"

definition header_values :: "header \<Rightarrow> string \<Rightarrow> string list" where
  \<comment> \<open>\<^verbatim>\<open>h[k]\<close>\<close>
  "header_values h k = (case map_of h k of None \<Rightarrow> [] | Some vs \<Rightarrow> vs)"

definition header_Get :: "header \<Rightarrow> string \<Rightarrow> string" where
  [http_defs]: "header_Get h k = (case header_values h (CanonicalHeaderKey k) of [] \<Rightarrow> '''' | v # _ \<Rightarrow> v)"

definition header_Set :: "header \<Rightarrow> string \<Rightarrow> string \<Rightarrow> header" where
  [http_defs]: "header_Set h k v = AList.update (CanonicalHeaderKey k) [v] h"

definition header_Add :: "header \<Rightarrow> string \<Rightarrow> string \<Rightarrow> header" where
  [http_defs]:
  "header_Add h k v = AList.update (CanonicalHeaderKey k) (header_values h (CanonicalHeaderKey k) @ [v]) h"

definition header_Del :: "header \<Rightarrow> string \<Rightarrow> header" where
  [http_defs]: "header_Del h k = AList.delete (CanonicalHeaderKey k) h"

subsection \<open>Messages\<close>

record url =
  u_Scheme :: string
  u_Host :: string
  u_Path :: string
  u_RawPath :: string
  u_RawQuery :: string

record body =
  bd_chunks :: "bytes list"
  bd_end :: read_error

record http_request =
  rq_Method :: string
  rq_URL :: url
  rq_Header :: header
  rq_Host :: string
  rq_RemoteAddr :: string
  rq_Close :: bool
  rq_ContentLength :: int
  rq_Body :: "body option"

record http_response =
  rs_StatusCode :: nat
  rs_Header :: header
  rs_Body :: body
  rs_ContentLength :: int
  rs_Trailer :: header

record request_info =
  ri_IsResourceRequest :: bool
  ri_Path :: string
  ri_Verb :: string
  ri_APIGroup :: string
  ri_APIVersion :: string
  ri_Namespace :: string
  ri_Resource :: string
  ri_Subresource :: string
  ri_Name :: string

definition UserAgent :: "http_request \<Rightarrow> string" where
  "UserAgent r = header_Get (rq_Header r) ''User-Agent''"

definition read_all :: "body \<Rightarrow> bytes + read_error" where
  \<comment> \<open>\<^verbatim>\<open>ioutil.ReadAll\<close>: the left value is the complete body\<close>
  "read_all b = (case bd_end b of EOF \<Rightarrow> Inl (concat (bd_chunks b)) | e \<Rightarrow> Inr e)"

subsection \<open>Laws of headers\<close>

lemma header_values_simps [simp]: "header_values [] k = []"
  by (simp add: header_values_def)

lemma header_values_update [simp]:
  "header_values (AList.update k vs h) j = (if j = k then vs else header_values h j)"
  by (simp add: header_values_def update_conv')

lemma header_values_delete [simp]:
  "header_values (AList.delete k h) j = (if j = k then [] else header_values h j)"
  by (simp add: header_values_def delete_conv')

lemma header_ok_update [simp]: "gomap_ok h \<Longrightarrow> gomap_ok (AList.update k vs h)"
  by (simp add: gomap_ok_def distinct_update)

lemma header_ok_delete [simp]: "gomap_ok h \<Longrightarrow> gomap_ok (AList.delete k h)"
  by (simp add: gomap_ok_def distinct_delete)

lemma canonical_keys [simp]:
  "CanonicalHeaderKey ''User-Agent'' = ''User-Agent''"
  "CanonicalHeaderKey ''Content-Type'' = ''Content-Type''"
  "CanonicalHeaderKey ''Content-Length'' = ''Content-Length''"
  "CanonicalHeaderKey ''Content-Encoding'' = ''Content-Encoding''"
  "CanonicalHeaderKey ''OLD-RAW-QUERY'' = ''Old-Raw-Query''"
  "CanonicalHeaderKey ''Connection'' = ''Connection''"
  "CanonicalHeaderKey ''Upgrade'' = ''Upgrade''"
  "CanonicalHeaderKey ''X-Forwarded-For'' = ''X-Forwarded-For''"
  "CanonicalHeaderKey ''Trailer'' = ''Trailer''"
  "CanonicalHeaderKey ''Te'' = ''Te''"
  by code_simp+

end
