(* ===== verification/Apiserver_Router.thy ===== *)
theory Apiserver_Router
  imports Http_Types Spec_Manager
begin

section \<open>Routing API-server requests (\<^verbatim>\<open>proxy/apiserver/router\<close>, \<^verbatim>\<open>util/discovery\<close>)\<close>

text \<open>
  What the API-server proxy does with a request and its response: discovery of the
  requested resource, the decision to reject, forward or rewrite a request, the injection
  of the object selector into the query, and the filtering of list responses and watch
  events.

  The handlers hold the spec of the spec manager while they work: \<^verbatim>\<open>AcquireSpec\<close> is the read
  of the current spec, \<^verbatim>\<open>ReleaseSpec\<close> adds the record of the request to the history. Each
  handler is a function of the acquired spec that returns its result and the record; the
  operation on the manager is composed from it. \<^const>\<open>None\<close> is a nil dereference.

  Parameters, in the records \<open>selector_lib\<close> and \<open>serial_lib\<close>: parsing and printing label
  selectors, media types, gzip, the codecs of the vendored packages, and the split of a
  streamed body into frames.
\<close>

named_theorems router_defs \<open>definitions of the router\<close>

subsection \<open>Discovery\<close>

record group_version_resource =
  gvr_Group :: string
  gvr_Version :: string
  gvr_Resource :: string

record api_resource =
  apr_Name :: string
  apr_Group :: string
  apr_Version :: string
  apr_Kind :: string

datatype discovery_error =
    NoDiscoveryClient
  | ResourceNotFound
  | ServerError bool string

fun IsNotFound :: "discovery_error \<Rightarrow> bool" where
  "IsNotFound NoDiscoveryClient = False"
| "IsNotFound ResourceNotFound = True"
| "IsNotFound (ServerError notFound _) = notFound"

type_synonym resource_cache = "(group_version_resource, api_resource) gomap"

fun find_resource :: "group_version_resource \<Rightarrow> api_resource list \<Rightarrow> discovery_error + api_resource" where
  \<comment> \<open>the loop over \<^verbatim>\<open>resourceList.APIResources\<close>\<close>
  "find_resource gvr [] = Inl ResourceNotFound"
| "find_resource gvr (r # rs) =
     (if apr_Name r \<noteq> gvr_Resource gvr then find_resource gvr rs
      else Inr (r\<lparr>apr_Group := gvr_Group gvr, apr_Version := gvr_Version gvr\<rparr>))"

definition discover_once ::
    "group_version_resource \<Rightarrow> discovery_error + api_resource list \<Rightarrow> discovery_error + api_resource" where
  "discover_once gvr answer = (case answer of Inl e \<Rightarrow> Inl e | Inr rs \<Rightarrow> find_resource gvr rs)"

fun retry_OnError :: "nat \<Rightarrow> (nat \<Rightarrow> 'e + 'a) \<Rightarrow> 'e + 'a" where
  \<comment> \<open>every error is retried; the argument counts the steps that are left, the result of the
      last attempt is returned\<close>
  "retry_OnError 0 f = f 0"
| "retry_OnError (Suc n) f = (case f (Suc n) of Inr a \<Rightarrow> Inr a | Inl _ \<Rightarrow> retry_OnError n f)"

definition DiscoverGVR ::
    "bool \<Rightarrow> (nat \<Rightarrow> discovery_error + api_resource list) \<Rightarrow> group_version_resource \<Rightarrow> resource_cache
     \<Rightarrow> (discovery_error + api_resource) \<times> resource_cache" where
  \<comment> \<open>\<^verbatim>\<open>retry.DefaultBackoff\<close> has four steps\<close>
  "DiscoverGVR hasClient answers gvr cache =
     (case map_of cache gvr of
        Some val \<Rightarrow> (Inr val, cache)
      | None \<Rightarrow>
          if \<not> hasClient then (Inl NoDiscoveryClient, cache)
          else (case retry_OnError 3 (\<lambda>i. discover_once gvr (answers i)) of
                  Inl e \<Rightarrow> (Inl e, cache)
                | Inr r \<Rightarrow> (Inr r, AList.update gvr r cache)))"

subsection \<open>Injecting the object selector\<close>

record selector_lib =
  sl_parse :: "string \<Rightarrow> label_selector option"
  sl_print :: "selector \<Rightarrow> string"

datatype inject_error =
    BadQuery string
  | BadEscape string
  | BadSelector string
  | BadOperator string

definition labelSelectorKey :: string where
  "labelSelectorKey = ''labelSelector''"

definition old_selector :: "selector_lib \<Rightarrow> labels \<Rightarrow> inject_error + label_selector option" where
  \<comment> \<open>the selector of the client\<close>
  [router_defs]:
  "old_selector sl raw =
     (case map_of raw labelSelectorKey of
        None \<Rightarrow> Inr None
      | Some escaped \<Rightarrow>
          (case QueryUnescape escaped of
             None \<Rightarrow> Inl (BadEscape escaped)
           | Some s \<Rightarrow> (case sl_parse sl s of None \<Rightarrow> Inl (BadSelector s) | Some l \<Rightarrow> Inr (Some l))))"

definition injectSelector :: "selector_lib \<Rightarrow> label_selector \<Rightarrow> http_request \<Rightarrow> inject_error + http_request" where
  [router_defs]:
  "injectSelector sl sel httpReq =
     (let rawQuery = u_RawQuery (rq_URL httpReq) in
      case ParseRawQuery rawQuery of
        Inl e \<Rightarrow> Inl (BadQuery e)
      | Inr raw \<Rightarrow>
          (case old_selector sl raw of
             Inl e \<Rightarrow> Inl e
           | Inr oldLabelSelector \<Rightarrow>
               (case ValidatedLabelSelectorAsSelector (MergeLabelSelector (Some sel) oldLabelSelector) of
                  Inl op \<Rightarrow> Inl (BadOperator op)
                | Inr selector \<Rightarrow>
                    Inr (httpReq\<lparr>
                      rq_Header := header_Add (rq_Header httpReq) ''OLD-RAW-QUERY'' rawQuery,
                      rq_URL := (rq_URL httpReq)\<lparr>u_RawQuery :=
                        MarshalRawQuery (AList.update labelSelectorKey (QueryEscape (sl_print sl selector)) raw)\<rparr>\<rparr>))))"

subsection \<open>The decision on a request\<close>

datatype route_msg =
    DiscoveryFailed group_version_resource discovery_error
  | InjectFailed label_selector inject_error
  | UserAgentDenied
  | NotMatchSubsetRules

record route_error =
  er_Code :: nat
  er_Msg :: route_msg

record handler_config =
  hc_httpReq :: http_request
  hc_reqInfo :: request_info
  hc_groupResource :: group_resource
  hc_apiResource :: api_resource
  hc_userAgentDenied :: bool

datatype route_accept =
    AcceptPlain
  | AcceptList handler_config
  | AcceptWatch handler_config

definition request_gvr :: "request_info \<Rightarrow> group_version_resource" where
  "request_gvr ri = \<lparr>gvr_Group = ri_APIGroup ri, gvr_Version = ri_APIVersion ri, gvr_Resource = ri_Resource ri\<rparr>"

definition gvr_GroupResource :: "group_version_resource \<Rightarrow> group_resource" where
  "gvr_GroupResource gvr = \<lparr>gr_Group = gvr_Group gvr, gr_Resource = gvr_Resource gvr\<rparr>"

definition user_agent_record :: "group_resource \<Rightarrow> string \<Rightarrow> bool \<Rightarrow> resource_request" where
  [router_defs]:
  "user_agent_record gr userAgent matched =
     \<lparr>rr_GR = gr, rr_ObjectSelector = None, rr_NamespacePassed = [], rr_NamespaceDenied = [],
      rr_UserAgentPassed = (if matched then Some userAgent else None),
      rr_UserAgentDenied = (if matched then None else Some userAgent)\<rparr>"

definition accept_stream ::
    "http_request \<Rightarrow> request_info \<Rightarrow> api_resource \<Rightarrow> bool \<Rightarrow> route_accept" where
  "accept_stream httpReq ri apiResource userAgentMatched =
     (let conf = \<lparr>hc_httpReq = httpReq, hc_reqInfo = ri, hc_groupResource = gvr_GroupResource (request_gvr ri),
                  hc_apiResource = apiResource, hc_userAgentDenied = \<not> userAgentMatched\<rparr>
      in if ri_Verb ri = ''list'' then AcceptList conf else AcceptWatch conf)"

definition Route_with ::
    "selector_lib \<Rightarrow> discovery_error + api_resource \<Rightarrow> internal_spec \<Rightarrow> http_request \<Rightarrow> request_info
     \<Rightarrow> (http_request \<times> (route_error + route_accept) \<times> resource_request) option" where
  \<comment> \<open>the body of \<^verbatim>\<open>Route\<close> for a resource request, with the acquired spec: the request as it is
      afterwards, the result, and the record for the history\<close>
  "Route_with sl discovered protoSpec httpReq ri =
     (let gvr = request_gvr ri; gr = gvr_GroupResource gvr; userAgent = UserAgent httpReq in
      do { matched \<leftarrow> IsUserAgentMatch protoSpec userAgent;
           let rr = user_agent_record gr userAgent matched in
           case discovered of
             Inl err \<Rightarrow>
               if IsNotFound err then Some (httpReq, Inr AcceptPlain, rr)
               else Some (httpReq, Inl \<lparr>er_Code = 404, er_Msg = DiscoveryFailed gvr err\<rparr>, rr)
           | Inr apiResource \<Rightarrow>
               if ri_Verb ri = ''list'' \<or> ri_Verb ri = ''watch'' then
                 do { objectSelector \<leftarrow> GetObjectSelector protoSpec gr;
                      case objectSelector of
                        None \<Rightarrow> Some (httpReq, Inr (accept_stream httpReq ri apiResource matched), rr)
                      | Some sel \<Rightarrow>
                          (case injectSelector sl sel httpReq of
                             Inl err \<Rightarrow> Some (httpReq, Inl \<lparr>er_Code = 500, er_Msg = InjectFailed sel err\<rparr>, rr)
                           | Inr httpReq' \<Rightarrow>
                               Some (httpReq', Inr (accept_stream httpReq' ri apiResource matched),
                                     rr\<lparr>rr_ObjectSelector := Some sel\<rparr>)) }
               else if \<not> matched then Some (httpReq, Inl \<lparr>er_Code = 403, er_Msg = UserAgentDenied\<rparr>, rr)
               else do { ok \<leftarrow> IsNamespaceMatch protoSpec (ri_Namespace ri) gr;
                         if \<not> ok then Some (httpReq, Inl \<lparr>er_Code = 403, er_Msg = NotMatchSubsetRules\<rparr>, rr)
                         else Some (httpReq, Inr AcceptPlain, rr) } })"

record router_env =
  re_codec :: codec
  re_selectors :: selector_lib
  re_hasClient :: bool
  re_answers :: "group_version_resource \<Rightarrow> nat \<Rightarrow> discovery_error + api_resource list"

definition Route ::
    "router_env \<Rightarrow> http_request \<Rightarrow> request_info \<Rightarrow> spec_manager \<times> resource_cache
     \<Rightarrow> ((http_request \<times> (route_error + route_accept)) \<times> spec_manager \<times> resource_cache) option" where
  "Route re httpReq ri st =
     (if \<not> ri_IsResourceRequest ri then Some ((httpReq, Inr AcceptPlain), st)
      else (let gvr = request_gvr ri;
                (discovered, cache) = DiscoverGVR (re_hasClient re) (re_answers re gvr) gvr (snd st)
            in do { protoSpec \<leftarrow> smg_currentSpec (fst st);
                    (httpReq', result, rr) \<leftarrow> Route_with (re_selectors re) discovered protoSpec httpReq ri;
                    sm \<leftarrow> ReleaseSpec (re_codec re) (Some rr) (fst st);
                    Some ((httpReq', result), sm, cache) }))"

subsection \<open>Objects\<close>

datatype json =
    JNull
  | JBool bool
  | JNumber string
  | JString string
  | JArray "json list"
  | JObject "(string \<times> json) list"

record typed_item =
  \<comment> \<open>the namespace is missing for an object without metadata\<close>
  ti_Namespace :: "string option"
  ti_Body :: bytes

record typed_object =
  \<comment> \<open>the items are missing for a type without that field\<close>
  to_Items :: "typed_item list option"
  to_Object :: typed_item

datatype runtime_object =
    Unstructured "(string \<times> json) list"
  | Typed typed_object

fun nested_string :: "string list \<Rightarrow> json \<Rightarrow> string" where
  \<comment> \<open>\<^verbatim>\<open>getNestedString\<close>\<close>
  "nested_string [] (JString s) = s"
| "nested_string (f # fs) (JObject kvs) =
     (case map_of kvs f of None \<Rightarrow> '''' | Some v \<Rightarrow> nested_string fs v)"
| "nested_string _ _ = ''''"

definition unstructured_namespace :: "(string \<times> json) list \<Rightarrow> string" where
  "unstructured_namespace obj = nested_string [''metadata'', ''namespace''] (JObject obj)"

definition IsListType :: "runtime_object \<Rightarrow> bool" where
  "IsListType obj =
     (case obj of
        Unstructured kvs \<Rightarrow> (case map_of kvs ''items'' of Some (JArray _) \<Rightarrow> True | _ \<Rightarrow> False)
      | Typed t \<Rightarrow> to_Items t \<noteq> None)"

definition Accessor :: "runtime_object \<Rightarrow> string option" where
  \<comment> \<open>\<^verbatim>\<open>apimeta.Accessor(obj)\<close> followed by \<^verbatim>\<open>GetNamespace()\<close>\<close>
  "Accessor obj =
     (case obj of Unstructured kvs \<Rightarrow> Some (unstructured_namespace kvs) | Typed t \<Rightarrow> ti_Namespace (to_Object t))"

subsection \<open>Filtering a list\<close>

datatype filter_error = NotAList | NotAnObject

definition note_namespace :: "bool \<Rightarrow> string \<Rightarrow> resource_request \<Rightarrow> resource_request" where
  [router_defs]:
  "note_namespace passed ns rr =
     (if ns = '''' then rr
      else if passed then rr\<lparr>rr_NamespacePassed := set_insert (rr_NamespacePassed rr) ns\<rparr>
      else rr\<lparr>rr_NamespaceDenied := set_insert (rr_NamespaceDenied rr) ns\<rparr>)"

definition acquired_match :: "internal_spec option \<Rightarrow> string \<Rightarrow> group_resource \<Rightarrow> bool option" where
  \<comment> \<open>\<^verbatim>\<open>protoSpec.IsNamespaceMatch(ns, gr)\<close> on the acquired pointer\<close>
  "acquired_match protoSpec ns gr = do { s \<leftarrow> protoSpec; IsNamespaceMatch s ns gr }"

fun filter_unstructured ::
    "internal_spec option \<Rightarrow> group_resource \<Rightarrow> json list \<Rightarrow> json list \<Rightarrow> resource_request
     \<Rightarrow> ((filter_error + json list) \<times> resource_request) option" where
  "filter_unstructured sp gr newItems [] rr = Some (Inr newItems, rr)"
| "filter_unstructured sp gr newItems (item # items) rr =
     (case item of
        JObject child \<Rightarrow>
          (let ns = unstructured_namespace child in
           do { ok \<leftarrow> acquired_match sp ns gr;
                if ok then filter_unstructured sp gr (newItems @ [item]) items (note_namespace True ns rr)
                else filter_unstructured sp gr newItems items (note_namespace False ns rr) })
      | _ \<Rightarrow> Some (Inl NotAnObject, rr))"

fun filter_typed ::
    "internal_spec option \<Rightarrow> group_resource \<Rightarrow> typed_item list \<Rightarrow> typed_item list \<Rightarrow> resource_request
     \<Rightarrow> (typed_item list \<times> resource_request) option" where
  "filter_typed sp gr newObjs [] rr = Some (newObjs, rr)"
| "filter_typed sp gr newObjs (obj # objs) rr =
     (case ti_Namespace obj of
        None \<Rightarrow> filter_typed sp gr (newObjs @ [obj]) objs rr
      | Some ns \<Rightarrow>
          do { ok \<leftarrow> acquired_match sp ns gr;
               if ok then filter_typed sp gr (newObjs @ [obj]) objs (note_namespace True ns rr)
               else filter_typed sp gr newObjs objs (note_namespace False ns rr) })"

definition empty_record :: "group_resource \<Rightarrow> resource_request" where
  "empty_record gr =
     \<lparr>rr_GR = gr, rr_ObjectSelector = None, rr_NamespacePassed = [], rr_NamespaceDenied = [],
      rr_UserAgentPassed = None, rr_UserAgentDenied = None\<rparr>"

definition slice_json :: "json list \<Rightarrow> json" where
  \<comment> \<open>\<^verbatim>\<open>newItems\<close> as a field of the object: no append leaves the slice nil, which is encoded as null\<close>
  "slice_json newItems = (if newItems = [] then JNull else JArray newItems)"

definition filterItems_with ::
    "internal_spec option \<Rightarrow> group_resource \<Rightarrow> runtime_object
     \<Rightarrow> ((filter_error option \<times> runtime_object) \<times> resource_request) option" where
  \<comment> \<open>the body of \<^verbatim>\<open>filterItems\<close> below the check of the user agent\<close>
  "filterItems_with sp gr obj =
     (case obj of
        Unstructured kvs \<Rightarrow>
          (case map_of kvs ''items'' of
             Some (JArray items) \<Rightarrow>
               do { (res, rr) \<leftarrow> filter_unstructured sp gr [] items (empty_record gr);
                    Some ((case res of
                             Inl e \<Rightarrow> (Some e, obj)
                           | Inr newItems \<Rightarrow> (None, Unstructured (AList.update ''items'' (slice_json newItems) kvs))), rr) }
           | _ \<Rightarrow> Some ((Some NotAList, obj), empty_record gr))
      | Typed t \<Rightarrow>
          (case to_Items t of
             None \<Rightarrow> Some ((Some NotAList, obj), empty_record gr)
           | Some objs \<Rightarrow>
               do { (newObjs, rr) \<leftarrow> filter_typed sp gr [] objs (empty_record gr);
                    Some ((None, Typed (t\<lparr>to_Items := Some newObjs\<rparr>)), rr) }))"

definition filterItems ::
    "codec \<Rightarrow> handler_config \<Rightarrow> runtime_object \<Rightarrow> spec_manager
     \<Rightarrow> ((filter_error option \<times> runtime_object) \<times> spec_manager) option" where
  "filterItems cd h obj sm =
     (if hc_userAgentDenied h then
        Some ((None, case obj of
            Unstructured kvs \<Rightarrow> Unstructured (AList.update ''items'' (JArray []) kvs)
          | Typed t \<Rightarrow> Typed (case to_Items t of None \<Rightarrow> t | Some _ \<Rightarrow> t\<lparr>to_Items := Some []\<rparr>)), sm)
      else do { (res, rr) \<leftarrow> filterItems_with (smg_currentSpec sm) (hc_groupResource h) obj;
                sm' \<leftarrow> ReleaseSpec cd (Some rr) sm;
                Some (res, sm') })"

subsection \<open>Serializers\<close>

record watch_event =
  we_Type :: string
  we_Raw :: bytes

record serial_lib =
  se_parseMediaType :: "string \<Rightarrow> string option"
  se_newTyped :: "string \<Rightarrow> string \<Rightarrow> string \<Rightarrow> bool"
  se_negotiable :: "bool \<Rightarrow> string \<Rightarrow> bool"
  se_streamable :: "string \<Rightarrow> bool"
  se_decode :: "bool \<Rightarrow> bytes \<Rightarrow> runtime_object option"
  se_encode :: "runtime_object \<Rightarrow> bytes option"
  se_decodeEvent :: "bytes \<Rightarrow> watch_event option"
  se_encodeEvent :: "watch_event \<Rightarrow> bytes option"
  se_gunzip :: "body \<Rightarrow> body"
  se_gzip :: "bytes \<Rightarrow> bytes"
  se_gzipUnflushed :: "bytes \<Rightarrow> bytes"
  se_frames :: "body \<Rightarrow> frame_reader"
  se_capacity :: "bytes \<Rightarrow> nat"
  se_grown :: "nat \<Rightarrow> bytes \<Rightarrow> nat"

datatype serializer_error =
    NoMediaType
  | InvalidMediaType string
  | UnknownMediaType string
  | UnknownType string
  | NoCodec string

record response_serializer =
  sz_typed :: bool
  sz_gzip :: bool
  sz_buf :: "nat option"
  sz_body :: body
  sz_reader :: io_reader

definition newResponseSerializer ::
    "serial_lib \<Rightarrow> http_response \<Rightarrow> api_resource \<Rightarrow> bool \<Rightarrow> serializer_error + response_serializer" where
  "newResponseSerializer lib resp apiResource isStreaming =
     (let contentType = header_Get (rs_Header resp) ''Content-Type'' in
      if length contentType = 0 then Inl NoMediaType
      else (case se_parseMediaType lib contentType of
              None \<Rightarrow> Inl (InvalidMediaType contentType)
            | Some mediaType \<Rightarrow>
                (let json = (mediaType = ''application/json'' \<or> mediaType = ''application/yaml'');
                     kind = (if isStreaming then apr_Kind apiResource else apr_Kind apiResource @ ''List'')
                 in if \<not> json \<and> mediaType \<noteq> ''application/vnd.kubernetes.protobuf'' then Inl (UnknownMediaType mediaType)
                    else if \<not> json \<and> \<not> se_newTyped lib (apr_Group apiResource) (apr_Version apiResource) kind
                    then Inl (UnknownType kind)
                    else if \<not> se_negotiable lib (\<not> json) mediaType then Inl (NoCodec contentType)
                    else if isStreaming \<and> \<not> se_streamable lib mediaType then Inl (NoCodec contentType)
                    else (let gzip = (header_Get (rs_Header resp) ''Content-Encoding'' = ''gzip'');
                              bodyReader = (if gzip then se_gunzip lib (rs_Body resp) else rs_Body resp)
                          in Inr \<lparr>sz_typed = \<not> json, sz_gzip = gzip, sz_buf = None, sz_body = bodyReader,
                                  sz_reader = \<lparr>ior_reader = se_frames lib bodyReader, ior_resetRead = False\<rparr>\<rparr>))))"

definition Release :: "response_serializer \<Rightarrow> bytes_pool \<Rightarrow> bytes_pool" where
  "Release s bp = (case sz_buf s of None \<Rightarrow> bp | Some capacity \<Rightarrow> pool_Put capacity bp)"

definition resetBuf :: "response_serializer \<Rightarrow> bytes_pool \<Rightarrow> nat \<times> response_serializer \<times> bytes_pool" where
  \<comment> \<open>the capacity of the (now empty) buffer\<close>
  "resetBuf s bp =
     (case sz_buf s of
        Some capacity \<Rightarrow> (capacity, s, bp)
      | None \<Rightarrow> (case pool_Get bp of (capacity, bp') \<Rightarrow> (capacity, s\<lparr>sz_buf := Some capacity\<rparr>, bp')))"

datatype decode_error =
    StreamBroken read_error
  | ReadFailed read_error
  | StreamFailed stream_error
  | DecodeFailed
  | EncodeFailed

definition readOnce :: "body \<Rightarrow> decode_error + bytes" where
  "readOnce b =
     (case read_all b of
        Inl content \<Rightarrow> Inr content
      | Inr (ErrStream e) \<Rightarrow> Inl (StreamBroken (ErrStream e))
      | Inr e \<Rightarrow> Inl (ReadFailed e))"

definition DecodeList :: "serial_lib \<Rightarrow> response_serializer \<Rightarrow> (decode_error + runtime_object) \<times> response_serializer" where
  \<comment> \<open>the slice of the body becomes the buffer\<close>
  "DecodeList lib s =
     (case readOnce (sz_body s) of
        Inl e \<Rightarrow> (Inl e, s)
      | Inr content \<Rightarrow>
          (let s = s\<lparr>sz_buf := Some (se_capacity lib content)\<rparr> in
           case se_decode lib (sz_typed s) content of
             None \<Rightarrow> (Inl DecodeFailed, s)
           | Some obj \<Rightarrow> (Inr obj, s)))"

definition EncodeList ::
    "serial_lib \<Rightarrow> runtime_object \<Rightarrow> response_serializer \<Rightarrow> bytes_pool
     \<Rightarrow> (decode_error + bytes) \<times> response_serializer \<times> bytes_pool" where
  "EncodeList lib obj s bp =
     (case resetBuf s bp of (capacity, s, bp) \<Rightarrow>
        (case se_encode lib obj of
           None \<Rightarrow> (Inl EncodeFailed, s, bp)
         | Some content \<Rightarrow>
             (let written = (if sz_gzip s then se_gzip lib content else content)
              in (Inr written, s\<lparr>sz_buf := Some (se_grown lib capacity written)\<rparr>, bp))))"

definition DecodeWatch ::
    "serial_lib \<Rightarrow> response_serializer \<Rightarrow> bytes_pool
     \<Rightarrow> (decode_error + watch_event \<times> runtime_object option) \<times> response_serializer \<times> bytes_pool" where
  "DecodeWatch lib s bp =
     (case resetBuf s bp of (capacity, s, bp) \<Rightarrow>
        (case readStreaming capacity [] (sz_reader s) of (data, err, capacity', rd) \<Rightarrow>
           (let s = s\<lparr>sz_buf := Some capacity', sz_reader := rd\<rparr> in
            case err of
              Some e \<Rightarrow> (Inl (StreamFailed e), s, bp)
            | None \<Rightarrow>
                (case se_decodeEvent lib data of
                   None \<Rightarrow> (Inl DecodeFailed, s, bp)
                 | Some event \<Rightarrow>
                     if we_Type event \<in> set [''ADDED'', ''MODIFIED'', ''DELETED''] then
                       (case se_decode lib (sz_typed s) (we_Raw event) of
                          None \<Rightarrow> (Inl DecodeFailed, s, bp)
                        | Some obj \<Rightarrow> (Inr (event, Some obj), s, bp))
                     else (Inr (event, None), s, bp)))))"

definition EncodeWatch ::
    "serial_lib \<Rightarrow> watch_event \<Rightarrow> response_serializer \<Rightarrow> bytes_pool
     \<Rightarrow> (decode_error + bytes) \<times> response_serializer \<times> bytes_pool" where
  \<comment> \<open>the gzip writer is closed after the bytes were taken from the buffer\<close>
  "EncodeWatch lib e s bp =
     (case resetBuf s bp of (capacity, s, bp) \<Rightarrow>
        (case se_encodeEvent lib e of
           None \<Rightarrow> (Inl EncodeFailed, s, bp)
         | Some content \<Rightarrow>
             (let written = (if sz_gzip s then se_gzipUnflushed lib content else content)
              in (Inr written, s\<lparr>sz_buf := Some (se_grown lib capacity written)\<rparr>, bp))))"

subsection \<open>Responses\<close>

datatype handle_error = SerializerFailed serializer_error | BodyFailed decode_error

record proxy_state =
  \<comment> \<open>what a handler of a response changes besides the response\<close>
  px_manager :: spec_manager
  px_pool :: bytes_pool

definition listHandler_handle ::
    "serial_lib \<Rightarrow> codec \<Rightarrow> handler_config \<Rightarrow> http_response \<Rightarrow> proxy_state
     \<Rightarrow> ((handle_error option \<times> http_response) \<times> proxy_state) option" where
  \<comment> \<open>an error of \<open>filterItems\<close> is logged only; the buffer of a sent body goes back to the pool
      when the body is closed\<close>
  "listHandler_handle lib cd h resp st =
     (if rs_StatusCode resp < 200 \<or> rs_StatusCode resp > 206 then Some ((None, resp), st)
      else (case newResponseSerializer lib resp (hc_apiResource h) False of
              Inl e \<Rightarrow> Some ((Some (SerializerFailed e), resp), st)
            | Inr s \<Rightarrow>
                (case DecodeList lib s of
                   (Inl e, s) \<Rightarrow> Some ((Some (BodyFailed e), resp), st\<lparr>px_pool := Release s (px_pool st)\<rparr>)
                 | (Inr obj, s) \<Rightarrow>
                     do { (obj, sm) \<leftarrow>
                            (if IsListType obj
                             then map_option (\<lambda>((_, obj'), sm). (obj', sm)) (filterItems cd h obj (px_manager st))
                             else Some (obj, px_manager st));
                          case EncodeList lib obj s (px_pool st) of
                            (Inl e, s, bp) \<Rightarrow>
                              Some ((Some (BodyFailed e), resp), \<lparr>px_manager = sm, px_pool = Release s bp\<rparr>)
                          | (Inr content, s, bp) \<Rightarrow>
                              Some ((None, resp\<lparr>
                                rs_Body := \<lparr>bd_chunks = [content], bd_end = EOF\<rparr>,
                                rs_Header := header_Set (rs_Header resp) ''Content-Length'' (itoa (int (length content))),
                                rs_ContentLength := int (length content)\<rparr>),
                               \<lparr>px_manager = sm, px_pool = bp\<rparr>) })))"

definition serializer_Close :: "response_serializer \<Rightarrow> proxy_state \<Rightarrow> proxy_state" where
  \<comment> \<open>\<^verbatim>\<open>serializerReaderCloser.Close\<close>\<close>
  "serializer_Close s st = st\<lparr>px_pool := Release s (px_pool st)\<rparr>"

record watch_handler =
  wh_config :: handler_config
  wh_respSerializer :: response_serializer
  wh_remaining :: bytes

definition watchHandler_handle ::
    "serial_lib \<Rightarrow> handler_config \<Rightarrow> http_response \<Rightarrow> watch_handler option" where
  \<comment> \<open>\<^const>\<open>None\<close>: the body is passed on as it is\<close>
  "watchHandler_handle lib h resp =
     (if rs_StatusCode resp \<noteq> 200 then None
      else (case newResponseSerializer lib resp (hc_apiResource h) True of
              Inl _ \<Rightarrow> None
            | Inr s \<Rightarrow> Some \<lparr>wh_config = h, wh_respSerializer = s, wh_remaining = []\<rparr>))"

definition filterEvent_with ::
    "internal_spec option \<Rightarrow> group_resource \<Rightarrow> watch_event \<Rightarrow> string \<Rightarrow> (watch_event \<times> resource_request) option" where
  "filterEvent_with sp gr e ns =
     do { ok \<leftarrow> acquired_match sp ns gr;
          Some (if \<not> ok
                then (e\<lparr>we_Type := ''BOOKMARK''\<rparr>, (empty_record gr)\<lparr>rr_NamespaceDenied := NewString [ns]\<rparr>)
                else (e, (empty_record gr)\<lparr>rr_NamespacePassed := NewString [ns]\<rparr>)) }"

definition filterEvent ::
    "codec \<Rightarrow> handler_config \<Rightarrow> watch_event \<Rightarrow> runtime_object \<Rightarrow> spec_manager
     \<Rightarrow> ((filter_error option \<times> watch_event) \<times> spec_manager) option" where
  "filterEvent cd h e obj sm =
     (if hc_userAgentDenied h then Some ((None, e\<lparr>we_Type := ''BOOKMARK''\<rparr>), sm)
      else (case Accessor obj of
              None \<Rightarrow> Some ((Some NotAnObject, e), sm)
            | Some ns \<Rightarrow>
                do { (e', rr) \<leftarrow> filterEvent_with (smg_currentSpec sm) (hc_groupResource h) e ns;
                     sm' \<leftarrow> ReleaseSpec cd (Some rr) sm;
                     Some ((None, e'), sm') }))"

datatype watch_error = WatchCanceled | WatchDecode decode_error | WatchFilter filter_error

definition watchHandler_read ::
    "serial_lib \<Rightarrow> codec \<Rightarrow> bool \<Rightarrow> watch_handler \<Rightarrow> proxy_state
     \<Rightarrow> ((watch_error + bytes) \<times> watch_handler \<times> proxy_state) option" where
  \<comment> \<open>\<open>canceled\<close>: the context of the request is done before the next event is decoded\<close>
  "watchHandler_read lib cd canceled h st =
     (if canceled then Some (Inl WatchCanceled, h, st)
      else (case DecodeWatch lib (wh_respSerializer h) (px_pool st) of
              (Inl e, s, bp) \<Rightarrow> Some (Inl (WatchDecode e), h\<lparr>wh_respSerializer := s\<rparr>, st\<lparr>px_pool := bp\<rparr>)
            | (Inr (e, obj), s, bp) \<Rightarrow>
                do { ((err, e), sm) \<leftarrow>
                       (case obj of
                          None \<Rightarrow> Some ((None, e), px_manager st)
                        | Some obj \<Rightarrow> filterEvent cd (wh_config h) e obj (px_manager st));
                     case err of
                       Some err \<Rightarrow> Some (Inl (WatchFilter err), h\<lparr>wh_respSerializer := s\<rparr>, \<lparr>px_manager = sm, px_pool = bp\<rparr>)
                     | None \<Rightarrow>
                         (case EncodeWatch lib e s bp of
                            (Inl err, s, bp) \<Rightarrow>
                              Some (Inl (WatchDecode err), h\<lparr>wh_respSerializer := s\<rparr>, \<lparr>px_manager = sm, px_pool = bp\<rparr>)
                          | (Inr content, s, bp) \<Rightarrow>
                              Some (Inr content, h\<lparr>wh_respSerializer := s\<rparr>, \<lparr>px_manager = sm, px_pool = bp\<rparr>)) }))"

definition watchHandler_Read ::
    "serial_lib \<Rightarrow> codec \<Rightarrow> bool \<Rightarrow> nat \<Rightarrow> watch_handler \<Rightarrow> proxy_state
     \<Rightarrow> ((watch_error + bytes) \<times> watch_handler \<times> proxy_state) option" where
  \<comment> \<open>a read into a slice of \<open>n\<close> bytes: what was written to it\<close>
  "watchHandler_Read lib cd canceled n h st =
     (if length (wh_remaining h) > 0 then
        (if length (wh_remaining h) \<le> n
         then Some (Inr (wh_remaining h), h\<lparr>wh_remaining := []\<rparr>, st)
         else Some (Inr (take n (wh_remaining h)), h\<lparr>wh_remaining := drop n (wh_remaining h)\<rparr>, st))
      else
        (case watchHandler_read lib cd canceled h st of
           None \<Rightarrow> Panic
         | Some (Inl err, h, st) \<Rightarrow>
             Some (Inl err, h, st\<lparr>px_pool := Release (wh_respSerializer h) (px_pool st)\<rparr>)
         | Some (Inr content, h, st) \<Rightarrow>
             if length content > n
             then Some (Inr (take n content), h\<lparr>wh_remaining := drop n content\<rparr>, st)
             else Some (Inr content, h, st)))"

subsection \<open>The records of the handlers\<close>

definition spec_selectors_ok :: "internal_spec \<Rightarrow> bool" where
  \<comment> \<open>the label maps decoded from the message have distinct keys, as Go's maps do\<close>
  "spec_selectors_ok sp \<longleftrightarrow> (\<forall>ir. is_routeInternal sp = Some ir \<longrightarrow> route_selectors_ok ir)"

lemma merge_all_ok:
  "(\<forall>s. sel = Some s \<longrightarrow> selector_ok s) \<Longrightarrow> \<forall>x\<in>set xs. selector_ok x \<Longrightarrow> merge_all sel xs = Some s \<Longrightarrow> selector_ok s"
proof (induction xs arbitrary: sel)
  case (Cons x xs)
  have "\<forall>s. MergeLabelSelector sel (Some x) = Some s \<longrightarrow> selector_ok s"
    using Cons.prems(1,2) by (auto simp: MergeLabelSelector_def selector_ok_merge split: option.splits)
  with Cons.IH [of "MergeLabelSelector sel (Some x)"] Cons.prems(2,3) show ?case by (simp add: merge_all_Cons)
qed simp

lemma object_selector_ok:
  assumes "route_selectors_ok ir" and "getObjectSelector ir gr = Some sel"
  shows "selector_ok sel"
  using assms merge_all_ok [of None "selector_parts ir gr"] selector_parts_ok [OF assms(1)]
  by (auto simp: getObjectSelector_eq)

lemma selector_deep_equal_refl: "selector_ok s \<Longrightarrow> selector_deep_equal s s"
  by (simp add: selector_deep_equal_def selector_ok_def)

lemma Route_with_record:
  assumes "Route_with sl discovered sp httpReq ri = Some (httpReq', res, rr)"
    and "spec_selectors_ok sp" and "CHR ''.'' \<notin> set (ri_Resource ri)"
  shows "request_from (Some sp) (Some rr)"
proof -
  let ?gr = "gvr_GroupResource (request_gvr ri)"
  obtain ir where ir: "is_routeInternal sp = Some ir"
    using assms(1) by (cases "is_routeInternal sp") (simp_all add: Route_with_def IsUserAgentMatch_def Let_def)
  let ?ua = "user_agent_record ?gr (UserAgent httpReq) (route_IsUserAgentMatch ir (UserAgent httpReq))"
  have ua: "decisions_agree ir ?ua" "rr_GR ?ua = ?gr" "rr_ObjectSelector ?ua = None"
    "decisions_agree ir (?ua\<lparr>rr_ObjectSelector := x\<rparr>)" for x
    by (auto simp: decisions_agree_def user_agent_record_def)
  have rr: "rr = ?ua \<or> (\<exists>sel. rr = ?ua\<lparr>rr_ObjectSelector := Some sel\<rparr> \<and> getObjectSelector ir ?gr = Some sel)"
    using assms(1)
    by (auto simp: Route_with_def IsUserAgentMatch_def GetObjectSelector_def IsNamespaceMatch_def ir Let_def
        split: sum.splits if_splits option.splits)
  have "selector_agrees ir (?ua\<lparr>rr_ObjectSelector := Some sel\<rparr>)" if "getObjectSelector ir ?gr = Some sel" for sel
    using that object_selector_ok [OF _ that] assms(2) ir
    by (auto simp: selector_agrees_def ua(2) spec_selectors_ok_def selector_deep_equal_refl)
  then show ?thesis
    using rr ua ir assms(3)
    by (auto simp: request_from_def gvr_GroupResource_def request_gvr_def)
qed

lemma note_namespace_sel [simp]:
  "rr_GR (note_namespace b ns rr) = rr_GR rr" "rr_ObjectSelector (note_namespace b ns rr) = rr_ObjectSelector rr"
  "rr_UserAgentPassed (note_namespace b ns rr) = rr_UserAgentPassed rr"
  "rr_UserAgentDenied (note_namespace b ns rr) = rr_UserAgentDenied rr"
  "set (rr_NamespacePassed (note_namespace b ns rr)) = set (rr_NamespacePassed rr) \<union> (if b \<and> ns \<noteq> '''' then {ns} else {})"
  "set (rr_NamespaceDenied (note_namespace b ns rr)) = set (rr_NamespaceDenied rr) \<union> (if \<not> b \<and> ns \<noteq> '''' then {ns} else {})"
  by (simp_all add: note_namespace_def)

lemma note_namespace_agrees:
  "decisions_agree ir rr \<Longrightarrow> rr_GR rr = gr \<Longrightarrow>
   decisions_agree ir (note_namespace (route_IsNamespaceMatch ir ns gr) ns rr)"
  by (auto simp: decisions_agree_def split: if_splits)

lemma acquired_match_Some: "is_routeInternal sp = Some ir \<Longrightarrow>
    acquired_match (Some sp) ns gr = Some (route_IsNamespaceMatch ir ns gr)"
  by (simp add: acquired_match_def IsNamespaceMatch_def)

lemma filter_unstructured_step:
  assumes "is_routeInternal sp = Some ir"
  shows "filter_unstructured (Some sp) gr acc (JObject kvs # items) rr =
    filter_unstructured (Some sp) gr
      (if route_IsNamespaceMatch ir (unstructured_namespace kvs) gr then acc @ [JObject kvs] else acc) items
      (note_namespace (route_IsNamespaceMatch ir (unstructured_namespace kvs) gr) (unstructured_namespace kvs) rr)"
  by (simp add: acquired_match_Some [OF assms] Let_def)

lemma filter_typed_step:
  assumes "is_routeInternal sp = Some ir" and "ti_Namespace obj = Some ns"
  shows "filter_typed (Some sp) gr acc (obj # objs) rr =
    filter_typed (Some sp) gr (if route_IsNamespaceMatch ir ns gr then acc @ [obj] else acc) objs
      (note_namespace (route_IsNamespaceMatch ir ns gr) ns rr)"
  by (simp add: acquired_match_Some [OF assms(1)] assms(2))

lemma filter_unstructured_agrees:
  assumes "is_routeInternal sp = Some ir"
  shows "filter_unstructured (Some sp) gr acc items rr = Some (res, rr') \<Longrightarrow>
    decisions_agree ir rr \<Longrightarrow> rr_GR rr = gr \<Longrightarrow>
    decisions_agree ir rr' \<and> rr_GR rr' = gr \<and> rr_ObjectSelector rr' = rr_ObjectSelector rr"
proof (induction items arbitrary: acc rr)
  case (Cons item items)
  show ?case
  proof (cases item)
    case (JObject kvs)
    let ?ns = "unstructured_namespace kvs"
    let ?rr = "note_namespace (route_IsNamespaceMatch ir ?ns gr) ?ns rr"
    from Cons.prems(1) have "filter_unstructured (Some sp) gr
        (if route_IsNamespaceMatch ir ?ns gr then acc @ [JObject kvs] else acc) items ?rr = Some (res, rr')"
      unfolding JObject filter_unstructured_step [OF assms] .
    from Cons.IH [OF this] note_namespace_agrees [OF Cons.prems(2,3)] Cons.prems(3) show ?thesis by simp
  qed (use Cons.prems in auto)
qed auto

lemma filter_typed_agrees:
  assumes "is_routeInternal sp = Some ir"
  shows "filter_typed (Some sp) gr acc objs rr = Some (res, rr') \<Longrightarrow>
    decisions_agree ir rr \<Longrightarrow> rr_GR rr = gr \<Longrightarrow>
    decisions_agree ir rr' \<and> rr_GR rr' = gr \<and> rr_ObjectSelector rr' = rr_ObjectSelector rr"
proof (induction objs arbitrary: acc rr)
  case (Cons obj objs)
  show ?case
  proof (cases "ti_Namespace obj")
    case None
    with Cons show ?thesis by auto
  next
    case (Some ns)
    from Cons.prems(1) have "filter_typed (Some sp) gr (if route_IsNamespaceMatch ir ns gr then acc @ [obj] else acc) objs
        (note_namespace (route_IsNamespaceMatch ir ns gr) ns rr) = Some (res, rr')"
      unfolding filter_typed_step [OF assms Some] .
    from Cons.IH [OF this] note_namespace_agrees [OF Cons.prems(2,3)] Cons.prems(3) show ?thesis by simp
  qed
qed auto

lemma empty_record_agrees [simp]: "decisions_agree ir (empty_record gr)" "rr_GR (empty_record gr) = gr"
  "rr_ObjectSelector (empty_record gr) = None"
  by (simp_all add: decisions_agree_def empty_record_def)

lemma filterItems_with_record:
  assumes "filterItems_with sp gr obj = Some (res, rr)" and "CHR ''.'' \<notin> set (gr_Resource gr)"
    and "sp = Some s" and "is_routeInternal s = Some ir"
  shows "request_from sp (Some rr)"
proof -
  have "decisions_agree ir rr \<and> rr_GR rr = gr \<and> rr_ObjectSelector rr = None"
    using assms(1)
      filter_unstructured_agrees [OF assms(4), of gr "[]" _ "empty_record gr"]
      filter_typed_agrees [OF assms(4), of gr "[]" _ "empty_record gr"]
    by (auto simp: filterItems_with_def assms(3) split: runtime_object.splits option.splits json.splits bind_splits)
  with assms show ?thesis by (simp add: request_from_def)
qed

lemma filterEvent_with_record:
  assumes "filterEvent_with sp gr e ns = Some (e', rr)" and "CHR ''.'' \<notin> set (gr_Resource gr)"
    and "sp = Some s" and "is_routeInternal s = Some ir"
  shows "request_from sp (Some rr)"
  using assms
  by (auto simp: filterEvent_with_def acquired_match_Some request_from_def decisions_agree_def empty_record_def
      split: if_splits)

lemma spec_manager_round:
  assumes "request_from (smg_currentSpec (sys_manager s)) (Some rr)"
    and "ReleaseSpec cd (Some rr) (sys_manager s) = Some sm"
  shows "(sm_step cd ju Specs)\<^sup>*\<^sup>* s (s\<lparr>sys_manager := sm\<rparr>)"
proof -
  let ?s = "s\<lparr>sys_readers := smg_currentSpec (sys_manager s) # sys_readers s\<rparr>"
  have "sm_step cd ju Specs s ?s" by (rule step_acquire)
  moreover have "sm_step cd ju Specs ?s (?s\<lparr>sys_manager := sm, sys_readers := [] @ sys_readers s\<rparr>)"
    using assms by (intro step_release [where spec = "smg_currentSpec (sys_manager s)"]) auto
  ultimately show ?thesis by (simp add: converse_rtranclp_into_rtranclp)
qed

subsection \<open>Properties\<close>

text \<open>
  C16. The handlers implement the readers of the spec manager. A routed request, a filtered
  list and a filtered event each change the spec manager by one acquire and one release of
  its transition system, with a record whose decisions are those of the spec held. So what
  holds in every reachable state of that system holds for the proxy. (Resource names have
  no dot, and the spec held has well-formed label maps.)
\<close>

theorem handlers_refine_spec_manager:
  assumes "smg_currentSpec (sys_manager s) = Some sp" and "spec_selectors_ok sp"
    and "CHR ''.'' \<notin> set (ri_Resource ri)" and "CHR ''.'' \<notin> set (gr_Resource (hc_groupResource h))"
  shows "(\<forall>res sm cache'. Route re httpReq ri (sys_manager s, cache) = Some (res, sm, cache') \<longrightarrow>
        (sm_step (re_codec re) ju Specs)\<^sup>*\<^sup>* s (s\<lparr>sys_manager := sm\<rparr>))
    \<and> (\<forall>res sm. is_routeInternal sp \<noteq> None \<longrightarrow> filterItems cd h obj (sys_manager s) = Some (res, sm) \<longrightarrow>
        (sm_step cd ju Specs)\<^sup>*\<^sup>* s (s\<lparr>sys_manager := sm\<rparr>))
    \<and> (\<forall>res sm. filterEvent cd h e obj (sys_manager s) = Some (res, sm) \<longrightarrow>
        (sm_step cd ju Specs)\<^sup>*\<^sup>* s (s\<lparr>sys_manager := sm\<rparr>))"
proof (intro conjI allI impI)
  fix res sm cache'
  assume r: "Route re httpReq ri (sys_manager s, cache) = Some (res, sm, cache')"
  show "(sm_step (re_codec re) ju Specs)\<^sup>*\<^sup>* s (s\<lparr>sys_manager := sm\<rparr>)"
  proof (cases "ri_IsResourceRequest ri")
    case False
    with r have "sm = sys_manager s" by (simp add: Route_def)
    then show ?thesis by simp
  next
    case True
    obtain d q x rr where w: "Route_with (re_selectors re) d sp httpReq ri = Some (q, x, rr)"
      and rel: "ReleaseSpec (re_codec re) (Some rr) (sys_manager s) = Some sm"
      using r True assms(1) by (auto simp: Route_def Let_def split: prod.splits bind_splits)
    show ?thesis
      using Route_with_record [OF w assms(2,3)] rel by (intro spec_manager_round) (simp_all add: assms(1))
  qed
next
  fix res sm
  assume ir: "is_routeInternal sp \<noteq> None" and f: "filterItems cd h obj (sys_manager s) = Some (res, sm)"
  show "(sm_step cd ju Specs)\<^sup>*\<^sup>* s (s\<lparr>sys_manager := sm\<rparr>)"
  proof (cases "hc_userAgentDenied h")
    case True
    with f have "sm = sys_manager s" by (simp add: filterItems_def)
    then show ?thesis by simp
  next
    case False
    then obtain rr where "filterItems_with (Some sp) (hc_groupResource h) obj = Some (res, rr)"
      "ReleaseSpec cd (Some rr) (sys_manager s) = Some sm"
      using f assms(1) by (auto simp: filterItems_def split: prod.splits bind_splits)
    then show ?thesis
      using ir assms(4) by (intro spec_manager_round) (auto simp: assms(1) intro: filterItems_with_record)
  qed
next
  fix res sm
  assume f: "filterEvent cd h e obj (sys_manager s) = Some (res, sm)"
  show "(sm_step cd ju Specs)\<^sup>*\<^sup>* s (s\<lparr>sys_manager := sm\<rparr>)"
  proof (cases "hc_userAgentDenied h \<or> Accessor obj = None")
    case True
    with f have "sm = sys_manager s" by (auto simp: filterEvent_def split: if_splits)
    then show ?thesis by simp
  next
    case False
    then obtain ns e' rr where ev: "filterEvent_with (Some sp) (hc_groupResource h) e ns = Some (e', rr)"
      and rel: "ReleaseSpec cd (Some rr) (sys_manager s) = Some sm"
      using f assms(1) by (auto simp: filterEvent_def split: prod.splits bind_splits)
    obtain ir where "is_routeInternal sp = Some ir"
      using ev by (cases "is_routeInternal sp") (simp_all add: filterEvent_with_def acquired_match_def IsNamespaceMatch_def)
    with ev rel show ?thesis
      using assms(4) by (intro spec_manager_round) (auto simp: assms(1) intro: filterEvent_with_record)
  qed
qed

definition example_resource_info :: "string \<Rightarrow> request_info" where
  "example_resource_info verb =
     \<lparr>ri_IsResourceRequest = True, ri_Path = ''/apis/apps/v1/deployments'', ri_Verb = verb, ri_APIGroup = ''apps'',
      ri_APIVersion = ''v1'', ri_Namespace = ''ns'', ri_Resource = ''deployments'', ri_Subresource = '''', ri_Name = ''''\<rparr>"

definition example_http_request :: http_request where
  "example_http_request =
     \<lparr>rq_Method = ''GET'',
      rq_URL = \<lparr>u_Scheme = ''https'', u_Host = ''h'', u_Path = ''/apis/apps/v1/deployments'', u_RawPath = '''',
                u_RawQuery = ''limit=5&labelSelector=a%3D1''\<rparr>,
      rq_Header = [(''User-Agent'', [''ua''])], rq_Host = ''h'', rq_RemoteAddr = ''1.2.3.4:80'',
      rq_Close = False, rq_ContentLength = 0, rq_Body = None\<rparr>"

definition example_config :: handler_config where
  "example_config =
     \<lparr>hc_httpReq = example_http_request, hc_reqInfo = example_resource_info ''watch'', hc_groupResource = example_gr,
      hc_apiResource = \<lparr>apr_Name = ''deployments'', apr_Group = ''apps'', apr_Version = ''v1'', apr_Kind = ''Deployment''\<rparr>,
      hc_userAgentDenied = False\<rparr>"

definition example_deployment :: "string \<Rightarrow> json" where
  "example_deployment ns = JObject [(''metadata'', JObject [(''namespace'', JString ns)])]"

lemma example_loaded_match:
  "acquired_match (smg_currentSpec example_loaded) ''ns'' example_gr = Some True"
  using example_decisions(3)
  by (simp add: example_loaded_sel acquired_match_def IsNamespaceMatch_def ConvertProtoSpecToInternal_def
      example_meta_spec_def)

theorem handlers_refine_spec_manager_witness:
  "(let s = \<lparr>sys_manager = example_loaded, sys_readers = [], sys_updating = False\<rparr>;
        e = \<lparr>we_Type = ''ADDED'', we_Raw = ''''\<rparr>;
        obj = Unstructured [(''metadata'', JObject [(''namespace'', JString ''ns'')])]
    in \<exists>sm. filterEvent example_codec example_config e obj example_loaded = Some ((None, e), sm)
       \<and> (sm_step example_codec example_ju {})\<^sup>*\<^sup>* s (s\<lparr>sys_manager := sm\<rparr>))"
proof -
  let ?s = "\<lparr>sys_manager = example_loaded, sys_readers = [], sys_updating = False\<rparr>"
  let ?e = "\<lparr>we_Type = ''ADDED'', we_Raw = ''''\<rparr>"
  let ?obj = "Unstructured [(''metadata'', JObject [(''namespace'', JString ''ns'')])]"
  let ?sp = "ConvertProtoSpecToInternal example_ju (example_meta_spec ''h1'')"
  have sp: "smg_currentSpec (sys_manager ?s) = Some ?sp" by (simp add: example_loaded_sel)
  have ok: "spec_selectors_ok ?sp"
    by (simp add: spec_selectors_ok_def route_selectors_ok_def ConvertProtoSpecToInternal_def example_meta_spec_def
        convertRoute_def example_public_route_def convertProtoMatchLimitRuleToInternal_def)
  have acc: "Accessor ?obj = Some ''ns''" by (simp add: Accessor_def unstructured_namespace_def)
  obtain sm where "filterEvent example_codec example_config ?e ?obj example_loaded = Some ((None, ?e), sm)"
    using example_loaded_match example_loaded_sel(3,4)
    by (simp add: filterEvent_def acc example_config_def filterEvent_with_def ReleaseSpec_def requestsStore_add_def
        writeHistoryRequests_def add_pack_def add_userAgent_def add_resource_def records_resource_def empty_record_def
        newRequestsStore_def set_insert_all_def set_insert_def Let_def)
  moreover have "CHR ''.'' \<notin> set (ri_Resource (example_resource_info ''watch''))"
    "CHR ''.'' \<notin> set (gr_Resource (hc_groupResource example_config))"
    by (simp_all add: example_resource_info_def example_config_def example_gr_def)
  note thms = handlers_refine_spec_manager [OF sp ok this, where Specs = "{}" and ju = example_ju and cd = example_codec
      and obj = ?obj and e = ?e]
  ultimately show ?thesis by (auto simp: Let_def dest!: conjunct2 [OF conjunct2 [OF thms], rule_format, of _ _] intro: exI)
qed

definition labels_agree :: "label_selector \<Rightarrow> label_selector \<Rightarrow> bool" where
  \<comment> \<open>no label key has two different values\<close>
  "labels_agree a b \<longleftrightarrow> (\<forall>k v w. map_of (matchLabels a) k = Some v \<longrightarrow> map_of (matchLabels b) k = Some w \<longrightarrow> v = w)"

lemma merge_selectors_agree:
  assumes "selector_ok a" and "selector_ok b" and "labels_agree a b"
  shows "selector_sat (merge_selectors a b) ls \<longleftrightarrow> selector_sat a ls \<and> selector_sat b ls"
proof -
  have "map_of (matchLabels a) ++ map_of (matchLabels b) \<subseteq>\<^sub>m map_of ls \<longleftrightarrow>
      map_of (matchLabels a) \<subseteq>\<^sub>m map_of ls \<and> map_of (matchLabels b) \<subseteq>\<^sub>m map_of ls"
    using assms(3) by (intro map_add_le_iff) (auto simp: labels_agree_def)
  then show ?thesis
    using assms(1,2) by (auto simp: merge_selectors_sat selector_sat_iff)
qed

lemma injectSelector_cases:
  assumes "injectSelector sl sel req = Inr req'"
  obtains raw old s where "ParseRawQuery (u_RawQuery (rq_URL req)) = Inr raw" "old_selector sl raw = Inr old"
    "ValidatedLabelSelectorAsSelector (MergeLabelSelector (Some sel) old) = Inr s"
    "u_RawQuery (rq_URL req') = MarshalRawQuery (AList.update labelSelectorKey (QueryEscape (sl_print sl s)) raw)"
    "rq_Header req' = header_Add (rq_Header req) ''OLD-RAW-QUERY'' (u_RawQuery (rq_URL req))"
  using assms by (auto simp: injectSelector_def Let_def split: sum.splits)

text \<open>
  C28. The injected selector. After a successful injection the query of the request parses,
  every other parameter is unchanged, and the label selector is the text of a selector that
  matches exactly the objects satisfying the isolation selector merged with the client's.
  Without a label key on which the two disagree, that is: exactly the objects satisfying
  both; on such a key the client's label replaces that of the isolation selector. The
  original query is kept in a header.
\<close>

theorem injected_selector:
  assumes "injectSelector sl sel req = Inr req'" and "selector_ok sel"
    and "ParseRawQuery (u_RawQuery (rq_URL req)) = Inr raw" and "old_selector sl raw = Inr old"
    and "\<forall>o'. old = Some o' \<longrightarrow> selector_ok o'"
  shows "\<exists>raw' txt s. ParseRawQuery (u_RawQuery (rq_URL req')) = Inr raw'
    \<and> map_of raw' labelSelectorKey = Some txt \<and> QueryUnescape txt = Some (sl_print sl s)
    \<and> (\<forall>k. k \<noteq> labelSelectorKey \<longrightarrow> map_of raw' k = map_of raw k)
    \<and> header_values (rq_Header req') ''Old-Raw-Query''
        = header_values (rq_Header req) ''Old-Raw-Query'' @ [u_RawQuery (rq_URL req)]
    \<and> (\<forall>ls. case old of
         None \<Rightarrow> selector_matches s ls \<longleftrightarrow> selector_sat sel ls
       | Some o' \<Rightarrow> (selector_matches s ls \<longleftrightarrow> selector_sat (merge_selectors sel o') ls)
           \<and> (labels_agree sel o' \<longrightarrow> (selector_matches s ls \<longleftrightarrow> selector_sat sel ls \<and> selector_sat o' ls)))"
proof -
  from assms(1) obtain s where s: "ValidatedLabelSelectorAsSelector (MergeLabelSelector (Some sel) old) = Inr s"
    and q: "u_RawQuery (rq_URL req') = MarshalRawQuery (AList.update labelSelectorKey (QueryEscape (sl_print sl s)) raw)"
    and hdr: "rq_Header req' = header_Add (rq_Header req) ''OLD-RAW-QUERY'' (u_RawQuery (rq_URL req))"
    by (rule injectSelector_cases) (use assms(3,4) in auto)
  let ?raw = "AList.update labelSelectorKey (QueryEscape (sl_print sl s)) raw"
  have "query_ok ?raw"
    using ParseRawQuery_ok [OF assms(3)] by (rule query_ok_update) (simp_all add: set_QueryEscape labelSelectorKey_def)
  then have "ParseRawQuery (u_RawQuery (rq_URL req')) = Inr ?raw"
    unfolding q by (rule ParseRawQuery_MarshalRawQuery)
  moreover have "case old of None \<Rightarrow> selector_matches s ls \<longleftrightarrow> selector_sat sel ls
       | Some o' \<Rightarrow> (selector_matches s ls \<longleftrightarrow> selector_sat (merge_selectors sel o') ls)
           \<and> (labels_agree sel o' \<longrightarrow> (selector_matches s ls \<longleftrightarrow> selector_sat sel ls \<and> selector_sat o' ls))" for ls
    using s assms(2,5) by (cases old) (auto simp: MergeLabelSelector_def compiled_selector_matches merge_selectors_agree)
  ultimately show ?thesis
    by (intro exI [of _ ?raw] exI [of _ "QueryEscape (sl_print sl s)"] exI [of _ s])
      (simp add: update_conv' hdr header_Add_def)
qed

definition example_selectors :: selector_lib where
  "example_selectors =
     \<lparr>sl_parse = (\<lambda>t. if t = ''a=1'' then Some \<lparr>matchLabels = [(''a'', ''1'')], matchExpressions = []\<rparr> else None),
      sl_print = (\<lambda>s. case s of Nothing \<Rightarrow> '''' | Selector rs \<Rightarrow> join_with '','' (map (\<lambda>r. req_key r @ ''='' @ concat (strValues r)) rs))\<rparr>"

lemma example_query:
  "ParseRawQuery (u_RawQuery (rq_URL example_http_request)) = Inr [(''limit'', ''5''), (''labelSelector'', ''a%3D1'')]"
  "old_selector example_selectors [(''limit'', ''5''), (''labelSelector'', ''a%3D1'')]
     = Inr (Some \<lparr>matchLabels = [(''a'', ''1'')], matchExpressions = []\<rparr>)"
  by (simp add: example_http_request_def, code_simp)
    (simp add: old_selector_def labelSelectorKey_def example_selectors_def, code_simp)

theorem injected_selector_witness:
  "\<exists>req' raw' txt s. injectSelector example_selectors example_app_v2 example_http_request = Inr req'
     \<and> ParseRawQuery (u_RawQuery (rq_URL req')) = Inr raw' \<and> map_of raw' ''limit'' = Some ''5''
     \<and> map_of raw' ''labelSelector'' = Some txt \<and> QueryUnescape txt = Some (sl_print example_selectors s)
     \<and> (\<forall>ls. selector_matches s ls \<longleftrightarrow>
          selector_sat example_app_v2 ls \<and> selector_sat \<lparr>matchLabels = [(''a'', ''1'')], matchExpressions = []\<rparr> ls)"
proof -
  let ?old = "\<lparr>matchLabels = [(''a'', ''1'')], matchExpressions = []\<rparr>"
  have "ops_valid (merge_selectors example_app_v2 ?old)"
    by (simp add: ops_valid_def merge_selectors_def example_app_v2_def)
  then obtain s where "ValidatedLabelSelectorAsSelector (MergeLabelSelector (Some example_app_v2) (Some ?old)) = Inr s"
    using compiled_selector_ok by (auto simp: MergeLabelSelector_def)
  then obtain req' where inj: "injectSelector example_selectors example_app_v2 example_http_request = Inr req'"
    by (simp add: injectSelector_def example_query Let_def)
  have ok: "selector_ok example_app_v2" "\<forall>o'. Some ?old = Some o' \<longrightarrow> selector_ok o'"
    by (auto simp: selector_ok_def gomap_ok_def example_app_v2_def)
  have "labels_agree example_app_v2 ?old" by (simp add: labels_agree_def example_app_v2_def)
  with injected_selector [OF inj ok(1) example_query ok(2)] inj show ?thesis
    by (fastforce simp: labelSelectorKey_def)
qed

fun json_namespace :: "json \<Rightarrow> string" where
  "json_namespace (JObject kvs) = unstructured_namespace kvs"
| "json_namespace _ = ''''"

fun is_object :: "json \<Rightarrow> bool" where
  "is_object (JObject _) = True"
| "is_object _ = False"

lemma filter_unstructured_items:
  assumes "is_routeInternal sp = Some ir" and "\<forall>x\<in>set items. is_object x"
  shows "\<exists>rr'. filter_unstructured (Some sp) gr acc items rr
    = Some (Inr (acc @ filter (\<lambda>x. route_IsNamespaceMatch ir (json_namespace x) gr) items), rr')"
  using assms(2)
proof (induction items arbitrary: acc rr)
  case (Cons item items)
  then obtain kvs where item: "item = JObject kvs" by (cases item) auto
  let ?ns = "unstructured_namespace kvs"
  let ?acc = "if route_IsNamespaceMatch ir ?ns gr then acc @ [JObject kvs] else acc"
  from Cons.IH [of ?acc "note_namespace (route_IsNamespaceMatch ir ?ns gr) ?ns rr"] Cons.prems
  obtain rr' where rr': "filter_unstructured (Some sp) gr ?acc items (note_namespace (route_IsNamespaceMatch ir ?ns gr) ?ns rr)
      = Some (Inr (?acc @ filter (\<lambda>x. route_IsNamespaceMatch ir (json_namespace x) gr) items), rr')" by auto
  have "?acc @ filter (\<lambda>x. route_IsNamespaceMatch ir (json_namespace x) gr) items
      = acc @ filter (\<lambda>x. route_IsNamespaceMatch ir (json_namespace x) gr) (item # items)"
    by (simp add: item)
  with rr' show ?case unfolding item filter_unstructured_step [OF assms(1)] by metis
qed simp

definition kept_items :: "handler_config \<Rightarrow> internal_route \<Rightarrow> json list \<Rightarrow> json list" where
  "kept_items h ir items =
     (if hc_userAgentDenied h then []
      else filter (\<lambda>x. route_IsNamespaceMatch ir (json_namespace x) (hc_groupResource h)) items)"

definition kept_json :: "handler_config \<Rightarrow> internal_route \<Rightarrow> json list \<Rightarrow> json" where
  \<comment> \<open>an empty list for a denied user agent, null if no item is kept\<close>
  "kept_json h ir items =
     (if hc_userAgentDenied h then JArray []
      else case kept_items h ir items of [] \<Rightarrow> JNull | kept \<Rightarrow> JArray kept)"

lemma filterItems_kept:
  assumes "filterItems cd h (Unstructured kvs) sm = Some ((err, obj), sm')"
    and "smg_currentSpec sm = Some sp" and "is_routeInternal sp = Some ir"
    and "map_of kvs ''items'' = Some (JArray items)" and "\<forall>x\<in>set items. is_object x"
  shows "err = None \<and> obj = Unstructured (AList.update ''items'' (kept_json h ir items) kvs)"
proof (cases "hc_userAgentDenied h")
  case True
  with assms(1) show ?thesis by (simp add: filterItems_def kept_json_def)
next
  case False
  obtain rr where "filter_unstructured (Some sp) (hc_groupResource h) [] items (empty_record (hc_groupResource h))
      = Some (Inr (filter (\<lambda>x. route_IsNamespaceMatch ir (json_namespace x) (hc_groupResource h)) items), rr)"
    using filter_unstructured_items [OF assms(3,5), of "hc_groupResource h" "[]"] by auto
  with assms(1) False show ?thesis
    by (auto simp: filterItems_def filterItems_with_def assms(2,4) kept_items_def kept_json_def slice_json_def
        split: bind_splits list.split)
qed

lemma listHandler_handle_filtered:
  assumes "listHandler_handle lib cd h resp st = Some ((err, resp'), st')"
    and "200 \<le> rs_StatusCode resp" and "rs_StatusCode resp \<le> 206"
    and "newResponseSerializer lib resp (hc_apiResource h) False = Inr s"
    and "readOnce (sz_body s) = Inr content" and "se_decode lib (sz_typed s) content = Some (Unstructured kvs)"
    and "map_of kvs ''items'' = Some (JArray items)" and "\<forall>x\<in>set items. is_object x"
    and "smg_currentSpec (px_manager st) = Some sp" and "is_routeInternal sp = Some ir"
    and "se_encode lib (Unstructured (AList.update ''items'' (kept_json h ir items) kvs)) = Some out"
  shows "err = None
    \<and> rs_Body resp' = \<lparr>bd_chunks = [if sz_gzip s then se_gzip lib out else out], bd_end = EOF\<rparr>
    \<and> rs_ContentLength resp' = int (length (concat (bd_chunks (rs_Body resp'))))
    \<and> header_Get (rs_Header resp') ''Content-Length'' = itoa (rs_ContentLength resp')
    \<and> rs_StatusCode resp' = rs_StatusCode resp"
proof -
  have list: "IsListType (Unstructured kvs)" by (simp add: IsListType_def assms(7))
  let ?s = "s\<lparr>sz_buf := Some (se_capacity lib content)\<rparr>"
  have dec: "DecodeList lib s = (Inr (Unstructured kvs), ?s)"
    by (simp add: DecodeList_def assms(5,6) Let_def)
  obtain err' obj sm where f: "filterItems cd h (Unstructured kvs) (px_manager st) = Some ((err', obj), sm)"
    using assms(1-4) list dec by (auto simp: listHandler_handle_def split: bind_splits)
  from filterItems_kept [OF f assms(9,10,7,8)]
  have obj: "obj = Unstructured (AList.update ''items'' (kept_json h ir items) kvs)" by simp
  show ?thesis
    using assms(1-4) list dec f
    by (auto simp: listHandler_handle_def obj EncodeList_def resetBuf_def assms(11) Let_def header_Get_def header_Set_def
        split: bind_splits)
qed

text \<open>
  A list response is cut to the proxy's subset. If a successful JSON list of objects is
  handled, the new body encodes the same list with exactly the items, in order, whose
  namespace belongs to the proxy's subset; none if the user agent was denied. Where no item
  is left the items field is null. The content length is that of the new body.
\<close>

theorem list_response_filtered:
  assumes "listHandler_handle lib cd h resp st = Some ((err, resp'), st')"
    and "200 \<le> rs_StatusCode resp" and "rs_StatusCode resp \<le> 206"
    and "newResponseSerializer lib resp (hc_apiResource h) False = Inr s"
    and "readOnce (sz_body s) = Inr content" and "se_decode lib (sz_typed s) content = Some (Unstructured kvs)"
    and "map_of kvs ''items'' = Some (JArray items)" and "\<forall>x\<in>set items. is_object x"
    and "smg_currentSpec (px_manager st) = Some sp" and "is_routeInternal sp = Some ir"
    and "se_encode lib (Unstructured (AList.update ''items'' (kept_json h ir items) kvs)) = Some out"
  shows "err = None
    \<and> rs_Body resp' = \<lparr>bd_chunks = [if sz_gzip s then se_gzip lib out else out], bd_end = EOF\<rparr>
    \<and> rs_ContentLength resp' = int (length (concat (bd_chunks (rs_Body resp'))))
    \<and> header_Get (rs_Header resp') ''Content-Length'' = itoa (rs_ContentLength resp')
    \<and> rs_StatusCode resp' = rs_StatusCode resp"
  by (rule listHandler_handle_filtered [OF assms])

definition example_serial :: serial_lib where
  "example_serial =
     \<lparr>se_parseMediaType = Some, se_newTyped = \<lambda>_ _ _. True, se_negotiable = \<lambda>_ _. True, se_streamable = \<lambda>_. True,
      se_decode = \<lambda>_ _. Some (Unstructured [(''items'', JArray [example_deployment ''ns'', example_deployment ''other''])]),
      se_encode = \<lambda>obj. (case obj of
          Unstructured kvs \<Rightarrow> (case map_of kvs ''items'' of
            Some (JArray items) \<Rightarrow> Some (concat (map json_namespace items)) | _ \<Rightarrow> None)
        | Typed _ \<Rightarrow> None),
      se_decodeEvent = \<lambda>b. Some \<lparr>we_Type = ''BOOKMARK'', we_Raw = b\<rparr>, se_encodeEvent = \<lambda>e. Some (we_Raw e),
      se_gunzip = id, se_gzip = id, se_gzipUnflushed = \<lambda>_. [],
      se_frames = \<lambda>b. \<lparr>fr_remaining = [], fr_frames = bd_chunks b, fr_end = bd_end b\<rparr>,
      se_capacity = length, se_grown = \<lambda>c b. max c (length b)\<rparr>"

definition example_response :: http_response where
  "example_response =
     \<lparr>rs_StatusCode = 200, rs_Header = [(''Content-Type'', [''application/json''])],
      rs_Body = \<lparr>bd_chunks = [''hello''], bd_end = EOF\<rparr>, rs_ContentLength = 2, rs_Trailer = []\<rparr>"

definition example_route_ns :: internal_route where
  "example_route_ns =
     \<lparr>ir_subset = '''', ir_globalLimits = [],
      ir_subsetLimits = [\<lparr>isl_subset = '''', isl_limits =
        [\<lparr>lim_namespaces = [''ns''], lim_objectSelector = None, lim_resources = []\<rparr>]\<rparr>],
      ir_subsetPublicResources = [], ir_subsetDefaultOnlyUserAgents = []\<rparr>"

definition example_proxy :: proxy_state where
  "example_proxy =
     \<lparr>px_manager = example_start\<lparr>smg_currentSpec := Some
        \<lparr>is_spec = \<lparr>ps_Meta = None, ps_Route = None, ps_Endpoints = []\<rparr>, is_routeInternal = Some example_route_ns\<rparr>\<rparr>,
      px_pool = BytesPool\<rparr>"

lemma example_route_ns_match: "route_IsNamespaceMatch example_route_ns ns example_gr \<longleftrightarrow> ns = '''' \<or> ns = ''ns''"
proof (cases "ns = ''''")
  case True
  then show ?thesis by (simp add: route_IsNamespaceMatch_def example_route_ns_def)
next
  case False
  then show ?thesis
    unfolding route_IsNamespaceMatch_def determineNamespaceSubset_eq [OF False]
    by (simp add: example_route_ns_def global_passed_def subset_hit_def limit_active_def public_resource_def)
qed

lemma ReleaseSpec_total: "\<not> mockFailure (smg_storage sm) \<Longrightarrow> \<exists>sm'. ReleaseSpec cd r sm = Some sm'"
  by (auto simp: ReleaseSpec_def requestsStore_add_def writeHistoryRequests_def Let_def split: option.splits prod.splits)

lemma filterItems_total:
  assumes "\<not> mockFailure (smg_storage sm)" and "smg_currentSpec sm = Some sp" and "is_routeInternal sp = Some ir"
    and "map_of kvs ''items'' = Some (JArray items)" and "\<forall>x\<in>set items. is_object x"
  shows "\<exists>r. filterItems cd h (Unstructured kvs) sm = Some r"
proof (cases "hc_userAgentDenied h")
  case True
  then show ?thesis by (simp add: filterItems_def)
next
  case False
  obtain res rr where "filter_unstructured (Some sp) (hc_groupResource h) [] items (empty_record (hc_groupResource h)) = Some (res, rr)"
    using filter_unstructured_items [OF assms(3,5)] by blast
  moreover obtain sm' where "ReleaseSpec cd (Some rr) sm = Some sm'" using ReleaseSpec_total [OF assms(1)] by blast
  ultimately show ?thesis using False by (simp add: filterItems_def filterItems_with_def assms(2,4))
qed

lemma listHandler_handle_total:
  assumes "newResponseSerializer lib resp (hc_apiResource h) False = Inr s"
    and "readOnce (sz_body s) = Inr content" and "se_decode lib (sz_typed s) content = Some (Unstructured kvs)"
    and "map_of kvs ''items'' = Some (JArray items)" and "\<forall>x\<in>set items. is_object x"
    and "smg_currentSpec (px_manager st) = Some sp" and "is_routeInternal sp = Some ir"
    and "\<not> mockFailure (smg_storage (px_manager st))"
  shows "\<exists>x. listHandler_handle lib cd h resp st = Some x"
proof -
  obtain r where "filterItems cd h (Unstructured kvs) (px_manager st) = Some r"
    using filterItems_total [OF assms(8,6,7,4,5)] by blast
  moreover have "IsListType (Unstructured kvs)" by (simp add: IsListType_def assms(4))
  ultimately show ?thesis
    by (cases r) (auto simp: listHandler_handle_def DecodeList_def assms(1-3) Let_def split: prod.splits sum.splits)
qed

lemma example_namespace [simp]: "json_namespace (example_deployment ns) = ns" "is_object (example_deployment ns)"
  by (simp_all add: example_deployment_def unstructured_namespace_def)

theorem list_response_filtered_witness:
  "\<exists>resp' st'. listHandler_handle example_serial example_codec example_config example_response example_proxy
     = Some ((None, resp'), st') \<and> rs_Body resp' = \<lparr>bd_chunks = [''ns''], bd_end = EOF\<rparr> \<and> rs_ContentLength resp' = 2"
proof -
  let ?items = "[example_deployment ''ns'', example_deployment ''other'']"
  have kept: "kept_items example_config example_route_ns ?items = [example_deployment ''ns'']"
    by (simp add: kept_items_def example_config_def example_route_ns_match)
  obtain s where s: "newResponseSerializer example_serial example_response (hc_apiResource example_config) False = Inr s"
    "sz_body s = rs_Body example_response" "\<not> sz_gzip s"
    by (simp add: newResponseSerializer_def example_serial_def example_response_def header_Get_def header_values_def Let_def)
  have rd: "readOnce (sz_body s) = Inr ''hello''"
    by (simp add: s(2) example_response_def readOnce_def read_all_def)
  have out: "se_encode example_serial (Unstructured (AList.update ''items''
      (kept_json example_config example_route_ns ?items) [(''items'', JArray ?items)])) = Some ''ns''"
    by (simp add: kept_json_def kept example_serial_def) (simp add: example_config_def)
  have "\<exists>x. listHandler_handle example_serial example_codec example_config example_response example_proxy = Some x"
    by (rule listHandler_handle_total [OF s(1) rd, where items = ?items and ir = example_route_ns
          and kvs = "[(''items'', JArray ?items)]" and sp = "the (smg_currentSpec (px_manager example_proxy))"])
      (simp_all add: example_serial_def example_proxy_def example_start_def newStorage_def mockFailure_def)
  then obtain err resp' st' where h: "listHandler_handle example_serial example_codec example_config example_response example_proxy
      = Some ((err, resp'), st')" by fastforce
  show ?thesis
    using list_response_filtered [OF h _ _ s(1) rd _ _ _ _ _ out] h s(3)
    by (simp add: example_response_def example_serial_def example_proxy_def)
qed

fun watch_reads ::
    "serial_lib \<Rightarrow> codec \<Rightarrow> nat list \<Rightarrow> watch_handler \<Rightarrow> proxy_state \<Rightarrow> (bytes \<times> watch_handler \<times> proxy_state) option" where
  \<comment> \<open>successful reads into slices of the given sizes: everything that was delivered\<close>
  "watch_reads lib cd [] h st = Some ([], h, st)"
| "watch_reads lib cd (n # ns) h st =
     (case watchHandler_Read lib cd False n h st of
        Some (Inr chunk, h', st') \<Rightarrow>
          map_option (\<lambda>(out, r). (chunk @ out, r)) (watch_reads lib cd ns h' st')
      | _ \<Rightarrow> None)"

fun watch_events ::
    "serial_lib \<Rightarrow> codec \<Rightarrow> nat \<Rightarrow> watch_handler \<Rightarrow> proxy_state \<Rightarrow> (bytes \<times> watch_handler \<times> proxy_state) option" where
  \<comment> \<open>the first \<open>k\<close> events after decoding, filtering and encoding\<close>
  "watch_events lib cd 0 h st = Some ([], h, st)"
| "watch_events lib cd (Suc k) h st =
     (case watchHandler_read lib cd False h st of
        Some (Inr content, h', st') \<Rightarrow>
          map_option (\<lambda>(out, r). (content @ out, r)) (watch_events lib cd k h' st')
      | _ \<Rightarrow> None)"

lemma watchHandler_read_remaining:
  assumes "watchHandler_read lib cd c h st = Some (Inr content, h', st')"
  shows "wh_remaining h' = wh_remaining h"
    and "watchHandler_read lib cd c (h\<lparr>wh_remaining := x\<rparr>) st = Some (Inr content, h'\<lparr>wh_remaining := x\<rparr>, st')"
  using assms
  by (auto simp: watchHandler_read_def split: prod.splits sum.splits option.splits if_splits bind_splits)

lemma remaining_Nil [simp]: "wh_remaining h = [] \<Longrightarrow> h\<lparr>wh_remaining := []\<rparr> = h"
  by (cases h) simp

lemma watchHandler_Read_cases:
  assumes "watchHandler_Read lib cd c n h st = Some (Inr chunk, h', st')"
  shows "length chunk \<le> n \<and>
    (if wh_remaining h \<noteq> []
     then chunk @ wh_remaining h' = wh_remaining h \<and> h'\<lparr>wh_remaining := []\<rparr> = h\<lparr>wh_remaining := []\<rparr> \<and> st' = st
     else \<exists>content. watchHandler_read lib cd c h st = Some (Inr content, h'\<lparr>wh_remaining := []\<rparr>, st')
        \<and> chunk @ wh_remaining h' = content)"
proof (cases "wh_remaining h = []")
  case False
  with assms show ?thesis by (auto simp: watchHandler_Read_def split: if_splits)
next
  case True
  then obtain content h1 st1 where r: "watchHandler_read lib cd c h st = Some (Inr content, h1, st1)"
    using assms by (auto simp: watchHandler_Read_def split: option.splits prod.splits sum.splits)
  moreover have "wh_remaining h1 = []" using watchHandler_read_remaining(1) [OF r] True by simp
  ultimately show ?thesis using assms True by (auto simp: watchHandler_Read_def split: if_splits)
qed

lemma watch_reads_events:
  assumes "watch_reads lib cd ns h st = Some (out, h', st')"
  shows "\<exists>k content. watch_events lib cd k (h\<lparr>wh_remaining := []\<rparr>) st = Some (content, h'\<lparr>wh_remaining := []\<rparr>, st')
    \<and> out @ wh_remaining h' = wh_remaining h @ content"
  using assms
proof (induction ns arbitrary: h st out)
  case Nil
  then show ?case by (intro exI [of _ 0]) auto
next
  case (Cons n ns)
  then obtain chunk h1 st1 out1 where r: "watchHandler_Read lib cd False n h st = Some (Inr chunk, h1, st1)"
    and rest: "watch_reads lib cd ns h1 st1 = Some (out1, h', st')" and out: "out = chunk @ out1"
    by (auto split: option.splits prod.splits sum.splits)
  from Cons.IH [OF rest] obtain k content where
    k: "watch_events lib cd k (h1\<lparr>wh_remaining := []\<rparr>) st1 = Some (content, h'\<lparr>wh_remaining := []\<rparr>, st')"
      "out1 @ wh_remaining h' = wh_remaining h1 @ content" by blast
  note c = watchHandler_Read_cases [OF r]
  show ?case
  proof (cases "wh_remaining h = []")
    case False
    with c k out show ?thesis by (intro exI [of _ k] exI [of _ content]) auto
  next
    case True
    then obtain d where d: "watchHandler_read lib cd False h st = Some (Inr d, h1\<lparr>wh_remaining := []\<rparr>, st1)"
      "chunk @ wh_remaining h1 = d" using c by auto
    then show ?thesis using k out True by (intro exI [of _ "Suc k"] exI [of _ "d @ content"]) auto
  qed
qed

text \<open>
  C29. The body of a filtered watch. Whatever sizes of buffers the response is copied with,
  the bytes delivered so far, together with the rest that is kept, are the encodings of the
  filtered events read so far: nothing is lost, repeated or reordered.
\<close>

theorem watch_body_is_event_stream:
  assumes "watchHandler_handle lib cfg resp = Some h" and "watch_reads lib cd ns h st = Some (out, h', st')"
  shows "\<exists>k content. watch_events lib cd k h st = Some (content, h'\<lparr>wh_remaining := []\<rparr>, st')
    \<and> out @ wh_remaining h' = content"
proof -
  have "wh_remaining h = []" using assms(1) by (auto simp: watchHandler_handle_def split: if_splits sum.splits)
  then show ?thesis using watch_reads_events [OF assms(2)] by simp
qed

theorem watch_body_is_event_stream_witness:
  "\<exists>h h' st'. watchHandler_handle example_serial example_config example_response = Some h
     \<and> watch_reads example_serial example_codec [2, 2] h example_proxy = Some (''hell'', h', st')
     \<and> wh_remaining h' = ''o''
     \<and> (\<exists>k content. watch_events example_serial example_codec k h example_proxy = Some (content, h'\<lparr>wh_remaining := []\<rparr>, st')
          \<and> content = ''hello'')"
proof -
  obtain h where h: "watchHandler_handle example_serial example_config example_response = Some h"
    by (simp add: watchHandler_handle_def newResponseSerializer_def example_serial_def example_response_def
        header_Get_def header_values_def Let_def)
  have rd: "readStreaming 32768 [] (example_stream [''hello'']) = (''hello'', None, 32768, example_stream [])"
    using readStreaming_fits [of "example_stream [''hello'']" "''hello''" "[]" 32768] by (simp add: example_stream_def)
  have ser: "wh_respSerializer h = \<lparr>sz_typed = False, sz_gzip = False, sz_buf = None, sz_body = rs_Body example_response,
      sz_reader = example_stream [''hello'']\<rparr>" and rem: "wh_remaining h = []"
    using h by (auto simp: watchHandler_handle_def newResponseSerializer_def example_serial_def example_response_def
        header_Get_def header_values_def Let_def example_stream_def)
  obtain h1 st1 where r: "watchHandler_read example_serial example_codec False h example_proxy = Some (Inr ''hello'', h1, st1)"
    by (simp add: watchHandler_read_def DecodeWatch_def resetBuf_def ser pool_Get_def example_proxy_def BytesPool_def rd
        example_serial_def EncodeWatch_def Let_def)
  have rem1: "wh_remaining h1 = []" using watchHandler_read_remaining(1) [OF r] rem by simp
  have reads: "watch_reads example_serial example_codec [2, 2] h example_proxy
      = Some (''hell'', h1\<lparr>wh_remaining := ''o''\<rparr>, st1)"
    by (simp add: watchHandler_Read_def rem r)
  from watch_body_is_event_stream [OF h reads] h reads show ?thesis by auto
qed

lemma retry_OnError_cases:
  "case retry_OnError n f of
     Inl e \<Rightarrow> f 0 = Inl e \<and> (\<forall>i\<le>n. \<exists>e'. f i = Inl e')
   | Inr a \<Rightarrow> \<exists>i\<le>n. f i = Inr a \<and> (\<forall>j. i < j \<and> j \<le> n \<longrightarrow> (\<exists>e'. f j = Inl e'))"
proof (induction n)
  case (Suc n)
  show ?case
  proof (cases "f (Suc n)")
    case (Inr a)
    then show ?thesis by (auto intro!: exI [of _ "Suc n"])
  next
    case (Inl e)
    with Suc show ?thesis
      by (auto split: sum.splits) (metis le_Suc_eq, metis le_Suc_eq)
  qed
qed (auto split: sum.splits)

text \<open>
  Discovery. A resource once discovered is served from the cache for ever after, without
  asking the API server. An error is the one of the last of four attempts, all of which
  failed, and leaves the cache unchanged, so the next request tries again.
\<close>

theorem DiscoverGVR_outcome:
  assumes "DiscoverGVR hasClient answers gvr cache = (res, cache')"
  shows "case res of
      Inr r \<Rightarrow> map_of cache' gvr = Some r
        \<and> (\<forall>hasClient' answers'. DiscoverGVR hasClient' answers' gvr cache' = (Inr r, cache'))
    | Inl e \<Rightarrow> cache' = cache \<and> map_of cache gvr = None
        \<and> (if hasClient
           then discover_once gvr (answers 0) = Inl e \<and> (\<forall>i\<le>3. \<exists>e'. discover_once gvr (answers i) = Inl e')
           else e = NoDiscoveryClient)"
  using assms retry_OnError_cases [of "\<lambda>i. discover_once gvr (answers i)" 3]
  by (auto simp: DiscoverGVR_def update_conv' split: option.splits sum.splits if_splits)

theorem DiscoverGVR_outcome_witness:
  "(let gvr = request_gvr (example_resource_info ''get'') in
    DiscoverGVR True (\<lambda>i. if i = 0 then Inr [] else Inl (ServerError False ''busy'')) gvr []
      = (Inl ResourceNotFound, [])
    \<and> discover_once gvr (Inr []) = Inl ResourceNotFound)"
proof -
  let ?gvr = "request_gvr (example_resource_info ''get'')"
  let ?answers = "\<lambda>i::nat. if i = 0 then Inr [] else Inl (ServerError False ''busy'')"
  have "DiscoverGVR True ?answers ?gvr [] = (Inl ResourceNotFound, [])"
    by (simp add: DiscoverGVR_def discover_once_def numeral_3_eq_3)
  from DiscoverGVR_outcome [OF this] this show ?thesis by (simp add: Let_def)
qed

end
