(* ===== verification/Leader_Election.thy ===== *)
theory Leader_Election
  imports Http_Types Spec_Manager Webhook_Util
begin

section \<open>Leader election through the proxy (\<^verbatim>\<open>proxy/leaderelection\<close>)\<close>

text \<open>
  The controllers of all subsets use the same lock name. The proxy gives each subset a lock
  of its own: it appends the subset to the name in create and get requests, and it reports
  the identity of the holder to the spec manager when the API server has answered.

  The lock is a ConfigMap, an Endpoints object or a Lease, behind the interface
  \<^verbatim>\<open>adapter\<close>. The interface is the record \<open>adapter_ops\<close> with its laws in the locale
  \<open>lock_adapter\<close>, interpreted for both implementations. Decoding and encoding of objects
  and of the JSON record in the annotation are parameters (\<open>lock_codec\<close>). Reading a request
  body leaves an empty body behind.
\<close>

subsection \<open>Adapters (\<^verbatim>\<open>adapter_util.go\<close>)\<close>

record lock_object =
  lo_Name :: string
  lo_Annotations :: labels
  lo_Rest :: bytes

record lease =
  ls_Name :: string
  ls_HolderIdentity :: "string option"
  ls_Rest :: bytes

record lock_codec =
  lc_parseMediaType :: "string \<Rightarrow> string option"
  lc_supportedMediaTypes :: "string list"
  lc_decodeObject :: "string \<Rightarrow> bytes \<Rightarrow> lock_object option"
  lc_encodeObject :: "string \<Rightarrow> lock_object \<Rightarrow> bytes"
  lc_decodeLease :: "string \<Rightarrow> bytes \<Rightarrow> lease option"
  lc_encodeLease :: "string \<Rightarrow> lease \<Rightarrow> bytes"
  lc_unmarshalRecord :: "string \<Rightarrow> string option"

datatype lock_error =
    NoMediaTypeInRequest
  | InvalidRequestMediaType string
  | UnsupportedMediaType string
  | EmptyBody
  | UnreadableBody read_error
  | UndecodableBody
  | NoHoldIdentity

definition getSerializer :: "lock_codec \<Rightarrow> http_request \<Rightarrow> lock_error + string" where
  \<comment> \<open>the serializer is named by its media type\<close>
  "getSerializer lc r =
     (let contentType = header_Get (rq_Header r) ''Content-Type'' in
      if length contentType = 0 then Inl NoMediaTypeInRequest
      else (case lc_parseMediaType lc contentType of
              None \<Rightarrow> Inl (InvalidRequestMediaType contentType)
            | Some mediaType \<Rightarrow>
                if mediaType \<in> set (lc_supportedMediaTypes lc) then Inr mediaType
                else Inl (UnsupportedMediaType mediaType)))"

lemma getSerializer_body [simp]: "getSerializer lc (r\<lparr>rq_Body := b\<rparr>) = getSerializer lc r"
  by (simp add: getSerializer_def)

record 'a adapter_ops =
  ad_Decode :: "string \<Rightarrow> bytes \<Rightarrow> 'a option"
  ad_Encode :: "string \<Rightarrow> 'a \<Rightarrow> bytes"
  ad_GetHoldIdentity :: "'a \<Rightarrow> string \<times> bool"
  ad_GetName :: "'a \<Rightarrow> string"
  ad_SetName :: "string \<Rightarrow> 'a \<Rightarrow> 'a"

definition LeaderElectionRecordAnnotationKey :: string where
  "LeaderElectionRecordAnnotationKey = ''control-plane.alpha.kubernetes.io/leader''"

definition object_GetHoldIdentity :: "lock_codec \<Rightarrow> lock_object \<Rightarrow> string \<times> bool" where
  "object_GetHoldIdentity lc oa =
     (case map_of (lo_Annotations oa) LeaderElectionRecordAnnotationKey of
        None \<Rightarrow> ('''', False)
      | Some recordStr \<Rightarrow>
          (case lc_unmarshalRecord lc recordStr of None \<Rightarrow> ('''', True) | Some holder \<Rightarrow> (holder, True)))"

definition objectAdapter :: "lock_codec \<Rightarrow> lock_object adapter_ops" where
  "objectAdapter lc =
     \<lparr>ad_Decode = lc_decodeObject lc, ad_Encode = lc_encodeObject lc,
      ad_GetHoldIdentity = object_GetHoldIdentity lc,
      ad_GetName = lo_Name, ad_SetName = (\<lambda>name oa. oa\<lparr>lo_Name := name\<rparr>)\<rparr>"

definition lease_GetHoldIdentity :: "lease \<Rightarrow> string \<times> bool" where
  "lease_GetHoldIdentity la =
     (case ls_HolderIdentity la of None \<Rightarrow> ('''', False) | Some holder \<Rightarrow> (holder, True))"

definition leaseAdapter :: "lock_codec \<Rightarrow> lease adapter_ops" where
  "leaseAdapter lc =
     \<lparr>ad_Decode = lc_decodeLease lc, ad_Encode = lc_encodeLease lc,
      ad_GetHoldIdentity = lease_GetHoldIdentity,
      ad_GetName = ls_Name, ad_SetName = (\<lambda>name la. la\<lparr>ls_Name := name\<rparr>)\<rparr>"

definition decodeObject :: "'a adapter_ops \<Rightarrow> string \<Rightarrow> http_request \<Rightarrow> (lock_error + 'a) \<times> http_request" where
  "decodeObject ops ser r =
     (case rq_Body r of
        None \<Rightarrow> (Inl EmptyBody, r)
      | Some body \<Rightarrow>
          (let r = r\<lparr>rq_Body := Some \<lparr>bd_chunks = [], bd_end = EOF\<rparr>\<rparr> in
           case read_all body of
             Inr e \<Rightarrow> (Inl (UnreadableBody e), r)
           | Inl bodyBytes \<Rightarrow>
               (case ad_Decode ops ser bodyBytes of
                  None \<Rightarrow> (Inl UndecodableBody, r)
                | Some obj \<Rightarrow> (Inr obj, r))))"

definition DecodeFrom :: "lock_codec \<Rightarrow> 'a adapter_ops \<Rightarrow> http_request \<Rightarrow> (lock_error + 'a) \<times> http_request" where
  "DecodeFrom lc ops r =
     (case getSerializer lc r of Inl e \<Rightarrow> (Inl e, r) | Inr ser \<Rightarrow> decodeObject ops ser r)"

definition encodeObject :: "'a adapter_ops \<Rightarrow> string \<Rightarrow> 'a \<Rightarrow> body \<times> nat" where
  "encodeObject ops ser obj =
     (let buf = ad_Encode ops ser obj in (\<lparr>bd_chunks = [buf], bd_end = EOF\<rparr>, length buf))"

definition EncodeInto :: "lock_codec \<Rightarrow> 'a adapter_ops \<Rightarrow> 'a \<Rightarrow> http_request \<Rightarrow> http_request option" where
  \<comment> \<open>the error of \<open>getSerializer\<close> is ignored: a nil serializer panics\<close>
  "EncodeInto lc ops obj r =
     (case getSerializer lc r of
        Inl _ \<Rightarrow> Panic
      | Inr ser \<Rightarrow>
          (case encodeObject ops ser obj of (body, len) \<Rightarrow>
             Some (r\<lparr>rq_Body := Some body,
                     rq_Header := header_Set (rq_Header r) ''Content-Length'' (itoa (int len)),
                     rq_ContentLength := int len\<rparr>)))"

subsection \<open>The handler (\<^verbatim>\<open>election_handler.go\<close>)\<close>

record election_handler =
  eh_namespace :: string
  eh_lockName :: string
  eh_subset :: string

definition new_election_handler :: "(string \<Rightarrow> string) \<Rightarrow> string \<Rightarrow> spec_manager \<Rightarrow> election_handler option" where
  \<comment> \<open>\<^verbatim>\<open>New\<close>: the namespace is read from the environment\<close>
  "new_election_handler env lockName sm =
     do { protoSpec \<leftarrow> smg_currentSpec sm;
          route \<leftarrow> ps_Route (is_spec protoSpec);
          Some \<lparr>eh_namespace = env ''POD_NAMESPACE'', eh_lockName = lockName, eh_subset = rt_Subset route\<rparr> }"

definition setSubsetIntoName :: "string \<Rightarrow> string \<Rightarrow> string" where
  "setSubsetIntoName name subset_name = name @ ''---'' @ subset_name"

datatype modify_response = KeepResponse | ReportLeader string

definition election_modifyResponse :: "modify_response \<Rightarrow> http_response \<Rightarrow> spec_manager \<Rightarrow> spec_manager" where
  \<comment> \<open>the closure that runs on the response of the API server\<close>
  "election_modifyResponse m resp sm =
     (case m of
        KeepResponse \<Rightarrow> sm
      | ReportLeader holdIdentity \<Rightarrow>
          if rs_StatusCode resp = 200
          then UpdateLeaderElection (Some \<lparr>le_Identity = holdIdentity, le_IsLeader = True\<rparr>) sm
          else sm)"

datatype handled = NotHandled | Handled modify_response | HandledError lock_error

definition handle_create ::
    "lock_codec \<Rightarrow> 'a adapter_ops \<Rightarrow> election_handler \<Rightarrow> http_request \<Rightarrow> (handled \<times> http_request) option" where
  "handle_create lc ops h r0 =
     (case DecodeFrom lc ops r0 of
        (Inl e, r) \<Rightarrow> Some (HandledError e, r)
      | (Inr adp, r) \<Rightarrow>
          if ad_GetName ops adp \<noteq> eh_lockName h then Some (NotHandled, r)
          else (case ad_GetHoldIdentity ops adp of (holdIdentity, ok) \<Rightarrow>
            if \<not> ok then Some (HandledError NoHoldIdentity, r)
            else (let adp = (if eh_subset h \<noteq> ''''
                             then ad_SetName ops (setSubsetIntoName (eh_lockName h) (eh_subset h)) adp else adp)
                  in do { r' \<leftarrow> EncodeInto lc ops adp r; Some (Handled (ReportLeader holdIdentity), r') })))"

definition handle_update ::
    "lock_codec \<Rightarrow> 'a adapter_ops \<Rightarrow> election_handler \<Rightarrow> http_request \<Rightarrow> (handled \<times> http_request) option" where
  "handle_update lc ops h r0 =
     (case DecodeFrom lc ops r0 of
        (Inl e, r) \<Rightarrow> Some (HandledError e, r)
      | (Inr adp, r) \<Rightarrow>
          (case ad_GetHoldIdentity ops adp of (holdIdentity, ok) \<Rightarrow>
            if \<not> ok then Some (HandledError NoHoldIdentity, r)
            else do { r' \<leftarrow> EncodeInto lc ops adp r; Some (Handled (ReportLeader holdIdentity), r') }))"

definition handle_get :: "election_handler \<Rightarrow> http_request \<Rightarrow> http_request" where
  "handle_get h r =
     (if eh_subset h \<noteq> ''''
      then r\<lparr>rq_URL := (rq_URL r)\<lparr>u_Path :=
        LastReplace (u_Path (rq_URL r)) (eh_lockName h) (setSubsetIntoName (eh_lockName h) (eh_subset h))\<rparr>\<rparr>
      else r)"

definition handle_verb ::
    "lock_codec \<Rightarrow> 'a adapter_ops \<Rightarrow> election_handler \<Rightarrow> string \<Rightarrow> http_request \<Rightarrow> (handled \<times> http_request) option" where
  "handle_verb lc ops h verb r =
     (if verb = ''create'' then handle_create lc ops h r
      else if verb = ''update'' then handle_update lc ops h r
      else if verb = ''get'' then Some (Handled KeepResponse, handle_get h r)
      else Some (NotHandled, r))"

definition election_Handle ::
    "lock_codec \<Rightarrow> election_handler \<Rightarrow> request_info \<Rightarrow> http_request \<Rightarrow> (handled \<times> http_request) option" where
  "election_Handle lc h req r =
     (if \<not> ri_IsResourceRequest req \<or> ri_Subresource req \<noteq> '''' then Some (NotHandled, r)
      else if ri_Namespace req \<noteq> eh_namespace h then Some (NotHandled, r)
      else if ri_Verb req \<noteq> ''create'' \<and> ri_Name req \<noteq> eh_lockName h
           \<and> \<not> hasPrefix (ri_Name req) (eh_lockName h @ ''---'') then Some (NotHandled, r)
      else (let gvr = (ri_APIGroup req, ri_APIVersion req, ri_Resource req) in
            if gvr = ('''', ''v1'', ''configmaps'') \<or> gvr = ('''', ''v1'', ''endpoints'')
            then handle_verb lc (objectAdapter lc) h (ri_Verb req) r
            else if gvr = (''coordination.k8s.io'', ''v1'', ''leases'')
            then handle_verb lc (leaseAdapter lc) h (ri_Verb req) r
            else Some (NotHandled, r)))"

subsection \<open>The contract of an adapter\<close>

definition lock_name :: "election_handler \<Rightarrow> string" where
  \<comment> \<open>the lock of the proxy's own subset\<close>
  "lock_name h = (if eh_subset h = '''' then eh_lockName h else setSubsetIntoName (eh_lockName h) (eh_subset h))"

definition with_content :: "bytes \<Rightarrow> http_request \<Rightarrow> http_request" where
  \<comment> \<open>the request with another body, and nothing else changed but its length\<close>
  "with_content buf r =
     r\<lparr>rq_Body := Some \<lparr>bd_chunks = [buf], bd_end = EOF\<rparr>,
       rq_Header := header_Set (rq_Header r) ''Content-Length'' (itoa (int (length buf))),
       rq_ContentLength := int (length buf)\<rparr>"

locale lock_adapter =
  fixes ops :: "'a adapter_ops"
  assumes name_set: "ad_GetName ops (ad_SetName ops n a) = n"
    and set_same: "ad_SetName ops (ad_GetName ops a) a = a"
    and holder_set: "ad_GetHoldIdentity ops (ad_SetName ops n a) = ad_GetHoldIdentity ops a"
begin

lemma create_renames:
  assumes "handle_create lc ops h r = Some (Handled m, r')"
  shows "\<exists>ser b content a holder. getSerializer lc r = Inr ser \<and> rq_Body r = Some b \<and> read_all b = Inl content
    \<and> ad_Decode ops ser content = Some a \<and> ad_GetName ops a = eh_lockName h
    \<and> ad_GetHoldIdentity ops a = (holder, True) \<and> m = ReportLeader holder
    \<and> r' = with_content (ad_Encode ops ser (ad_SetName ops (lock_name h) a)) r"
proof -
  obtain ser where ser: "getSerializer lc r = Inr ser"
    using assms by (cases "getSerializer lc r") (simp_all add: handle_create_def DecodeFrom_def)
  obtain a r1 where a: "decodeObject ops ser r = (Inr a, r1)"
    using assms ser by (auto simp: handle_create_def DecodeFrom_def split: prod.splits sum.splits)
  then obtain b content where b: "rq_Body r = Some b" "read_all b = Inl content" "ad_Decode ops ser content = Some a"
    and r1: "r1 = r\<lparr>rq_Body := Some \<lparr>bd_chunks = [], bd_end = EOF\<rparr>\<rparr>"
    by (auto simp: decodeObject_def Let_def split: option.splits sum.splits)
  let ?a = "if eh_subset h \<noteq> '''' then ad_SetName ops (setSubsetIntoName (eh_lockName h) (eh_subset h)) a else a"
  have name: "ad_GetName ops a = eh_lockName h"
    using assms ser a by (auto simp: handle_create_def DecodeFrom_def split: if_splits)
  obtain holder where hold: "ad_GetHoldIdentity ops a = (holder, True)"
    using assms ser a name by (auto simp: handle_create_def DecodeFrom_def split: if_splits prod.splits)
  have renamed: "?a = ad_SetName ops (lock_name h) a" using set_same [of a] by (simp add: name lock_name_def)
  have "m = ReportLeader holder" "r' = with_content (ad_Encode ops ser ?a) r"
    using assms ser a name hold r1
    by (auto simp: handle_create_def DecodeFrom_def EncodeInto_def encodeObject_def with_content_def Let_def)
  with ser b name hold show ?thesis unfolding renamed by blast
qed

lemma create_other_name:
  assumes "getSerializer lc r = Inr ser" and "rq_Body r = Some b" and "read_all b = Inl content"
    and "ad_Decode ops ser content = Some a" and "ad_GetName ops a \<noteq> eh_lockName h"
  shows "handle_create lc ops h r = Some (NotHandled, r\<lparr>rq_Body := Some \<lparr>bd_chunks = [], bd_end = EOF\<rparr>\<rparr>)"
  using assms by (simp add: handle_create_def DecodeFrom_def decodeObject_def Let_def)

end

interpretation oa: lock_adapter "objectAdapter lc" for lc
  by unfold_locales (simp_all add: objectAdapter_def object_GetHoldIdentity_def)

interpretation la: lock_adapter "leaseAdapter lc" for lc
  by unfold_locales (simp_all add: leaseAdapter_def lease_GetHoldIdentity_def)

subsection \<open>Names of locks\<close>

lemma lastIndex_suffix: "sub \<noteq> [] \<Longrightarrow> lastIndex (p @ sub) sub = Some (length p)"
proof (induction p)
  case Nil
  then obtain x xs where sub: "sub = x # xs" by (cases sub) auto
  have "lastIndex xs sub = None"
  proof (cases "lastIndex xs sub")
    case (Some i)
    from lastIndex_SomeD [OF Some] show ?thesis by (simp add: sub)
  qed
  moreover have "hasPrefix sub sub" by (simp add: hasPrefix_def)
  ultimately show ?case using sub by simp
qed simp


lemma lock_name_inj:
  assumes "eh_lockName h = eh_lockName h'" and "eh_subset h \<noteq> eh_subset h'"
  shows "lock_name h \<noteq> lock_name h'"
  using assms by (auto simp: lock_name_def setSubsetIntoName_def)

definition is_object_lock :: "request_info \<Rightarrow> bool" where
  "is_object_lock req \<longleftrightarrow> ri_APIGroup req = '''' \<and> ri_APIVersion req = ''v1''
     \<and> ri_Resource req \<in> {''configmaps'', ''endpoints''}"

definition is_lease_lock :: "request_info \<Rightarrow> bool" where
  "is_lease_lock req \<longleftrightarrow> ri_APIGroup req = ''coordination.k8s.io'' \<and> ri_APIVersion req = ''v1''
     \<and> ri_Resource req = ''leases''"

definition creates_lock :: "lock_codec \<Rightarrow> request_info \<Rightarrow> http_request \<Rightarrow> string \<Rightarrow> http_request \<Rightarrow> bool" where
  \<comment> \<open>the second request is the first with its object renamed\<close>
  "creates_lock lc req r n r' \<longleftrightarrow>
     (\<exists>ser b content. getSerializer lc r = Inr ser \<and> rq_Body r = Some b \<and> read_all b = Inl content \<and>
        (if is_lease_lock req
         then (\<exists>a. lc_decodeLease lc ser content = Some a
                 \<and> r' = with_content (lc_encodeLease lc ser (a\<lparr>ls_Name := n\<rparr>)) r)
         else (\<exists>a. lc_decodeObject lc ser content = Some a
                 \<and> r' = with_content (lc_encodeObject lc ser (a\<lparr>lo_Name := n\<rparr>)) r)))"

definition at_path :: "http_request \<Rightarrow> string \<Rightarrow> http_request" where
  "at_path r p = r\<lparr>rq_URL := (rq_URL r)\<lparr>u_Path := p\<rparr>\<rparr>"

lemma adapter_simps [simp]:
  "ad_GetName (objectAdapter lc) = lo_Name" "ad_Encode (objectAdapter lc) = lc_encodeObject lc"
  "ad_Decode (objectAdapter lc) = lc_decodeObject lc"
  "ad_GetName (leaseAdapter lc) = ls_Name" "ad_Encode (leaseAdapter lc) = lc_encodeLease lc"
  "ad_Decode (leaseAdapter lc) = lc_decodeLease lc"
  "ad_SetName (objectAdapter lc) n oa = oa\<lparr>lo_Name := n\<rparr>" "ad_SetName (leaseAdapter lc) n l = l\<lparr>ls_Name := n\<rparr>"
  by (simp_all add: objectAdapter_def leaseAdapter_def)

lemma election_Handle_dispatch:
  assumes "ri_IsResourceRequest req" and "ri_Subresource req = ''''" and "ri_Namespace req = eh_namespace h"
    and "ri_Verb req = ''create'' \<or> ri_Name req = eh_lockName h"
  shows "is_object_lock req \<Longrightarrow> election_Handle lc h req r = handle_verb lc (objectAdapter lc) h (ri_Verb req) r"
    and "is_lease_lock req \<Longrightarrow> election_Handle lc h req r = handle_verb lc (leaseAdapter lc) h (ri_Verb req) r"
  using assms by (auto simp: election_Handle_def is_object_lock_def is_lease_lock_def Let_def)

lemma handle_get_path:
  assumes "u_Path (rq_URL r) = p @ eh_lockName h" and "eh_lockName h \<noteq> ''''"
  shows "handle_get h r = at_path r (p @ lock_name h)"
  using assms by (simp add: handle_get_def at_path_def lock_name_def LastReplace_def lastIndex_suffix)

definition lock_request :: "election_handler \<Rightarrow> request_info \<Rightarrow> bool" where
  \<comment> \<open>a request that the handler may take over\<close>
  "lock_request h req \<longleftrightarrow>
     ri_IsResourceRequest req \<and> ri_Subresource req = '''' \<and> ri_Namespace req = eh_namespace h
     \<and> (is_object_lock req \<or> is_lease_lock req)
     \<and> (ri_Verb req = ''create'' \<or> ri_Verb req \<in> {''get'', ''update''}
         \<and> (ri_Name req = eh_lockName h \<or> hasPrefix (ri_Name req) (eh_lockName h @ ''---'')))"

lemma election_Handle_Handled:
  assumes "election_Handle lc h req r = Some (Handled m, r')"
  shows "lock_request h req"
    and "is_lease_lock req \<Longrightarrow> handle_verb lc (leaseAdapter lc) h (ri_Verb req) r = Some (Handled m, r')"
    and "\<not> is_lease_lock req \<Longrightarrow> handle_verb lc (objectAdapter lc) h (ri_Verb req) r = Some (Handled m, r')"
  using assms
  by (auto simp: election_Handle_def handle_verb_def lock_request_def is_object_lock_def is_lease_lock_def Let_def
      split: if_splits)

lemma election_create_renames:
  assumes "election_Handle lc h req r = Some (Handled m, r')" and "ri_Verb req = ''create''"
  shows "creates_lock lc req r (lock_name h) r'"
proof (cases "is_lease_lock req")
  case True
  with election_Handle_Handled(2) [OF assms(1)] assms(2)
  have "handle_create lc (leaseAdapter lc) h r = Some (Handled m, r')" by (simp add: handle_verb_def)
  from la.create_renames [OF this] True show ?thesis unfolding creates_lock_def by auto
next
  case False
  with election_Handle_Handled(3) [OF assms(1)] assms(2)
  have "handle_create lc (objectAdapter lc) h r = Some (Handled m, r')" by (simp add: handle_verb_def)
  from oa.create_renames [OF this] False show ?thesis unfolding creates_lock_def by auto
qed

lemma election_get_renames:
  assumes "election_Handle lc h req r = Some (Handled m, r')" and "ri_Verb req = ''get''"
    and "u_Path (rq_URL r) = p @ eh_lockName h" and "eh_lockName h \<noteq> ''''"
  shows "r' = at_path r (p @ lock_name h)"
  using election_Handle_Handled(2,3) [OF assms(1)] assms(2) handle_get_path [OF assms(3,4)]
  by (cases "is_lease_lock req") (simp_all add: handle_verb_def)

lemma decodeObject_header: "rq_Header (snd (decodeObject ops ser r)) = rq_Header r"
  by (simp add: decodeObject_def Let_def split: option.split sum.split)

lemma DecodeFrom_header: "DecodeFrom lc ops r = (x, r1) \<Longrightarrow> rq_Header r1 = rq_Header r"
  using decodeObject_header [of ops _ r] by (auto simp: DecodeFrom_def split: sum.splits) (metis snd_conv)

lemma handle_verb_NotHandled: "handle_verb lc ops h v r = Some (NotHandled, r') \<Longrightarrow> rq_Header r' = rq_Header r"
  by (auto simp: handle_verb_def handle_create_def handle_update_def Let_def
      split: prod.splits sum.splits if_splits bind_splits dest: DecodeFrom_header)

lemma NotHandled_header: "election_Handle lc h req r = Some (NotHandled, r') \<Longrightarrow> rq_Header r' = rq_Header r"
  by (auto simp: election_Handle_def Let_def split: if_splits dest: handle_verb_NotHandled)

subsection \<open>Properties\<close>

text \<open>
  C15. Every subset elects its own leader. When a proxy takes over the creation of the lock,
  it forwards the client's request with the object that the client sent, under the name of
  its subset's lock; a get request whose path ends in the lock name is forwarded as it is,
  except that its path names that same lock. Proxies of different subsets with the same
  lock name thereby create and read different locks. (Updates are forwarded under the name
  that the client has read back.)
\<close>

theorem locks_are_per_subset:
  assumes "eh_lockName h = eh_lockName h'" and "eh_subset h \<noteq> eh_subset h'" and "eh_lockName h \<noteq> ''''"
    and "election_Handle lc h req r = Some (Handled m, r1)" and "ri_Verb req = ''create''"
    and "election_Handle lc h' req' r' = Some (Handled m', r1')" and "ri_Verb req' = ''create''"
    and "election_Handle lc h get q = Some (Handled k, q1)" and "ri_Verb get = ''get''"
    and "u_Path (rq_URL q) = p @ eh_lockName h"
    and "election_Handle lc h' get' q' = Some (Handled k', q1')" and "ri_Verb get' = ''get''"
    and "u_Path (rq_URL q') = p' @ eh_lockName h'"
  shows "creates_lock lc req r (lock_name h) r1 \<and> creates_lock lc req' r' (lock_name h') r1'
    \<and> q1 = at_path q (p @ lock_name h) \<and> q1' = at_path q' (p' @ lock_name h')
    \<and> lock_name h \<noteq> lock_name h'"
  using election_create_renames [OF assms(4,5)] election_create_renames [OF assms(6,7)]
    election_get_renames [OF assms(8-10,3)] election_get_renames [OF assms(11-13)] lock_name_inj [OF assms(1,2)] assms(1,3)
  by simp

definition example_lock_codec :: lock_codec where
  "example_lock_codec =
     \<lparr>lc_parseMediaType = Some, lc_supportedMediaTypes = [''application/json''],
      lc_decodeObject = (\<lambda>_ b. Some \<lparr>lo_Name = b, lo_Annotations = [], lo_Rest = ''''\<rparr>), lc_encodeObject = (\<lambda>_. lo_Name),
      lc_decodeLease = (\<lambda>_ b. Some \<lparr>ls_Name = b, ls_HolderIdentity = Some ''me'', ls_Rest = ''''\<rparr>),
      lc_encodeLease = (\<lambda>_. ls_Name), lc_unmarshalRecord = Some\<rparr>"

definition example_election :: "string \<Rightarrow> election_handler" where
  "example_election s = \<lparr>eh_namespace = ''sys'', eh_lockName = ''lock'', eh_subset = s\<rparr>"

definition example_lock_info :: "string \<Rightarrow> string \<Rightarrow> request_info" where
  "example_lock_info grp res =
     \<lparr>ri_IsResourceRequest = True, ri_Path = ''/p'', ri_Verb = ''create'', ri_APIGroup = grp, ri_APIVersion = ''v1'',
      ri_Namespace = ''sys'', ri_Resource = res, ri_Subresource = '''', ri_Name = ''''\<rparr>"

definition example_lock_request :: "string \<Rightarrow> http_request" where
  "example_lock_request content =
     \<lparr>rq_Method = ''POST'',
      rq_URL = \<lparr>u_Scheme = ''https'', u_Host = ''h'', u_Path = ''/leases/lock'', u_RawPath = '''', u_RawQuery = ''''\<rparr>,
      rq_Header = [(''Content-Type'', [''application/json''])], rq_Host = ''h'', rq_RemoteAddr = ''1.2.3.4:80'',
      rq_Close = False, rq_ContentLength = int (length content),
      rq_Body = Some \<lparr>bd_chunks = [content], bd_end = EOF\<rparr>\<rparr>"

lemmas example_lock_defs = example_lock_codec_def example_election_def example_lock_info_def example_lock_request_def

lemma example_lock_serializer: "getSerializer example_lock_codec (example_lock_request c) = Inr ''application/json''"
  by (simp add: getSerializer_def example_lock_defs header_Get_def header_values_def)

lemma example_lease_lock: "is_lease_lock (example_lock_info ''coordination.k8s.io'' ''leases'')"
  by (simp add: is_lease_lock_def example_lock_info_def)

definition example_lock_get :: request_info where
  "example_lock_get = (example_lock_info ''coordination.k8s.io'' ''leases'')\<lparr>ri_Verb := ''get'', ri_Name := ''lock''\<rparr>"

lemma example_lock_created:
  "election_Handle example_lock_codec (example_election s) (example_lock_info ''coordination.k8s.io'' ''leases'')
     (example_lock_request ''lock'')
   = Some (Handled (ReportLeader ''me''), with_content (lock_name (example_election s)) (example_lock_request ''lock''))"
proof -
  let ?req = "example_lock_info ''coordination.k8s.io'' ''leases''" and ?r = "example_lock_request ''lock''"
  have "election_Handle example_lock_codec (example_election s) ?req ?r
      = handle_create example_lock_codec (leaseAdapter example_lock_codec) (example_election s) ?r"
    using example_lease_lock
    by (subst election_Handle_dispatch(2)) (simp_all add: handle_verb_def example_lock_info_def example_election_def)
  moreover have "DecodeFrom example_lock_codec (leaseAdapter example_lock_codec) ?r
      = (Inr \<lparr>ls_Name = ''lock'', ls_HolderIdentity = Some ''me'', ls_Rest = ''''\<rparr>,
         ?r\<lparr>rq_Body := Some \<lparr>bd_chunks = [], bd_end = EOF\<rparr>\<rparr>)"
    by (simp add: DecodeFrom_def example_lock_serializer decodeObject_def)
      (simp add: example_lock_request_def example_lock_codec_def read_all_def)
  ultimately show ?thesis
    by (simp add: handle_create_def EncodeInto_def example_lock_serializer encodeObject_def Let_def
        leaseAdapter_def lease_GetHoldIdentity_def)
      (simp add: example_election_def lock_name_def with_content_def example_lock_codec_def)
qed

lemma example_lock_got:
  "election_Handle example_lock_codec (example_election s) example_lock_get (example_lock_request ''lock'')
   = Some (Handled KeepResponse, handle_get (example_election s) (example_lock_request ''lock''))"
  by (simp add: election_Handle_def handle_verb_def example_lock_get_def example_lock_info_def example_election_def)

theorem locks_are_per_subset_witness:
  "creates_lock example_lock_codec (example_lock_info ''coordination.k8s.io'' ''leases'') (example_lock_request ''lock'')
      ''lock'' (with_content ''lock'' (example_lock_request ''lock''))
   \<and> creates_lock example_lock_codec (example_lock_info ''coordination.k8s.io'' ''leases'') (example_lock_request ''lock'')
      ''lock---v2'' (with_content ''lock---v2'' (example_lock_request ''lock''))
   \<and> handle_get (example_election ''v2'') (example_lock_request ''lock'')
      = at_path (example_lock_request ''lock'') ''/leases/lock---v2''"
proof -
  let ?req = "example_lock_info ''coordination.k8s.io'' ''leases''"
  have v: "ri_Verb ?req = ''create''" "ri_Verb example_lock_get = ''get''"
    by (simp_all add: example_lock_get_def example_lock_info_def)
  have "u_Path (rq_URL (example_lock_request ''lock'')) = ''/leases/'' @ eh_lockName (example_election s)" for s
    by (simp add: example_lock_request_def example_election_def)
  from locks_are_per_subset [OF _ _ _ example_lock_created [of "[]"] v(1) example_lock_created [of "''v2''"] v(1)
      example_lock_got v(2) this example_lock_got v(2) this]
  show ?thesis by (simp add: example_election_def lock_name_def setSubsetIntoName_def)
qed

text \<open>
  C30. Creating another object loses its body. A create request in the proxy's own namespace
  for a ConfigMap, an Endpoints object or a Lease that is not the lock is declined by the
  handler, but its body has been read: what is passed on has an empty body and the old,
  positive content length.
\<close>

theorem create_of_other_object_loses_body:
  assumes "ri_IsResourceRequest req" and "ri_Subresource req = ''''" and "ri_Namespace req = eh_namespace h"
    and "ri_Verb req = ''create''" and "getSerializer lc r = Inr ser"
    and "rq_Body r = Some \<lparr>bd_chunks = [content], bd_end = EOF\<rparr>" and "rq_ContentLength r = int (length content)"
    and "content \<noteq> ''''"
    and "is_object_lock req \<and> (\<exists>a. lc_decodeObject lc ser content = Some a \<and> lo_Name a \<noteq> eh_lockName h)
       \<or> is_lease_lock req \<and> (\<exists>a. lc_decodeLease lc ser content = Some a \<and> ls_Name a \<noteq> eh_lockName h)"
  shows "\<exists>r'. election_Handle lc h req r = Some (NotHandled, r')
    \<and> map_option read_all (rq_Body r') = Some (Inl '''') \<and> 0 < rq_ContentLength r'"
proof -
  have "election_Handle lc h req r = Some (NotHandled, r\<lparr>rq_Body := Some \<lparr>bd_chunks = [], bd_end = EOF\<rparr>\<rparr>)"
    using assms(9) election_Handle_dispatch [OF assms(1-3), of lc r] assms(4)
      oa.create_other_name [OF assms(5,6), of content lc _ h] la.create_other_name [OF assms(5,6), of content lc _ h]
    by (auto simp: handle_verb_def read_all_def)
  with assms(7,8) show ?thesis by (simp add: read_all_def)
qed

theorem create_of_other_object_loses_body_witness:
  "\<exists>r'. election_Handle example_lock_codec (example_election '''') (example_lock_info '''' ''configmaps'')
       (example_lock_request ''settings'') = Some (NotHandled, r')
     \<and> map_option read_all (rq_Body r') = Some (Inl '''') \<and> 0 < rq_ContentLength r'"
  by (rule create_of_other_object_loses_body [where ser = "''application/json''" and content = "''settings''"])
    (simp_all add: example_lock_serializer, simp_all add: example_lock_defs is_object_lock_def)

end
