(* ===== verification/Reverse_Proxy.thy ===== *)
theory Reverse_Proxy
  imports Http_Types
begin

section \<open>The reverse proxy (\<^verbatim>\<open>util/http/reverse_proxy.go\<close>)\<close>

text \<open>
  Both proxies forward requests with this adapted copy of Go's \<^verbatim>\<open>httputil.ReverseProxy\<close>: the
  director that rewrites the URL, the treatment of hop-by-hop headers, the hooks on the
  response and its body, and the loop that copies the body to the client.

  Parameters: \<open>ep\<close> is \<^verbatim>\<open>url.URL.EscapedPath\<close>, \<open>shp\<close> the host part of \<^verbatim>\<open>net.SplitHostPort\<close>
  (\<^const>\<open>None\<close> is its error). A response writer accepts bytes until the connection breaks:
  \<open>rw_Budget\<close> is the number of bytes it still takes (\<^const>\<open>None\<close>: all). The loop that copies
  a body may run for ever on an endless stream; it is a partial function, and not returning
  is \<^const>\<open>None\<close>, as is a panic in a hook.
\<close>

named_theorems proxy_defs \<open>definitions of the reverse proxy\<close>

subsection \<open>URLs and the director\<close>

definition singleJoiningSlash :: "string \<Rightarrow> string \<Rightarrow> string" where
  "singleJoiningSlash a b =
     (let aslash = hasSuffix a ''/''; bslash = hasPrefix b ''/'' in
      if aslash \<and> bslash then a @ drop 1 b
      else if \<not> aslash \<and> \<not> bslash then a @ ''/'' @ b
      else a @ b)"

definition joinURLPath :: "(url \<Rightarrow> string) \<Rightarrow> url \<Rightarrow> url \<Rightarrow> string \<times> string" where
  "joinURLPath ep a b =
     (if u_RawPath a = '''' \<and> u_RawPath b = '''' then (singleJoiningSlash (u_Path a) (u_Path b), '''')
      else (let apath = ep a; bpath = ep b; aslash = hasSuffix apath ''/''; bslash = hasPrefix bpath ''/'' in
            if aslash \<and> bslash then (u_Path a @ drop 1 (u_Path b), apath @ drop 1 bpath)
            else if \<not> aslash \<and> \<not> bslash then (u_Path a @ ''/'' @ u_Path b, apath @ ''/'' @ bpath)
            else (u_Path a @ u_Path b, apath @ bpath)))"

definition single_host_director :: "(url \<Rightarrow> string) \<Rightarrow> url \<Rightarrow> http_request \<Rightarrow> http_request" where
  \<comment> \<open>the closure of \<^verbatim>\<open>NewSingleHostReverseProxy\<close>\<close>
  "single_host_director ep target req =
     (let u = rq_URL req; targetQuery = u_RawQuery target; (path, rawpath) = joinURLPath ep target u;
          query = (if targetQuery = '''' \<or> u_RawQuery u = '''' then targetQuery @ u_RawQuery u
                   else targetQuery @ ''&'' @ u_RawQuery u)
      in req\<lparr>
        rq_URL := u\<lparr>u_Scheme := u_Scheme target, u_Host := u_Host target, u_Path := path, u_RawPath := rawpath,
                    u_RawQuery := query\<rparr>,
        rq_Header := (case map_of (rq_Header req) ''User-Agent'' of
            None \<Rightarrow> header_Set (rq_Header req) ''User-Agent'' ''''
          | Some _ \<Rightarrow> rq_Header req)\<rparr>)"

subsection \<open>Headers\<close>

definition copyHeader :: "header \<Rightarrow> header \<Rightarrow> header" where
  "copyHeader dst src = fold (\<lambda>(k, vv) h. fold (\<lambda>v h. header_Add h k v) vv h) src dst"

definition hopHeaders :: "string list" where
  "hopHeaders = [''Connection'', ''Proxy-Connection'', ''Keep-Alive'', ''Proxy-Authenticate'', ''Proxy-Authorization'',
     ''Te'', ''Trailer'', ''Transfer-Encoding'', ''Upgrade'']"

definition is_space :: "char \<Rightarrow> bool" where
  "is_space c \<longleftrightarrow> c = CHR '' '' \<or> c = CHR 0x09 \<or> c = CHR 0x0A \<or> c = CHR 0x0D"

definition trimString :: "string \<Rightarrow> string" where
  \<comment> \<open>\<^verbatim>\<open>textproto.TrimString\<close>\<close>
  "trimString s = rev (dropWhile is_space (rev (dropWhile is_space s)))"

definition connection_tokens :: "header \<Rightarrow> string list" where
  \<comment> \<open>the names that the values of \<^verbatim>\<open>Connection\<close> list\<close>
  "connection_tokens h =
     filter (\<lambda>sf. sf \<noteq> '''') (map trimString (concat (map (split_on (CHR '','')) (header_values h ''Connection''))))"

definition removeConnectionHeaders :: "header \<Rightarrow> header" where
  "removeConnectionHeaders h = fold (\<lambda>sf h. header_Del h sf) (connection_tokens h) h"

definition tokenEqual :: "string \<Rightarrow> string \<Rightarrow> bool" where
  "tokenEqual a b \<longleftrightarrow> map to_lower a = map to_lower b"

definition upgradeType :: "header \<Rightarrow> string" where
  "upgradeType h =
     (if \<not> list_ex (\<lambda>v. list_ex (\<lambda>t. tokenEqual (trimString t) ''Upgrade'') (split_on (CHR '','') v))
           (header_values h ''Connection'') then ''''
      else map to_lower (header_Get h ''Upgrade''))"

fun remove_hop :: "string list \<Rightarrow> header \<Rightarrow> header" where
  \<comment> \<open>the loop over \<^verbatim>\<open>hopHeaders\<close> on the request\<close>
  "remove_hop [] h = h"
| "remove_hop (x # xs) h =
     (let hv = header_Get h x in
      if hv = '''' then remove_hop xs h
      else if x = ''Te'' \<and> hv = ''trailers'' then remove_hop xs h
      else remove_hop xs (header_Del h x))"

definition forwarded_for :: "(string \<Rightarrow> string option) \<Rightarrow> string \<Rightarrow> header \<Rightarrow> header" where
  "forwarded_for shp remoteAddr h =
     (case shp remoteAddr of
        None \<Rightarrow> h
      | Some clientIP \<Rightarrow>
          (let prior = header_values h ''X-Forwarded-For'';
               omit = (map_of h ''X-Forwarded-For'' = Some []);
               clientIP = (if length prior > 0 then join_with '', '' prior @ '', '' @ clientIP else clientIP)
           in if \<not> omit then header_Set h ''X-Forwarded-For'' clientIP else h))"

definition outgoing_request ::
    "(string \<Rightarrow> string option) \<Rightarrow> (http_request \<Rightarrow> http_request) \<Rightarrow> http_request \<Rightarrow> http_request" where
  \<comment> \<open>\<^verbatim>\<open>outreq\<close> as it is given to the transport\<close>
  "outgoing_request shp director req =
     (let outreq = (if rq_ContentLength req = 0 then req\<lparr>rq_Body := None\<rparr> else req);
          outreq = (director outreq)\<lparr>rq_Close := False\<rparr>;
          reqUpType = upgradeType (rq_Header outreq);
          h = remove_hop hopHeaders (removeConnectionHeaders (rq_Header outreq));
          h = (if reqUpType \<noteq> '''' then header_Set (header_Set h ''Connection'' ''Upgrade'') ''Upgrade'' reqUpType else h);
          h = forwarded_for shp (rq_RemoteAddr req) h
      in outreq\<lparr>rq_Header := h\<rparr>)"

definition strip_response :: "http_response \<Rightarrow> http_response" where
  "strip_response res =
     res\<lparr>rs_Header := fold (\<lambda>x h. header_Del h x) hopHeaders (removeConnectionHeaders (rs_Header res))\<rparr>"

subsection \<open>Writing to the client\<close>

record response_writer =
  rw_Header :: header
  rw_Status :: "nat option"
  rw_Written :: bytes
  rw_Budget :: "nat option"
  rw_Flushes :: nat

definition fresh_writer :: response_writer where
  \<comment> \<open>the writer of a request that has just arrived, on a connection that stays up\<close>
  "fresh_writer = \<lparr>rw_Header = [], rw_Status = None, rw_Written = [], rw_Budget = None, rw_Flushes = 0\<rparr>"

definition WriteHeader :: "nat \<Rightarrow> response_writer \<Rightarrow> response_writer" where
  \<comment> \<open>only the first call counts\<close>
  "WriteHeader code rw = (case rw_Status rw of None \<Rightarrow> rw\<lparr>rw_Status := Some code\<rparr> | Some _ \<Rightarrow> rw)"

definition rw_Write :: "bytes \<Rightarrow> response_writer \<Rightarrow> (nat \<times> bool) \<times> response_writer" where
  \<comment> \<open>the number of bytes written, and whether there was an error\<close>
  "rw_Write p rw =
     (let rw = WriteHeader 200 rw in
      case rw_Budget rw of
        None \<Rightarrow> ((length p, False), rw\<lparr>rw_Written := rw_Written rw @ p\<rparr>)
      | Some k \<Rightarrow>
          if length p \<le> k
          then ((length p, False), rw\<lparr>rw_Written := rw_Written rw @ p, rw_Budget := Some (k - length p)\<rparr>)
          else ((k, True), rw\<lparr>rw_Written := rw_Written rw @ take k p, rw_Budget := Some 0\<rparr>))"

record max_latency_writer =
  mlw_dst :: response_writer
  mlw_latency :: int
  mlw_timer :: "bool option"
  mlw_flushPending :: bool

definition flush :: "response_writer \<Rightarrow> response_writer" where
  "flush rw = rw\<lparr>rw_Flushes := Suc (rw_Flushes rw)\<rparr>"

definition mlw_Write :: "bytes \<Rightarrow> max_latency_writer \<Rightarrow> (nat \<times> bool) \<times> max_latency_writer" where
  \<comment> \<open>the timer is nil, stopped or running\<close>
  "mlw_Write p m =
     (case rw_Write p (mlw_dst m) of (n, dst) \<Rightarrow>
        (let m = m\<lparr>mlw_dst := dst\<rparr> in
         if mlw_latency m < 0 then (n, m\<lparr>mlw_dst := flush dst\<rparr>)
         else if mlw_flushPending m then (n, m)
         else (n, m\<lparr>mlw_timer := Some True, mlw_flushPending := True\<rparr>)))"

definition delayedFlush :: "max_latency_writer \<Rightarrow> max_latency_writer" where
  "delayedFlush m =
     (if \<not> mlw_flushPending m then m
      else m\<lparr>mlw_dst := flush (mlw_dst m), mlw_flushPending := False\<rparr>)"

definition mlw_stop :: "max_latency_writer \<Rightarrow> max_latency_writer" where
  "mlw_stop m = m\<lparr>mlw_flushPending := False, mlw_timer := map_option (\<lambda>_. False) (mlw_timer m)\<rparr>"

subsection \<open>Copying a body\<close>

datatype copy_error = WriteFailed | ShortWrite | CopyRead read_error

partial_function (option) copyBuffer ::
    "(nat \<Rightarrow> 'r \<Rightarrow> ((bytes \<times> read_error option) \<times> 'r) option) \<Rightarrow> (bytes \<Rightarrow> 'w \<Rightarrow> (nat \<times> bool) \<times> 'w)
     \<Rightarrow> nat \<Rightarrow> nat \<Rightarrow> 'r \<Rightarrow> 'w \<Rightarrow> ((nat \<times> copy_error option) \<times> 'r \<times> 'w) option" where
  \<comment> \<open>\<open>len\<close> is the length of the buffer, \<open>written\<close> what was written so far\<close>
  "copyBuffer read write len written src dst =
     do { ((p, rerr), src') \<leftarrow> read len src;
        if length p > 0 then
          (case write p dst of ((nw, werr), dst') \<Rightarrow>
             if werr then Some ((written + nw, Some WriteFailed), src', dst')
             else if length p \<noteq> nw then Some ((written + nw, Some ShortWrite), src', dst')
             else (case rerr of
                     Some EOF \<Rightarrow> Some ((written + nw, None), src', dst')
                   | Some e \<Rightarrow> Some ((written + nw, Some (CopyRead e)), src', dst')
                   | None \<Rightarrow> copyBuffer read write len (written + nw) src' dst'))
        else (case rerr of
                Some EOF \<Rightarrow> Some ((written, None), src', dst)
              | Some e \<Rightarrow> Some ((written, Some (CopyRead e)), src', dst)
              | None \<Rightarrow> copyBuffer read write len written src' dst) }"

definition flushInterval :: "int \<Rightarrow> http_response \<Rightarrow> int" where
  "flushInterval interval res =
     (if header_Get (rs_Header res) ''Content-Type'' = ''text/event-stream'' then - 1 else interval)"

definition copyResponse ::
    "(nat \<Rightarrow> 'r \<times> 's \<Rightarrow> ((bytes \<times> read_error option) \<times> 'r \<times> 's) option) \<Rightarrow> ('s \<Rightarrow> nat \<times> 's) \<Rightarrow> (nat \<Rightarrow> 's \<Rightarrow> 's) \<Rightarrow> int
     \<Rightarrow> 'r \<Rightarrow> 's \<Rightarrow> response_writer \<Rightarrow> (copy_error option \<times> response_writer \<times> 's) option" where
  \<comment> \<open>the buffer comes from the pool, which is part of the state, and goes back to it; the timer
      of the latency writer does not fire in between\<close>
  "copyResponse read get put interval src s rw =
     (case get s of (len, s1) \<Rightarrow>
        (let buf = (if len = 0 then 32 * 1024 else len) in
         if interval \<noteq> 0 then
           do { ((_, err), (_, s2), m) \<leftarrow>
                  copyBuffer read mlw_Write buf 0 (src, s1)
                    \<lparr>mlw_dst = rw, mlw_latency = interval, mlw_timer = Some True, mlw_flushPending = True\<rparr>;
                Some (err, mlw_dst (mlw_stop m), put len s2) }
         else
           do { ((_, err), (_, s2), rw') \<leftarrow> copyBuffer read rw_Write buf 0 (src, s1) rw;
                Some (err, rw', put len s2) }))"

subsection \<open>Serving a request\<close>

record ('r, 's) proxy_hooks =
  ph_Director :: "http_request \<Rightarrow> http_request"
  ph_RoundTrip :: "http_request \<Rightarrow> 's \<Rightarrow> (string + http_response) \<times> 's"
  ph_ModifyResponse :: "http_response \<Rightarrow> 's \<Rightarrow> ((string option \<times> http_response) \<times> 's) option"
  ph_ModifyBody :: "http_response \<Rightarrow> 's \<Rightarrow> 'r \<times> 's"
  ph_Read :: "nat \<Rightarrow> 'r \<times> 's \<Rightarrow> ((bytes \<times> read_error option) \<times> 'r \<times> 's) option"
  ph_FlushInterval :: int
  ph_Get :: "'s \<Rightarrow> nat \<times> 's"
  ph_Put :: "nat \<Rightarrow> 's \<Rightarrow> 's"
  ph_Trailer :: "http_response \<Rightarrow> header"

record upgrade_env =
  ue_hijacker :: bool
  ue_writableBody :: bool
  ue_hijackFails :: bool
  ue_writeFails :: bool
  ue_flushFails :: bool

datatype serve_outcome =
    Served
  | Aborted
  | Switched http_response

definition badGateway :: "response_writer \<Rightarrow> response_writer" where
  \<comment> \<open>the default error handler\<close>
  "badGateway rw = WriteHeader 502 rw"

definition handleUpgradeResponse ::
    "upgrade_env \<Rightarrow> http_request \<Rightarrow> http_response \<Rightarrow> response_writer \<Rightarrow> serve_outcome \<times> response_writer" where
  "handleUpgradeResponse ue req res rw =
     (if upgradeType (rq_Header req) \<noteq> upgradeType (rs_Header res) then (Served, badGateway rw)
      else (let res = res\<lparr>rs_Header := copyHeader (rs_Header res) (rw_Header rw)\<rparr> in
            if \<not> ue_hijacker ue then (Served, badGateway rw)
            else if \<not> ue_writableBody ue then (Served, badGateway rw)
            else if ue_hijackFails ue then (Served, badGateway rw)
            else if ue_writeFails ue then (Served, badGateway rw)
            else if ue_flushFails ue then (Served, badGateway rw)
            else (Switched res, rw)))"

definition announce_trailers :: "header \<Rightarrow> header \<Rightarrow> header" where
  "announce_trailers trailer h =
     (if length trailer > 0 then header_Add h ''Trailer'' (join_with '', '' (map fst trailer)) else h)"

definition copy_trailers :: "nat \<Rightarrow> header \<Rightarrow> header \<Rightarrow> header" where
  "copy_trailers announced trailer h =
     (if length trailer = announced then copyHeader h trailer
      else copyHeader h (map (\<lambda>(k, vv). (''Trailer:'' @ k, vv)) trailer))"

definition serve_body ::
    "('r, 's) proxy_hooks \<Rightarrow> bool \<Rightarrow> http_response \<Rightarrow> response_writer \<Rightarrow> 's
     \<Rightarrow> (serve_outcome \<times> response_writer \<times> 's) option" where
  \<comment> \<open>from the call of \<^verbatim>\<open>ModifyBody\<close> on\<close>
  "serve_body ph underServer res rw s =
     (case ph_ModifyBody ph res s of (body, s1) \<Rightarrow>
        do { (err, rw, s2) \<leftarrow>
               copyResponse (ph_Read ph) (ph_Get ph) (ph_Put ph) (flushInterval (ph_FlushInterval ph) res) body s1 rw;
             case err of
               Some e \<Rightarrow>
                 if \<not> underServer then Some (Served, rw, s2)
                 else if (case e of CopyRead r \<Rightarrow> IsHashChangedError r | _ \<Rightarrow> False) then Some (Served, badGateway rw, s2)
                 else Some (Aborted, rw, s2)
             | None \<Rightarrow>
                 (let trailer = ph_Trailer ph res;
                      rw = (if length trailer > 0 then flush rw else rw)
                  in Some (Served, rw\<lparr>rw_Header := copy_trailers (length (rs_Trailer res)) trailer (rw_Header rw)\<rparr>, s2)) })"

definition proxy_ServeHTTP ::
    "(string \<Rightarrow> string option) \<Rightarrow> ('r, 's) proxy_hooks \<Rightarrow> upgrade_env \<Rightarrow> bool \<Rightarrow> http_request \<Rightarrow> response_writer \<Rightarrow> 's
     \<Rightarrow> (serve_outcome \<times> response_writer \<times> 's) option" where
  "proxy_ServeHTTP shp ph ue underServer req rw s =
     (let outreq = outgoing_request shp (ph_Director ph) req in
      case ph_RoundTrip ph outreq s of
        (Inl err, s) \<Rightarrow> Some (Served, badGateway rw, s)
      | (Inr res, s) \<Rightarrow>
          if rs_StatusCode res = 101 then
            (case ph_ModifyResponse ph res s of
               None \<Rightarrow> Panic
             | Some ((Some err, _), s) \<Rightarrow> Some (Served, badGateway rw, s)
             | Some ((None, res), s) \<Rightarrow>
                 (case handleUpgradeResponse ue outreq res rw of (outcome, rw) \<Rightarrow> Some (outcome, rw, s)))
          else
            (case ph_ModifyResponse ph (strip_response res) s of
               None \<Rightarrow> Panic
             | Some ((Some err, _), s) \<Rightarrow> Some (Served, badGateway rw, s)
             | Some ((None, res), s) \<Rightarrow>
                 (let h = announce_trailers (rs_Trailer res) (copyHeader (rw_Header rw) (rs_Header res))
                  in serve_body ph underServer res (WriteHeader (rs_StatusCode res) (rw\<lparr>rw_Header := h\<rparr>)) s)))"

subsection \<open>What the backend sees\<close>

lemma header_values_fold_Del:
  "header_values (fold (\<lambda>x h. header_Del h x) xs h) k
     = (if k \<in> CanonicalHeaderKey ` set xs then [] else header_values h k)"
  by (induction xs arbitrary: h) (auto simp: header_Del_def)

lemma header_values_removeConnectionHeaders:
  "header_values (removeConnectionHeaders h) k
     = (if k \<in> CanonicalHeaderKey ` set (connection_tokens h) then [] else header_values h k)"
  by (simp add: removeConnectionHeaders_def header_values_fold_Del)

definition hop_removed :: "string \<Rightarrow> string list \<Rightarrow> bool" where
  "hop_removed k vs = (case vs of [] \<Rightarrow> False | v # _ \<Rightarrow> v \<noteq> '''' \<and> \<not> (k = ''Te'' \<and> v = ''trailers''))"

lemma header_values_remove_hop:
  assumes "\<forall>x\<in>set xs. CanonicalHeaderKey x = x"
  shows "header_values (remove_hop xs h) k
     = (if k \<in> set xs \<and> hop_removed k (header_values h k) then [] else header_values h k)"
  using assms
proof (induction xs arbitrary: h)
  case (Cons x xs)
  have x: "CanonicalHeaderKey x = x" using Cons.prems by simp
  show ?case
  proof (cases "hop_removed x (header_values h x)")
    case True
    then have "remove_hop (x # xs) h = remove_hop xs (header_Del h x)"
      by (auto simp: hop_removed_def header_Get_def x Let_def split: list.splits)
    with Cons True show ?thesis by (auto simp: header_Del_def x hop_removed_def)
  next
    case False
    then have "remove_hop (x # xs) h = remove_hop xs h"
      by (auto simp: hop_removed_def header_Get_def x Let_def split: list.splits)
    with Cons False show ?thesis by auto
  qed
qed simp

lemma hopHeaders_canonical: "x \<in> set hopHeaders \<Longrightarrow> CanonicalHeaderKey x = x"
proof -
  have "list_all (\<lambda>x. CanonicalHeaderKey x = x) hopHeaders" by code_simp
  then show "x \<in> set hopHeaders \<Longrightarrow> CanonicalHeaderKey x = x" by (simp add: list_all_iff)
qed

definition stripped :: "header \<Rightarrow> string \<Rightarrow> string list" where
  \<comment> \<open>the values of a header after both removals\<close>
  "stripped h k =
     (if k \<in> CanonicalHeaderKey ` set (connection_tokens h) then []
      else if k \<in> set hopHeaders \<and> hop_removed k (header_values h k) then [] else header_values h k)"

lemma header_values_stripped:
  "header_values (remove_hop hopHeaders (removeConnectionHeaders h)) k = stripped h k"
  by (simp add: header_values_remove_hop hopHeaders_canonical header_values_removeConnectionHeaders stripped_def hop_removed_def)

lemma map_of_header_Del: "map_of (header_Del h x) k = Some [] \<Longrightarrow> map_of h k = Some []"
  by (auto simp: header_Del_def delete_conv' split: if_splits)

lemma map_of_fold_Del: "map_of (fold (\<lambda>x h. header_Del h x) xs h) k = Some [] \<Longrightarrow> map_of h k = Some []"
  by (induction xs arbitrary: h) (auto dest: map_of_header_Del)

lemma map_of_remove_hop: "map_of (remove_hop xs h) k = Some [] \<Longrightarrow> map_of h k = Some []"
proof (induction xs arbitrary: h)
  case (Cons x xs)
  have "remove_hop (x # xs) h = remove_hop xs h \<or> remove_hop (x # xs) h = remove_hop xs (header_Del h x)"
    by (simp add: Let_def)
  with Cons.prems have "map_of h k = Some [] \<or> map_of (header_Del h x) k = Some []"
    using Cons.IH [of h] Cons.IH [of "header_Del h x"] by metis
  then show ?case using map_of_header_Del by blast
qed simp

lemma outgoing_header:
  fixes director req
  defines "h0 \<equiv> rq_Header (director (if rq_ContentLength req = 0 then req\<lparr>rq_Body := None\<rparr> else req))"
  shows "header_values (rq_Header (outgoing_request shp director req)) k =
    (let up = upgradeType h0;
         v = (if up \<noteq> '''' \<and> k = ''Connection'' then [''Upgrade''] else if up \<noteq> '''' \<and> k = ''Upgrade'' then [up]
              else stripped h0 k)
     in if k = ''X-Forwarded-For'' \<and> shp (rq_RemoteAddr req) \<noteq> None
           \<and> map_of (remove_hop hopHeaders (removeConnectionHeaders h0)) k \<noteq> Some []
        then [join_with '', '' (v @ [the (shp (rq_RemoteAddr req))])] else v)"
proof -
  have join: "v \<noteq> [] \<Longrightarrow> join_with '', '' v @ '', '' @ x = join_with '', '' (v @ [x])" for v :: "string list" and x
    by (induction "'', ''" v rule: join_with.induct) auto
  let ?h1 = "remove_hop hopHeaders (removeConnectionHeaders h0)"
  define h2 where "h2 = (if upgradeType h0 \<noteq> ''''
    then header_Set (header_Set ?h1 ''Connection'' ''Upgrade'') ''Upgrade'' (upgradeType h0) else ?h1)"
  have out: "rq_Header (outgoing_request shp director req) = forwarded_for shp (rq_RemoteAddr req) h2"
    by (simp add: outgoing_request_def h0_def h2_def Let_def)
  define v where "v k = (if upgradeType h0 \<noteq> '''' \<and> k = ''Connection'' then [''Upgrade'']
      else if upgradeType h0 \<noteq> '''' \<and> k = ''Upgrade'' then [upgradeType h0] else stripped h0 k)" for k
  have v2: "header_values h2 k = v k" for k
    by (simp add: h2_def v_def header_Set_def header_values_stripped)
  have m2: "map_of h2 ''X-Forwarded-For'' = map_of ?h1 ''X-Forwarded-For''"
    by (simp add: h2_def header_Set_def update_conv')
  have "header_values (forwarded_for shp (rq_RemoteAddr req) h2) k =
     (if k = ''X-Forwarded-For'' \<and> shp (rq_RemoteAddr req) \<noteq> None \<and> map_of ?h1 ''X-Forwarded-For'' \<noteq> Some []
      then [join_with '', '' (v k @ [the (shp (rq_RemoteAddr req))])] else v k)"
    using join [of "v ''X-Forwarded-For''"]
    by (cases "shp (rq_RemoteAddr req)") (auto simp: forwarded_for_def m2 v2 header_Set_def Let_def)
  then show ?thesis unfolding out Let_def v_def [symmetric] by (cases "k = ''X-Forwarded-For''") simp_all
qed

subsection \<open>Copying terminates\<close>

definition body_Read :: "nat \<Rightarrow> body \<Rightarrow> (bytes \<times> read_error option) \<times> body" where
  \<comment> \<open>a read from the body of a response\<close>
  "body_Read n b =
     (case bd_chunks b of
        [] \<Rightarrow> (([], Some (bd_end b)), b)
      | c # cs \<Rightarrow>
          if length c \<le> n then ((c, None), b\<lparr>bd_chunks := cs\<rparr>)
          else ((take n c, None), b\<lparr>bd_chunks := drop n c # cs\<rparr>))"

lemma body_no_chunks: "bd_chunks b = [] \<Longrightarrow> b\<lparr>bd_chunks := []\<rparr> = b"
  by (cases b) simp

lemma copyBuffer_body:
  assumes "0 < len" and rd: "\<And>n b. read n (f b, s) = Some (case body_Read n b of (x, b') \<Rightarrow> (x, f b', s))"
    and wr: "\<And>p w. I w \<Longrightarrow> wrt p w = ((length p, False), put p w)" and inv: "\<And>p w. I w \<Longrightarrow> I (put p w)"
    and put: "\<And>w. put [] w = w" "\<And>p q w. put q (put p w) = put (p @ q) w" and "I w"
  shows "copyBuffer read wrt len written (f b, s) w =
    Some ((written + length (concat (bd_chunks b)), case bd_end b of EOF \<Rightarrow> None | e \<Rightarrow> Some (CopyRead e)),
          (f (b\<lparr>bd_chunks := []\<rparr>), s), put (concat (bd_chunks b)) w)"
  using \<open>I w\<close>
proof (induction "sum_list (map (\<lambda>c. Suc (length c)) (bd_chunks b))" arbitrary: b written w rule: less_induct)
  case less
  show ?case
  proof (cases "bd_chunks b")
    case Nil
    then show ?thesis
      by (subst copyBuffer.simps) (simp add: rd body_Read_def put(1) body_no_chunks split: read_error.splits)
  next
    case (Cons c cs)
    define p where "p = (if length c \<le> len then c else take len c)"
    define b' where "b' = (if length c \<le> len then b\<lparr>bd_chunks := cs\<rparr> else b\<lparr>bd_chunks := drop len c # cs\<rparr>)"
    have read: "read len (f b, s) = Some ((p, None), f b', s)" by (simp add: rd body_Read_def Cons p_def b'_def)
    have small: "sum_list (map (\<lambda>c. Suc (length c)) (bd_chunks b')) < sum_list (map (\<lambda>c. Suc (length c)) (bd_chunks b))"
      using assms(1) by (auto simp: b'_def Cons)
    have split: "p @ concat (bd_chunks b') = concat (bd_chunks b)"
      by (simp add: p_def b'_def Cons flip: append_assoc)
    have eq: "bd_end b' = bd_end b" "b'\<lparr>bd_chunks := []\<rparr> = b\<lparr>bd_chunks := []\<rparr>" by (simp_all add: b'_def)
    have "copyBuffer read wrt len written (f b, s) w = copyBuffer read wrt len (written + length p) (f b', s) (put p w)"
      by (subst copyBuffer.simps) (auto simp: read wr less.prems put(1))
    also have "\<dots> = Some ((written + length p + length (concat (bd_chunks b')),
        case bd_end b of EOF \<Rightarrow> None | e \<Rightarrow> Some (CopyRead e)), (f (b\<lparr>bd_chunks := []\<rparr>), s), put (concat (bd_chunks b')) (put p w))"
      unfolding less.hyps [OF small inv [OF less.prems]] eq ..
    moreover have "length p + length (concat (bd_chunks b')) = length (concat (bd_chunks b))"
      by (metis length_append split)
    ultimately show ?thesis by (simp only: put(2) split add.assoc)
  qed
qed

lemma rw_Write_unlimited:
  "rw_Budget rw = None \<and> rw_Status rw \<noteq> None \<Longrightarrow>
   rw_Write p rw = ((length p, False), rw\<lparr>rw_Written := rw_Written rw @ p\<rparr>)"
  by (auto simp: rw_Write_def WriteHeader_def Let_def split: option.splits)

lemma mlw_Write_pending:
  "rw_Budget (mlw_dst m) = None \<and> rw_Status (mlw_dst m) \<noteq> None \<and> 0 \<le> mlw_latency m \<and> mlw_flushPending m \<Longrightarrow>
   mlw_Write p m = ((length p, False), m\<lparr>mlw_dst := (mlw_dst m)\<lparr>rw_Written := rw_Written (mlw_dst m) @ p\<rparr>\<rparr>)"
  by (simp add: mlw_Write_def rw_Write_unlimited Let_def)

lemma copyResponse_body:
  assumes "get s = (len, s1)" and "\<And>n b. read n (f b, s1) = Some (case body_Read n b of (x, b') \<Rightarrow> (x, f b', s1))"
    and "rw_Budget rw = None" and "rw_Status rw \<noteq> None" and "0 \<le> interval"
  shows "copyResponse read get put interval (f b) s rw =
    Some (case bd_end b of EOF \<Rightarrow> None | e \<Rightarrow> Some (CopyRead e),
          rw\<lparr>rw_Written := rw_Written rw @ concat (bd_chunks b)\<rparr>, put len s1)"
proof (cases "interval = 0")
  case True
  have "copyBuffer read rw_Write (if len = 0 then 32 * 1024 else len) 0 (f b, s1) rw =
      Some ((0 + length (concat (bd_chunks b)), case bd_end b of EOF \<Rightarrow> None | e \<Rightarrow> Some (CopyRead e)),
        (f (b\<lparr>bd_chunks := []\<rparr>), s1), rw\<lparr>rw_Written := rw_Written rw @ concat (bd_chunks b)\<rparr>)"
    using assms(3,4)
    by (intro copyBuffer_body [where I = "\<lambda>rw. rw_Budget rw = None \<and> rw_Status rw \<noteq> None" and wrt = rw_Write
          and put = "\<lambda>p rw. rw\<lparr>rw_Written := rw_Written rw @ p\<rparr>", OF _ assms(2) rw_Write_unlimited]) auto
  then show ?thesis using True by (simp add: copyResponse_def assms(1) Let_def)
next
  case False
  let ?m = "\<lparr>mlw_dst = rw, mlw_latency = interval, mlw_timer = Some True, mlw_flushPending = True\<rparr>"
  let ?put = "\<lambda>p m. m\<lparr>mlw_dst := (mlw_dst m)\<lparr>rw_Written := rw_Written (mlw_dst m) @ p\<rparr>\<rparr>"
  have "copyBuffer read mlw_Write (if len = 0 then 32 * 1024 else len) 0 (f b, s1) ?m =
      Some ((0 + length (concat (bd_chunks b)), case bd_end b of EOF \<Rightarrow> None | e \<Rightarrow> Some (CopyRead e)),
        (f (b\<lparr>bd_chunks := []\<rparr>), s1), ?put (concat (bd_chunks b)) ?m)"
    using assms(3,4,5)
    by (intro copyBuffer_body [where I = "\<lambda>m. rw_Budget (mlw_dst m) = None \<and> rw_Status (mlw_dst m) \<noteq> None
            \<and> 0 \<le> mlw_latency m \<and> mlw_flushPending m" and wrt = mlw_Write
          and put = ?put, OF _ assms(2) mlw_Write_pending]) auto
  then show ?thesis using False by (simp add: copyResponse_def assms(1) mlw_stop_def Let_def)
qed

lemma serve_body_delivers:
  assumes "ph_ModifyBody ph res s = (f (rs_Body res), s)" and "ph_Get ph s = (len, s1)"
    and "\<And>n b. ph_Read ph n (f b, s1) = Some (case body_Read n b of (x, b') \<Rightarrow> (x, f b', s1))"
    and "0 \<le> flushInterval (ph_FlushInterval ph) res"
    and "rw_Budget rw = None" and "rw_Status rw = Some code" and "rw_Written rw = []"
  shows "\<exists>rw'. serve_body ph True res rw s =
      Some (if bd_end (rs_Body res) = EOF \<or> IsHashChangedError (bd_end (rs_Body res)) then Served else Aborted,
            rw', ph_Put ph len s1)
    \<and> rw_Status rw' = Some code \<and> rw_Written rw' = concat (bd_chunks (rs_Body res))"
proof -
  let ?b = "rs_Body res"
  define rw2 where "rw2 = rw\<lparr>rw_Written := concat (bd_chunks ?b)\<rparr>"
  have copy: "copyResponse (ph_Read ph) (ph_Get ph) (ph_Put ph) (flushInterval (ph_FlushInterval ph) res) (f ?b) s rw
      = Some (case bd_end ?b of EOF \<Rightarrow> None | e \<Rightarrow> Some (CopyRead e), rw2, ph_Put ph len s1)"
    using copyResponse_body [of "ph_Get ph" s len s1 "ph_Read ph" f rw "flushInterval (ph_FlushInterval ph) res" "ph_Put ph" ?b,
        OF assms(2,3,5)] assms(4,6,7)
    by (simp add: rw2_def)
  have rw2: "rw_Status rw2 = Some code" "rw_Written rw2 = concat (bd_chunks ?b)"
    by (simp_all add: rw2_def assms(6))
  show ?thesis
    unfolding serve_body_def assms(1)
    using rw2 by (cases "bd_end ?b") (auto simp: copy IsHashChangedError_def badGateway_def WriteHeader_def flush_def Let_def)
qed

subsection \<open>Invariants of the state behind the hooks\<close>

lemma copyBuffer_reader_keeps:
  assumes "copyBuffer read wr len written src dst = Some (r, src', dst')" and "I src"
    and "\<And>n s x s'. I s \<Longrightarrow> read n s = Some (x, s') \<Longrightarrow> I s'"
  shows "I src'"
proof -
  let ?P = "\<lambda>read _ _ _ src _ y.
    (\<forall>n s x s'. I s \<longrightarrow> read n s = Some (x, s') \<longrightarrow> I s') \<longrightarrow> I src \<longrightarrow> I (fst (snd y))"
  have "?P read wr len written src dst (r, src', dst')"
  proof (rule copyBuffer.raw_induct [where P = ?P, OF _ assms(1)], goal_cases)
    case (1 cb read wr len written src dst y)
    from 1(2) show ?case
      by (auto split: prod.splits if_splits option.splits read_error.splits bind_splits dest!: 1(1))
  qed
  with assms(2,3) show ?thesis by auto
qed

text \<open>
  The contract between the proxy and its hooks: if every hook keeps an invariant of the
  state, serving a request keeps it, however the request ends.
\<close>

locale hook_invariant =
  fixes ph :: "('r, 's) proxy_hooks" and I :: "'s \<Rightarrow> bool"
  assumes round_trip: "I s \<Longrightarrow> ph_RoundTrip ph q s = (x, s') \<Longrightarrow> I s'"
    and modify_response: "I s \<Longrightarrow> ph_ModifyResponse ph r s = Some (x1, s') \<Longrightarrow> I s'"
    and modify_body: "I s \<Longrightarrow> ph_ModifyBody ph r s = (x2, s') \<Longrightarrow> I s'"
    and read_keeps: "I s \<Longrightarrow> ph_Read ph n (b, s) = Some (x3, b', s') \<Longrightarrow> I s'"
    and get_keeps: "I s \<Longrightarrow> ph_Get ph s = (x4, s') \<Longrightarrow> I s'"
    and put_keeps: "I s \<Longrightarrow> I (ph_Put ph len s)"
begin

lemma copy_keeps:
  assumes "copyBuffer (ph_Read ph) w len n (b, s) dst = Some (r, (b', s'), dst')" and "I s"
  shows "I s'"
  using copyBuffer_reader_keeps [OF assms(1), where I = "\<lambda>x. I (snd x)"] assms(2) read_keeps by fastforce

lemma copyResponse_keeps:
  assumes "copyResponse (ph_Read ph) (ph_Get ph) (ph_Put ph) iv b s rw = Some (err, rw', s')" and "I s"
  shows "I s'"
proof -
  obtain len s1 where get: "ph_Get ph s = (len, s1)" by fastforce
  with assms(2) have "I s1" by (rule get_keeps)
  with assms(1) get show ?thesis
    by (auto simp: copyResponse_def Let_def split: if_splits bind_splits dest!: copy_keeps intro: put_keeps)
qed

lemma serve_body_keeps:
  assumes "serve_body ph us res rw s = Some (oc, rw', s')" and "I s"
  shows "I s'"
proof -
  obtain b s1 where b: "ph_ModifyBody ph res s = (b, s1)" by fastforce
  with assms(2) have "I s1" by (rule modify_body)
  with assms(1) b show ?thesis
    by (auto simp: serve_body_def Let_def split: if_splits bind_splits option.splits dest!: copyResponse_keeps)
qed

lemma ServeHTTP_keeps:
  assumes "proxy_ServeHTTP shp ph ue us req rw s = Some (oc, rw', s')" and "I s"
  shows "I s'"
proof -
  obtain x s1 where rt: "ph_RoundTrip ph (outgoing_request shp (ph_Director ph) req) s = (x, s1)" by fastforce
  with assms(2) have I1: "I s1" by (rule round_trip)
  have mr: "I s2" if "ph_ModifyResponse ph q s1 = Some (y, s2)" for q y s2
    using I1 that by (rule modify_response)
  show ?thesis
    using assms(1) rt I1
    by (auto simp: proxy_ServeHTTP_def Let_def split: sum.splits if_splits option.splits prod.splits
        dest: mr dest!: serve_body_keeps)
qed

end

subsection \<open>Properties\<close>

text \<open>
  C31. What the backend receives. A hop-by-hop header reaches the backend only as the
  \<^verbatim>\<open>Te: trailers\<close> announcement, as part of a protocol upgrade, or with an empty first value:
  such headers escape the removal. A header that the client's \<^verbatim>\<open>Connection\<close> nominates is
  removed, every other header is passed on unchanged, and the client's address is appended
  to \<^verbatim>\<open>X-Forwarded-For\<close>.
\<close>

theorem backend_headers:
  assumes "h0 = rq_Header (director (if rq_ContentLength req = 0 then req\<lparr>rq_Body := None\<rparr> else req))"
    and "out = rq_Header (outgoing_request shp director req)"
    and "nominated = CanonicalHeaderKey ` set (connection_tokens h0)" and "\<forall>k. map_of h0 k \<noteq> Some []"
  shows "(\<forall>k\<in>set hopHeaders. header_values out k \<noteq> [] \<longrightarrow>
        (k = ''Te'' \<and> hd (header_values out k) = ''trailers'')
        \<or> (k \<in> {''Connection'', ''Upgrade''} \<and> upgradeType h0 \<noteq> '''') \<or> hd (header_values out k) = '''')
    \<and> (\<forall>k\<in>nominated. k \<notin> {''Connection'', ''Upgrade'', ''X-Forwarded-For''} \<longrightarrow> header_values out k = [])
    \<and> (\<forall>k. k \<notin> set hopHeaders \<longrightarrow> k \<notin> nominated \<longrightarrow> k \<noteq> ''X-Forwarded-For'' \<longrightarrow>
        header_values out k = header_values h0 k)
    \<and> (\<forall>ip. shp (rq_RemoteAddr req) = Some ip \<longrightarrow> ''X-Forwarded-For'' \<notin> nominated \<longrightarrow>
        header_values out ''X-Forwarded-For'' = [join_with '', '' (header_values h0 ''X-Forwarded-For'' @ [ip])])"
proof -
  let ?h1 = "remove_hop hopHeaders (removeConnectionHeaders h0)"
  have nonil: "map_of ?h1 k \<noteq> Some []" for k
    using assms(4) map_of_remove_hop [of hopHeaders "removeConnectionHeaders h0" k] map_of_fold_Del
    unfolding removeConnectionHeaders_def by blast
  have out: "header_values out k = (let up = upgradeType h0;
         v = (if up \<noteq> '''' \<and> k = ''Connection'' then [''Upgrade''] else if up \<noteq> '''' \<and> k = ''Upgrade'' then [up]
              else stripped h0 k)
     in if k = ''X-Forwarded-For'' \<and> shp (rq_RemoteAddr req) \<noteq> None
        then [join_with '', '' (v @ [the (shp (rq_RemoteAddr req))])] else v)" for k
    unfolding assms(1,2) outgoing_header using nonil [of k] by (simp add: assms(1) Let_def)
  have hop: "''X-Forwarded-For'' \<notin> set hopHeaders" "{''Connection'', ''Upgrade''} \<subseteq> set hopHeaders"
    by (simp_all add: hopHeaders_def)
  have first: "hd (stripped h0 k) = '''' \<or> k = ''Te'' \<and> hd (stripped h0 k) = ''trailers''"
    if "k \<in> set hopHeaders" "stripped h0 k \<noteq> []" for k
    using that by (auto simp: stripped_def hop_removed_def split: if_splits list.splits)
  show ?thesis
  proof (intro conjI ballI allI impI)
    fix k assume "k \<in> set hopHeaders" "header_values out k \<noteq> []"
    with first [of k] hop(1) show "(k = ''Te'' \<and> hd (header_values out k) = ''trailers'')
        \<or> (k \<in> {''Connection'', ''Upgrade''} \<and> upgradeType h0 \<noteq> '''') \<or> hd (header_values out k) = ''''"
      by (auto simp: out Let_def split: if_splits)
  next
    fix k assume "k \<in> nominated" "k \<notin> {''Connection'', ''Upgrade'', ''X-Forwarded-For''}"
    then show "header_values out k = []" by (simp add: out Let_def stripped_def assms(3))
  next
    fix k assume "k \<notin> set hopHeaders" "k \<notin> nominated" "k \<noteq> ''X-Forwarded-For''"
    with hop(2) show "header_values out k = header_values h0 k"
      by (auto simp: out Let_def stripped_def assms(3))
  next
    fix ip assume "shp (rq_RemoteAddr req) = Some ip" "''X-Forwarded-For'' \<notin> nominated"
    then show "header_values out ''X-Forwarded-For'' = [join_with '', '' (header_values h0 ''X-Forwarded-For'' @ [ip])]"
      using hop(1) by (simp add: out Let_def stripped_def assms(3))
  qed
qed

definition example_hop_request :: http_request where
  "example_hop_request =
     \<lparr>rq_Method = ''GET'',
      rq_URL = \<lparr>u_Scheme = ''http'', u_Host = ''h'', u_Path = ''/'', u_RawPath = '''', u_RawQuery = ''''\<rparr>,
      rq_Header = [(''Connection'', [''X-Secret'']), (''X-Secret'', [''1'']), (''Keep-Alive'', [''5'']),
                   (''Upgrade'', ['''', ''h2c'']), (''Accept'', [''a'']), (''X-Forwarded-For'', [''10.0.0.1''])],
      rq_Host = ''h'', rq_RemoteAddr = ''10.0.0.2:80'', rq_Close = False, rq_ContentLength = 0, rq_Body = None\<rparr>"

theorem backend_headers_witness:
  "(let out = rq_Header (outgoing_request (\<lambda>_. Some ''10.0.0.2'') id example_hop_request) in
    header_values out ''X-Secret'' = [] \<and> header_values out ''Accept'' = [''a'']
    \<and> header_values out ''X-Forwarded-For'' = [''10.0.0.1, 10.0.0.2''])
   \<and> header_values (rq_Header (outgoing_request (\<lambda>_. Some ''10.0.0.2'') id example_hop_request)) ''Upgrade'' = ['''', ''h2c'']"
proof -
  let ?h0 = "rq_Header example_hop_request"
  let ?out = "rq_Header (outgoing_request (\<lambda>_. Some ''10.0.0.2'') id example_hop_request)"
  have h0: "?h0 = rq_Header (id (if rq_ContentLength example_hop_request = 0
      then example_hop_request\<lparr>rq_Body := None\<rparr> else example_hop_request))"
    by (simp add: example_hop_request_def)
  have nom: "CanonicalHeaderKey ` set (connection_tokens ?h0) = {''X-Secret''}" by code_simp
  have nonil: "\<forall>k. map_of ?h0 k \<noteq> Some []" by (simp add: example_hop_request_def)
  have up: "header_values ?out ''Upgrade'' = ['''', ''h2c'']" by code_simp
  note thms = backend_headers [where director = id and req = example_hop_request and shp = "\<lambda>_. Some ''10.0.0.2''",
      OF h0 refl nom [symmetric] nonil]
  have "header_values ?out ''X-Secret'' = []"
    using thms by simp
  moreover have "header_values ?out ''Accept'' = header_values ?h0 ''Accept''"
    using thms by (simp add: hopHeaders_def)
  moreover have "header_values ?out ''X-Forwarded-For''
      = [join_with '', '' (header_values ?h0 ''X-Forwarded-For'' @ [''10.0.0.2''])]"
    using thms by simp
  ultimately show ?thesis using up by (simp add: example_hop_request_def header_values_def)
qed

text \<open>
  C32. A response is delivered. If the transport returns a response with a finite body, no
  hook modifies it and the client's connection holds, then serving the request returns, the
  client has the response's status and exactly the bytes of its body; if reading the body
  breaks off with an error, the handler aborts after the bytes read so far.
\<close>

theorem response_delivered:
  assumes "ph_RoundTrip ph (outgoing_request shp (ph_Director ph) req) s = (Inr res, s)"
    and "rs_StatusCode res \<noteq> 101" and "\<And>r. ph_ModifyResponse ph r s = Some ((None, r), s)"
    and "\<And>r. ph_ModifyBody ph r s = (rs_Body r, s)" and "ph_Get ph s = (len, s1)"
    and "\<And>n b. ph_Read ph n (b, s1) = Some (case body_Read n b of (x, b') \<Rightarrow> (x, b', s1))"
    and "0 \<le> flushInterval (ph_FlushInterval ph) (strip_response res)"
    and "rw = fresh_writer"
  shows "\<exists>rw'. proxy_ServeHTTP shp ph ue True req rw s =
      Some (if bd_end (rs_Body res) = EOF \<or> IsHashChangedError (bd_end (rs_Body res)) then Served else Aborted,
            rw', ph_Put ph len s1)
    \<and> rw_Status rw' = Some (rs_StatusCode res) \<and> rw_Written rw' = concat (bd_chunks (rs_Body res))"
proof -
  let ?res = "strip_response res"
  have body: "rs_Body ?res = rs_Body res" "rs_StatusCode ?res = rs_StatusCode res" by (simp_all add: strip_response_def)
  define rw1 where "rw1 = WriteHeader (rs_StatusCode res)
    (rw\<lparr>rw_Header := announce_trailers (rs_Trailer ?res) (copyHeader (rw_Header rw) (rs_Header ?res))\<rparr>)"
  have rw1: "rw_Budget rw1 = None" "rw_Status rw1 = Some (rs_StatusCode res)" "rw_Written rw1 = []"
    by (simp_all add: rw1_def WriteHeader_def fresh_writer_def assms(8))
  have "proxy_ServeHTTP shp ph ue True req rw s = serve_body ph True ?res rw1 s"
    by (simp add: proxy_ServeHTTP_def assms(1,2,3) rw1_def body Let_def)
  then show ?thesis
    using serve_body_delivers [where f = id and ph = ph and res = ?res and s = s and rw = rw1] assms(4,5,6,7) rw1 body
    by simp
qed

definition example_hooks :: "(body, bytes_pool) proxy_hooks" where
  "example_hooks =
     \<lparr>ph_Director = id,
      ph_RoundTrip = (\<lambda>_ s. (Inr \<lparr>rs_StatusCode = 200, rs_Header = [(''Content-Type'', [''text/plain''])],
         rs_Body = \<lparr>bd_chunks = [''hello '', ''world''], bd_end = EOF\<rparr>, rs_ContentLength = 11, rs_Trailer = []\<rparr>, s)),
      ph_ModifyResponse = (\<lambda>r s. Some ((None, r), s)), ph_ModifyBody = (\<lambda>r s. (rs_Body r, s)),
      ph_Read = (\<lambda>n (b, s). Some (case body_Read n b of (x, b') \<Rightarrow> (x, b', s))), ph_FlushInterval = 0,
      ph_Get = pool_Get, ph_Put = pool_Put, ph_Trailer = (\<lambda>_. [])\<rparr>"

theorem response_delivered_witness:
  "\<exists>rw'. proxy_ServeHTTP (\<lambda>_. None) example_hooks
       \<lparr>ue_hijacker = True, ue_writableBody = True, ue_hijackFails = False, ue_writeFails = False, ue_flushFails = False\<rparr>
       True example_hop_request fresh_writer BytesPool
     = Some (Served, rw', pool_Put 32768 BytesPool)
     \<and> rw_Status rw' = Some 200 \<and> rw_Written rw' = ''hello world''"
proof -
  let ?res = "\<lparr>rs_StatusCode = 200, rs_Header = [(''Content-Type'', [''text/plain''])],
      rs_Body = \<lparr>bd_chunks = [''hello '', ''world''], bd_end = EOF\<rparr>, rs_ContentLength = 11, rs_Trailer = []\<rparr>"
  have rt: "ph_RoundTrip example_hooks (outgoing_request (\<lambda>_. None) (ph_Director example_hooks) example_hop_request) BytesPool
      = (Inr ?res, BytesPool)" by (simp add: example_hooks_def)
  have ct: "header_Get (rs_Header (strip_response ?res)) ''Content-Type'' = ''text/plain''" by code_simp
  show ?thesis
    using response_delivered [where ph = example_hooks and s = BytesPool and shp = "\<lambda>_. None" and len = 32768
        and ?s1.0 = BytesPool and req = example_hop_request and res = ?res, OF rt _ _ _ _ _ _ refl] ct
    by (simp add: example_hooks_def pool_Get_def BytesPool_def flushInterval_def)
qed

end
