(* ===== verification/Traffic_Control.thy ===== *)
theory Traffic_Control
  imports Http_Types Route_Gen
begin

section \<open>Traffic control of the proxy (\<^verbatim>\<open>proxy/filters/traffic\<close>)\<close>

text \<open>
  The filter in front of the API-server proxy: which policies apply to this proxy, which
  rules match a request, circuit breaking, and the three rate limits (requests in flight, a
  token bucket, exponential backoff).

  A request passes the filter in two steps: admission, and, for a forwarded request, the
  deferred functions that run when the inner handler returns. Deferred functions are data:
  which rate control they belong to, what they release, and the status they were given.
  Times and durations are integers (nanoseconds). The token bucket is the vendored
  \<^verbatim>\<open>golang.org/x/time/rate\<close>, the parameter \<open>lim\<close>; encoding a policy as JSON is the
  parameter \<open>djr\<close>.

  The keys of the map of failures are Go interface values. A map operation whose key has a
  dynamic type that cannot be hashed panics, and \<^verbatim>\<open>request.RequestInfo\<close> is such a type: it
  has the slice \<^verbatim>\<open>Parts\<close>.
\<close>

named_theorems traffic_defs \<open>definitions of the traffic filter\<close>

subsection \<open>Policies (\<^verbatim>\<open>trafficpolicy_types.go\<close>)\<close>

record ResourcePolicyRule =
  rpr_Verbs :: "string list"
  rpr_APIGroups :: "string list"
  rpr_Resources :: "string list"
  rpr_ClusterScope :: bool
  rpr_Namespaces :: "string list"

record NonResourcePolicyRule =
  nrr_Verbs :: "string list"
  nrr_NonResourceURLs :: "string list"

record TrafficAPIServerRules =
  tar_ResourceRules :: "ResourcePolicyRule list"
  tar_NonResourceRules :: "NonResourcePolicyRule list"

record TrafficRateLimitingBucket =
  tb_QPS :: int
  tb_Burst :: int

record TrafficRateLimitingExponentialBackoff =
  eb_BaseDelayInMillisecond :: int
  eb_MaxDelayInMillisecond :: int
  eb_ContinuouslyFailureTimes :: int

record TrafficRateLimitingPolicy =
  trp_Rules :: TrafficAPIServerRules
  trp_MaxInFlight :: "int option"
  trp_Bucket :: "TrafficRateLimitingBucket option"
  trp_ExponentialBackoff :: "TrafficRateLimitingExponentialBackoff option"

record TrafficTargetVirtualApp =
  ttv_Name :: string
  ttv_SpecificSubsets :: "string list"

record TrafficCircuitBreaking =
  tcb_APIServer :: "TrafficAPIServerRules option"

record TrafficPolicy =
  tp_Name :: string
  tp_TargetVirtualApps :: "TrafficTargetVirtualApp list"
  tp_CircuitBreaking :: "TrafficCircuitBreaking option"
  tp_RateLimiting :: "TrafficRateLimitingPolicy list option"

subsection \<open>Matching rules (\<^verbatim>\<open>rules_util.go\<close>)\<close>

definition policy_containsString :: "string \<Rightarrow> string list \<Rightarrow> string \<Rightarrow> bool" where
  "policy_containsString x xs wildcard \<longleftrightarrow> (length xs = 1 \<and> hd xs = wildcard) \<or> x \<in> set xs"

definition rsJoin :: "string \<Rightarrow> string \<Rightarrow> string" where
  "rsJoin requestResource requestSubresource =
     (if requestSubresource \<noteq> '''' then requestResource @ ''/'' @ requestSubresource else requestResource)"

definition matchPolicyRuleVerb :: "string list \<Rightarrow> string \<Rightarrow> bool" where
  "matchPolicyRuleVerb verbs verb = policy_containsString verb verbs ''*''"

definition matchPolicyRuleAPIGroup :: "string list \<Rightarrow> string \<Rightarrow> bool" where
  "matchPolicyRuleAPIGroup groups apiGroup = policy_containsString apiGroup groups ''*''"

definition matchPolicyRuleResource :: "string list \<Rightarrow> string \<Rightarrow> string \<Rightarrow> bool" where
  "matchPolicyRuleResource rs res sub = policy_containsString (rsJoin res sub) rs ''*''"

fun matchPolicyRuleNonResourceURL :: "string list \<Rightarrow> string \<Rightarrow> bool" where
  "matchPolicyRuleNonResourceURL [] requestPath = False"
| "matchPolicyRuleNonResourceURL (rulePath # rulePaths) requestPath =
     (if rulePath = ''*'' \<or> rulePath = requestPath then True
      else (let rulePrefix = trimSuffix rulePath ''*'';
                rulePrefix = (if \<not> hasSuffix rulePrefix ''/'' then rulePrefix @ ''/'' else rulePrefix)
            in if hasPrefix requestPath rulePrefix then True
               else matchPolicyRuleNonResourceURL rulePaths requestPath))"

definition matchesResourcePolicyRule :: "request_info \<Rightarrow> ResourcePolicyRule \<Rightarrow> bool" where
  "matchesResourcePolicyRule ri rule =
     (if \<not> matchPolicyRuleVerb (rpr_Verbs rule) (ri_Verb ri) then False
      else if \<not> matchPolicyRuleResource (rpr_Resources rule) (ri_Resource ri) (ri_Subresource ri) then False
      else if \<not> matchPolicyRuleAPIGroup (rpr_APIGroups rule) (ri_APIGroup ri) then False
      else if length (ri_Namespace ri) = 0 then rpr_ClusterScope rule
      else policy_containsString (ri_Namespace ri) (rpr_Namespaces rule) ''*'')"

definition matchesNonResourcePolicyRule :: "request_info \<Rightarrow> NonResourcePolicyRule \<Rightarrow> bool" where
  "matchesNonResourcePolicyRule ri rule =
     (if \<not> matchPolicyRuleVerb (nrr_Verbs rule) (ri_Verb ri) then False
      else matchPolicyRuleNonResourceURL (nrr_NonResourceURLs rule) (ri_Path ri))"

definition matchesAResourceRule :: "request_info \<Rightarrow> ResourcePolicyRule list \<Rightarrow> bool" where
  "matchesAResourceRule ri rules = list_ex (matchesResourcePolicyRule ri) rules"

definition matchesANonResourceRule :: "request_info \<Rightarrow> NonResourcePolicyRule list \<Rightarrow> bool" where
  "matchesANonResourceRule ri rules = list_ex (matchesNonResourcePolicyRule ri) rules"

definition matchesAPIServerRules :: "request_info \<Rightarrow> TrafficAPIServerRules \<Rightarrow> bool" where
  "matchesAPIServerRules ri rules =
     (if ri_IsResourceRequest ri then matchesAResourceRule ri (tar_ResourceRules rules)
      else matchesANonResourceRule ri (tar_NonResourceRules rules))"

subsection \<open>Exponential backoff (\<^verbatim>\<open>rate_util.go\<close>)\<close>

datatype iface = IString string | IRequestInfo request_info

fun hashable :: "iface \<Rightarrow> bool" where
  "hashable (IString _) = True"
| "hashable (IRequestInfo _) = False"

record rateExponentialFailure =
  ef_failureTimes :: int
  ef_nextTime :: "int option"

record rateExponentialBackoff =
  reb_policy :: TrafficRateLimitingExponentialBackoff
  reb_failures :: "(iface, rateExponentialFailure) gomap"

definition wrap_int :: "nat \<Rightarrow> int \<Rightarrow> int" where
  \<comment> \<open>two's complement in \<open>w\<close> bits\<close>
  "wrap_int w i = (i + 2 ^ (w - 1)) mod 2 ^ w - 2 ^ (w - 1)"

definition backoff_delay ::
    "int \<Rightarrow> iface \<Rightarrow> rateExponentialBackoff \<Rightarrow> ((int \<times> bool) \<times> rateExponentialBackoff) option" where
  "backoff_delay now item eb =
     (if \<not> hashable item then Panic
      else case map_of (reb_failures eb) item of
        None \<Rightarrow> Some ((0, False), eb)
      | Some ef \<Rightarrow>
          (case ef_nextTime ef of
             None \<Rightarrow> Some ((0, True), eb)
           | Some nextTime \<Rightarrow>
               (let delay = nextTime - now in
                if delay < 0
                then Some ((0, True),
                  eb\<lparr>reb_failures := AList.update item (ef\<lparr>ef_nextTime := None\<rparr>) (reb_failures eb)\<rparr>)
                else Some ((delay, True), eb))))"

definition backoff_succeed :: "iface \<Rightarrow> rateExponentialBackoff \<Rightarrow> rateExponentialBackoff option" where
  "backoff_succeed item eb =
     (if \<not> hashable item then Panic
      else Some (eb\<lparr>reb_failures := AList.delete item (reb_failures eb)\<rparr>))"

definition next_backoff :: "TrafficRateLimitingExponentialBackoff \<Rightarrow> int \<Rightarrow> int" where
  \<comment> \<open>the duration added to the current time for \<^verbatim>\<open>delta > 0\<close>. The float product is exact; a
      float of \<^verbatim>\<open>1 << 63\<close> becomes the smallest int64\<close>
  "next_backoff p delta =
     (let backoff = eb_BaseDelayInMillisecond p * 2 ^ nat (delta - 1);
          maxBackOff = eb_MaxDelayInMillisecond p * 1000000
      in if backoff > 2 ^ 63 then maxBackOff
         else (let calculated = (if backoff = 2 ^ 63 then - (2 ^ 63) else backoff)
               in if calculated > maxBackOff then maxBackOff else calculated))"

definition backoff_failed :: "int \<Rightarrow> iface \<Rightarrow> rateExponentialBackoff \<Rightarrow> rateExponentialBackoff option" where
  "backoff_failed now item eb =
     (if \<not> hashable item then Panic
      else (let ef = (case map_of (reb_failures eb) item of
                        None \<Rightarrow> \<lparr>ef_failureTimes = 0, ef_nextTime = None\<rparr> | Some ef \<Rightarrow> ef);
                ef = (if ef_failureTimes ef < 2 ^ 31 - 1 then ef\<lparr>ef_failureTimes := ef_failureTimes ef + 1\<rparr> else ef);
                delta = wrap_int 32 (ef_failureTimes ef - eb_ContinuouslyFailureTimes (reb_policy eb));
                ef = (if delta \<le> 0 then ef else ef\<lparr>ef_nextTime := Some (now + next_backoff (reb_policy eb) delta)\<rparr>)
            in Some (eb\<lparr>reb_failures := AList.update item ef (reb_failures eb)\<rparr>)))"

subsection \<open>Rate control (\<^verbatim>\<open>rate_util.go\<close>)\<close>

record 'l limiter =
  lim_NewLimiter :: "int \<Rightarrow> int \<Rightarrow> 'l"
  lim_Reserve :: "int \<Rightarrow> 'l \<Rightarrow> int \<times> 'l"

record in_flight =
  \<comment> \<open>a channel of booleans: its capacity and the number of values in it\<close>
  if_cap :: nat
  if_used :: nat

record 'l rateControl =
  rc_once :: bool
  rc_name :: string
  rc_policy :: TrafficRateLimitingPolicy
  rc_maxInFlightChan :: "in_flight option"
  rc_bucket :: "'l option"
  rc_exponentialBackoff :: "rateExponentialBackoff option"

record defer_func =
  df_maxInFlight :: bool
  df_backoff :: bool

datatype allow_result =
    AllowPanic
  | Allowed "defer_func option"
  | Limited "defer_func option" int string

definition new_rateControl :: "string \<Rightarrow> TrafficRateLimitingPolicy \<Rightarrow> 'l rateControl" where
  "new_rateControl name policy =
     \<lparr>rc_once = False, rc_name = name, rc_policy = policy, rc_maxInFlightChan = None,
      rc_bucket = None, rc_exponentialBackoff = None\<rparr>"

definition allow_init :: "'l limiter \<Rightarrow> 'l rateControl \<Rightarrow> bool \<times> 'l rateControl" where
  \<comment> \<open>\<^verbatim>\<open>rc.once.Do\<close>: a channel of negative size panics, and the call counts as done\<close>
  [traffic_defs]:
  "allow_init lim rc =
     (if rc_once rc then (True, rc)
      else (let rc = rc\<lparr>rc_once := True\<rparr> in
            case trp_MaxInFlight (rc_policy rc) of
              Some n \<Rightarrow>
                if n < 0 then (False, rc)
                else (True, rc\<lparr>
                  rc_maxInFlightChan := Some \<lparr>if_cap = nat n, if_used = 0\<rparr>,
                  rc_bucket := map_option (\<lambda>b. lim_NewLimiter lim (tb_QPS b) (tb_Burst b)) (trp_Bucket (rc_policy rc)),
                  rc_exponentialBackoff :=
                    map_option (\<lambda>p. \<lparr>reb_policy = p, reb_failures = []\<rparr>) (trp_ExponentialBackoff (rc_policy rc))\<rparr>)
            | None \<Rightarrow>
                (True, rc\<lparr>
                  rc_bucket := map_option (\<lambda>b. lim_NewLimiter lim (tb_QPS b) (tb_Burst b)) (trp_Bucket (rc_policy rc)),
                  rc_exponentialBackoff :=
                    map_option (\<lambda>p. \<lparr>reb_policy = p, reb_failures = []\<rparr>) (trp_ExponentialBackoff (rc_policy rc))\<rparr>)))"

definition mk_defer :: "bool \<Rightarrow> bool \<Rightarrow> defer_func option" where
  "mk_defer m b = (if m \<or> b then Some \<lparr>df_maxInFlight = m, df_backoff = b\<rparr> else None)"

definition allow_backoff :: "int \<Rightarrow> request_info \<Rightarrow> bool \<Rightarrow> 'l rateControl \<Rightarrow> allow_result \<times> 'l rateControl" where
  [traffic_defs]:
  "allow_backoff now ri m rc =
     (case rc_exponentialBackoff rc of
        None \<Rightarrow> (Allowed (mk_defer m False), rc)
      | Some eb \<Rightarrow>
          (case backoff_delay now (IRequestInfo ri) eb of
             None \<Rightarrow> (AllowPanic, rc)
           | Some ((delay, ok), eb') \<Rightarrow>
               (let rc = rc\<lparr>rc_exponentialBackoff := Some eb'\<rparr> in
                if ok \<and> delay > 0
                then (Limited (mk_defer m True) (delay div 1000000000 + 1)
                       (''rate limiting by TrafficPolicy '' @ rc_name rc @ '' exponential backoff''), rc)
                else (Allowed (mk_defer m ok), rc))))"

definition allow_bucket ::
    "'l limiter \<Rightarrow> int \<Rightarrow> request_info \<Rightarrow> bool \<Rightarrow> 'l rateControl \<Rightarrow> allow_result \<times> 'l rateControl" where
  [traffic_defs]:
  "allow_bucket lim now ri m rc =
     (case rc_bucket rc of
        None \<Rightarrow> allow_backoff now ri m rc
      | Some l \<Rightarrow>
          (case lim_Reserve lim now l of (delay, l') \<Rightarrow>
             (let rc = rc\<lparr>rc_bucket := Some l'\<rparr> in
              if delay > 0
              then (Limited (mk_defer m False) (delay div 1000000000 + 1)
                     (''rate limiting by TrafficPolicy '' @ rc_name rc @ '' bucket''), rc)
              else allow_backoff now ri m rc)))"

definition allow :: "'l limiter \<Rightarrow> int \<Rightarrow> request_info \<Rightarrow> 'l rateControl \<Rightarrow> allow_result \<times> 'l rateControl" where
  "allow lim now ri rc0 =
     (case allow_init lim rc0 of (ok, rc) \<Rightarrow>
        if \<not> ok then (AllowPanic, rc)
        else (case rc_maxInFlightChan rc of
                None \<Rightarrow> allow_bucket lim now ri False rc
              | Some ch \<Rightarrow>
                  if if_used ch < if_cap ch
                  then allow_bucket lim now ri True (rc\<lparr>rc_maxInFlightChan := Some (ch\<lparr>if_used := Suc (if_used ch)\<rparr>)\<rparr>)
                  else (Limited None 1
                         (''rate limiting by TrafficPolicy '' @ rc_name rc @ '' maxInFlight ''
                            @ itoa (int (if_cap ch))), rc)))"

definition run_defer :: "int \<Rightarrow> request_info \<Rightarrow> int \<Rightarrow> defer_func \<Rightarrow> 'l rateControl \<Rightarrow> 'l rateControl" where
  \<comment> \<open>the function returned by \<^verbatim>\<open>allow\<close>, called with \<open>status\<close>; a panic leaves the state of that moment\<close>
  "run_defer now ri status df rc =
     (let rc = (if df_maxInFlight df
                then rc\<lparr>rc_maxInFlightChan := map_option (\<lambda>ch. ch\<lparr>if_used := if_used ch - 1\<rparr>) (rc_maxInFlightChan rc)\<rparr>
                else rc)
      in if df_backoff df \<and> status \<noteq> 0
         then (case rc_exponentialBackoff rc of
                 None \<Rightarrow> rc
               | Some eb \<Rightarrow>
                   (case (if status \<ge> 400 then backoff_failed now (IRequestInfo ri) eb
                          else backoff_succeed (IRequestInfo ri) eb) of
                      None \<Rightarrow> rc
                    | Some eb' \<Rightarrow> rc\<lparr>rc_exponentialBackoff := Some eb'\<rparr>))
         else rc)"

subsection \<open>The filter (\<^verbatim>\<open>traffic.go\<close>)\<close>

record policy_cache =
  pc_cachedPolicies :: "TrafficPolicy list"
  pc_cacheExpirationTime :: int

definition defaultCacheExpiration :: int where
  "defaultCacheExpiration = 3 * 1000000000"

definition target_applies :: "string \<Rightarrow> string \<Rightarrow> TrafficTargetVirtualApp \<Rightarrow> bool" where
  "target_applies vAppName subset_name target =
     (if ttv_Name target \<noteq> vAppName then False
      else if length (ttv_SpecificSubsets target) > 0
           \<and> \<not> policy_containsString subset_name (ttv_SpecificSubsets target) ''*'' then False
      else True)"

definition getTrafficPolicies ::
    "int \<Rightarrow> string + TrafficPolicy list \<Rightarrow> string \<Rightarrow> string \<Rightarrow> policy_cache
     \<Rightarrow> (string + TrafficPolicy list) \<times> policy_cache" where
  \<comment> \<open>\<open>listed\<close> is what the lister returns\<close>
  "getTrafficPolicies now listed vAppName subset_name pc =
     (if now < pc_cacheExpirationTime pc then (Inr (pc_cachedPolicies pc), pc)
      else (case listed of
              Inl err \<Rightarrow> (Inl err, pc)
            | Inr policies \<Rightarrow>
                (let ret = filter (\<lambda>p. list_ex (target_applies vAppName subset_name) (tp_TargetVirtualApps p)) policies
                 in (Inr ret, \<lparr>pc_cachedPolicies = ret, pc_cacheExpirationTime = now + defaultCacheExpiration\<rparr>))))"

definition hashRatePolicy ::
    "(string \<Rightarrow> nat list) \<Rightarrow> (TrafficRateLimitingPolicy \<Rightarrow> string) \<Rightarrow> string \<Rightarrow> TrafficRateLimitingPolicy \<Rightarrow> string" where
  "hashRatePolicy md5 djr name rp = name @ ''--'' @ GetMD5Hash md5 (djr rp)"

record writer_wrapper =
  ww_statusRecorded :: bool
  ww_status :: int

definition recordStatus :: "int \<Rightarrow> writer_wrapper \<Rightarrow> writer_wrapper" where
  "recordStatus status w = w\<lparr>ww_status := wrap_int 32 status, ww_statusRecorded := True\<rparr>"

definition wrapper_Write :: "writer_wrapper \<Rightarrow> writer_wrapper" where
  "wrapper_Write w = (if \<not> ww_statusRecorded w then recordStatus 200 w else w)"

record deferred =
  dd_hash :: string
  dd_func :: defer_func
  dd_status :: int

record 'l traffic_env =
  te_limiter :: "'l limiter"
  te_md5 :: "string \<Rightarrow> nat list"
  te_json :: "TrafficRateLimitingPolicy \<Rightarrow> string"

type_synonym 'l rate_controls = "(string, 'l rateControl) gomap"

record 'l admitting =
  \<comment> \<open>the local state of the two loops: controls, hashes seen, deferred calls (the last one first)\<close>
  ad_controls :: "'l rate_controls"
  ad_rateHashes :: goset
  ad_deferred :: "deferred list"

datatype refusal =
    CircuitBroken string
  | TooManyRequests int string
  | FilterPanic

fun rate_loop ::
    "'l traffic_env \<Rightarrow> int \<Rightarrow> request_info \<Rightarrow> writer_wrapper \<Rightarrow> string \<Rightarrow> TrafficRateLimitingPolicy list
     \<Rightarrow> 'l admitting \<Rightarrow> refusal option \<times> 'l admitting" where
  "rate_loop te now ri w name [] st = (None, st)"
| "rate_loop te now ri w name (rp # rps) st =
     (if \<not> matchesAPIServerRules ri (trp_Rules rp) then rate_loop te now ri w name rps st
      else (let hash = hashRatePolicy (te_md5 te) (te_json te) name rp in
        if hash \<in> set (ad_rateHashes st) then rate_loop te now ri w name rps st
        else (let rc = (case map_of (ad_controls st) hash of None \<Rightarrow> new_rateControl name rp | Some rc \<Rightarrow> rc) in
          case allow (te_limiter te) now ri rc of (res, rc') \<Rightarrow>
            (let st = st\<lparr>ad_rateHashes := set_insert (ad_rateHashes st) hash,
                         ad_controls := AList.update hash rc' (ad_controls st)\<rparr>;
                 push = (\<lambda>d. case d of
                     None \<Rightarrow> st
                   | Some df \<Rightarrow> st\<lparr>ad_deferred :=
                       \<lparr>dd_hash = hash, dd_func = df, dd_status = ww_status w\<rparr> # ad_deferred st\<rparr>)
             in case res of
                  AllowPanic \<Rightarrow> (Some FilterPanic, st)
                | Limited d delay err \<Rightarrow> (Some (TooManyRequests (if delay \<le> 1 then 1 else delay) err), push d)
                | Allowed d \<Rightarrow> rate_loop te now ri w name rps (push d)))))"

fun policy_loop ::
    "'l traffic_env \<Rightarrow> int \<Rightarrow> request_info \<Rightarrow> writer_wrapper \<Rightarrow> TrafficPolicy list
     \<Rightarrow> 'l admitting \<Rightarrow> refusal option \<times> 'l admitting" where
  "policy_loop te now ri w [] st = (None, st)"
| "policy_loop te now ri w (p # ps) st =
     (case tp_CircuitBreaking p of
        None \<Rightarrow> (Some FilterPanic, st)
      | Some cb \<Rightarrow>
          if (case tcb_APIServer cb of None \<Rightarrow> False | Some rules \<Rightarrow> matchesAPIServerRules ri rules)
          then (Some (CircuitBroken (tp_Name p)), st)
          else (case tp_RateLimiting p of
                  None \<Rightarrow> policy_loop te now ri w ps st
                | Some rps \<Rightarrow>
                    (case rate_loop te now ri w (tp_Name p) rps st of
                       (Some r, st') \<Rightarrow> (Some r, st')
                     | (None, st') \<Rightarrow> policy_loop te now ri w ps st')))"

definition run_deferred1 :: "int \<Rightarrow> request_info \<Rightarrow> deferred \<Rightarrow> 'l rate_controls \<Rightarrow> 'l rate_controls" where
  \<comment> \<open>one deferred call; the others run even if it panics\<close>
  "run_deferred1 now ri d rcs =
     (case map_of rcs (dd_hash d) of
        None \<Rightarrow> rcs
      | Some rc \<Rightarrow> AList.update (dd_hash d) (run_defer now ri (dd_status d) (dd_func d) rc) rcs)"

definition run_deferred :: "int \<Rightarrow> request_info \<Rightarrow> deferred list \<Rightarrow> 'l rate_controls \<Rightarrow> 'l rate_controls" where
  "run_deferred now ri ds rcs = fold (run_deferred1 now ri) ds rcs"

datatype admission =
    ForwardUnchecked
  | Forward "deferred list"
  | InternalError
  | Refused refusal

definition traffic_ServeHTTP ::
    "'l traffic_env \<Rightarrow> int \<Rightarrow> string + TrafficPolicy list \<Rightarrow> request_info option \<Rightarrow> 'l rate_controls
     \<Rightarrow> admission \<times> 'l rate_controls" where
  \<comment> \<open>everything before the inner handler; when it is not called, the deferred functions run at once\<close>
  "traffic_ServeHTTP te now policies reqInfo rcs =
     (case policies of
        Inl err \<Rightarrow> (ForwardUnchecked, rcs)
      | Inr ps \<Rightarrow>
          if length ps = 0 then (ForwardUnchecked, rcs)
          else (case reqInfo of
                  None \<Rightarrow> (InternalError, rcs)
                | Some ri \<Rightarrow>
                    (case policy_loop te now ri \<lparr>ww_statusRecorded = False, ww_status = 0\<rparr> ps
                            \<lparr>ad_controls = rcs, ad_rateHashes = NewString [], ad_deferred = []\<rparr> of
                       (None, st) \<Rightarrow> (Forward (ad_deferred st), ad_controls st)
                     | (Some r, st) \<Rightarrow> (Refused r, run_deferred now ri (ad_deferred st) (ad_controls st)))))"

definition traffic_finish :: "int \<Rightarrow> request_info \<Rightarrow> deferred list \<Rightarrow> 'l rate_controls \<Rightarrow> 'l rate_controls" where
  \<comment> \<open>the inner handler has returned\<close>
  "traffic_finish now ri ds rcs = run_deferred now ri ds rcs"

subsection \<open>Accounting for slots\<close>

definition slots_used :: "'l rateControl \<Rightarrow> nat" where
  "slots_used rc = (case rc_maxInFlightChan rc of None \<Rightarrow> 0 | Some ch \<Rightarrow> if_used ch)"

definition control_ok :: "'l rateControl \<Rightarrow> bool" where
  "control_ok rc \<longleftrightarrow>
     (case rc_maxInFlightChan rc of
        None \<Rightarrow> True
      | Some ch \<Rightarrow> rc_once rc \<and> if_used ch \<le> if_cap ch \<and> trp_MaxInFlight (rc_policy rc) = Some (int (if_cap ch)))
     \<and> (rc_exponentialBackoff rc \<noteq> None \<longrightarrow> trp_ExponentialBackoff (rc_policy rc) \<noteq> None)"

fun slots_of :: "defer_func option \<Rightarrow> nat" where
  "slots_of None = 0"
| "slots_of (Some df) = (if df_maxInFlight df then 1 else 0)"

fun result_slots :: "allow_result \<Rightarrow> nat" where
  "result_slots AllowPanic = 0"
| "result_slots (Allowed d) = slots_of d"
| "result_slots (Limited d _ _) = slots_of d"

lemma slots_of_mk_defer [simp]: "slots_of (mk_defer m b) = (if m then 1 else 0)"
  by (simp add: mk_defer_def)

lemma control_ok_new [simp]: "control_ok (new_rateControl name p)" "slots_used (new_rateControl name p) = 0"
  "rc_policy (new_rateControl name p) = p"
  by (simp_all add: control_ok_def new_rateControl_def slots_used_def)

lemma allow_init_effect:
  assumes "allow_init lim rc = (ok, rc')" and "control_ok rc"
  shows "control_ok rc'" and "slots_used rc' = slots_used rc" and "rc_policy rc' = rc_policy rc"
  using assms
  by (auto simp: allow_init_def control_ok_def slots_used_def Let_def split: if_splits option.splits)

lemma allow_backoff_effect:
  assumes "allow_backoff now ri m rc = (res, rc')" and "control_ok rc"
  shows "control_ok rc'" and "slots_used rc' = slots_used rc" and "rc_policy rc' = rc_policy rc"
    and "res \<noteq> AllowPanic \<longrightarrow> result_slots res = (if m then 1 else 0)"
    and "trp_ExponentialBackoff (rc_policy rc) = None \<longrightarrow> res \<noteq> AllowPanic"
  using assms
  by (auto simp: allow_backoff_def control_ok_def slots_used_def backoff_delay_def Let_def
      split: if_splits option.splits)

lemma allow_bucket_effect:
  assumes "allow_bucket lim now ri m rc = (res, rc')" and "control_ok rc"
  shows "control_ok rc' \<and> slots_used rc' = slots_used rc \<and> rc_policy rc' = rc_policy rc
    \<and> (res \<noteq> AllowPanic \<longrightarrow> result_slots res = (if m then 1 else 0))
    \<and> (trp_ExponentialBackoff (rc_policy rc) = None \<longrightarrow> res \<noteq> AllowPanic)"
proof -
  have ok: "control_ok (rc\<lparr>rc_bucket := b\<rparr>)" "slots_used (rc\<lparr>rc_bucket := b\<rparr>) = slots_used rc" for b
    using assms(2) by (simp_all add: control_ok_def slots_used_def split: option.splits)
  show ?thesis
    using assms allow_backoff_effect [of now ri m rc res rc'] allow_backoff_effect [OF _ ok(1), of now ri m _ res rc'] ok
    by (auto simp: allow_bucket_def Let_def split: option.splits prod.splits if_splits)
qed

lemma allow_effect:
  assumes "allow lim now ri rc = (res, rc')" and "control_ok rc"
  shows "control_ok rc' \<and> rc_policy rc' = rc_policy rc
    \<and> slots_used rc + result_slots res \<le> slots_used rc'
    \<and> (trp_ExponentialBackoff (rc_policy rc) = None \<longrightarrow> slots_used rc' = slots_used rc + result_slots res)"
proof -
  obtain ok rc1 where init: "allow_init lim rc = (ok, rc1)" by fastforce
  note i = allow_init_effect [OF init assms(2)]
  show ?thesis
  proof (cases "\<not> ok \<or> rc_maxInFlightChan rc1 = None")
    case True
    then show ?thesis
      using assms(1) i allow_bucket_effect [of lim now ri False rc1 res rc']
      by (cases res) (auto simp: allow_def init split: if_splits option.splits)
  next
    case False
    then obtain ch where ch: "rc_maxInFlightChan rc1 = Some ch" and ok by auto
    show ?thesis
    proof (cases "if_used ch < if_cap ch")
      case True
      let ?rc = "rc1\<lparr>rc_maxInFlightChan := Some (ch\<lparr>if_used := Suc (if_used ch)\<rparr>)\<rparr>"
      have 1: "control_ok ?rc" using i(1) ch True by (simp add: control_ok_def)
      have 2: "slots_used ?rc = Suc (slots_used rc)" using i(2) ch by (simp add: slots_used_def)
      have "allow_bucket lim now ri True ?rc = (res, rc')"
        using assms(1) True \<open>ok\<close> ch by (simp add: allow_def init)
      from allow_bucket_effect [OF this 1] 2 i(3) show ?thesis by (cases res) auto
    next
      case False
      then show ?thesis using assms(1) i \<open>ok\<close> ch by (auto simp: allow_def init)
    qed
  qed
qed

lemma run_defer_effect:
  assumes "control_ok rc"
  shows "control_ok (run_defer now ri status df rc)"
    and "rc_policy (run_defer now ri status df rc) = rc_policy rc"
    and "slots_used (run_defer now ri status df rc) = slots_used rc - slots_of (Some df)"
  using assms
  by (auto simp: run_defer_def control_ok_def slots_used_def Let_def split: option.splits)

subsection \<open>The filter as a transition system\<close>

definition used_at :: "'l rate_controls \<Rightarrow> string \<Rightarrow> nat" where
  "used_at rcs h = (case map_of rcs h of None \<Rightarrow> 0 | Some rc \<Rightarrow> slots_used rc)"

definition slots_at :: "string \<Rightarrow> deferred list \<Rightarrow> nat" where
  "slots_at h ds = length (filter (\<lambda>d. dd_hash d = h \<and> df_maxInFlight (dd_func d)) ds)"

definition controls_ok :: "bool \<Rightarrow> 'l rate_controls \<Rightarrow> bool" where
  \<comment> \<open>with the flag, none of the policies has an exponential backoff\<close>
  "controls_ok nb rcs \<longleftrightarrow> (\<forall>h rc. map_of rcs h = Some rc \<longrightarrow>
     control_ok rc \<and> (nb \<longrightarrow> trp_ExponentialBackoff (rc_policy rc) = None))"

definition balanced :: "bool \<Rightarrow> nat \<Rightarrow> nat \<Rightarrow> nat \<Rightarrow> nat \<Rightarrow> bool" where
  \<comment> \<open>slots taken against slots to be given back, before and after\<close>
  "balanced nb used slots used' slots' \<longleftrightarrow>
     slots \<le> slots' \<and> used + (slots' - slots) \<le> used' \<and> (nb \<longrightarrow> used' = used + (slots' - slots))"

lemma balanced_refl [simp]: "balanced nb u s u s"
  by (simp add: balanced_def)

lemma balanced_trans: "balanced nb u s u' s' \<Longrightarrow> balanced nb u' s' u'' s'' \<Longrightarrow> balanced nb u s u'' s''"
  by (auto simp: balanced_def)

lemma slots_at_simps [simp]: "slots_at h [] = 0"
  "slots_at h (d # ds) = (if dd_hash d = h then slots_of (Some (dd_func d)) else 0) + slots_at h ds"
  by (simp_all add: slots_at_def)

lemma used_at_update [simp]:
  "used_at (AList.update k rc rcs) h = (if h = k then slots_used rc else used_at rcs h)"
  by (simp add: used_at_def update_conv')

lemma controls_ok_update:
  "controls_ok nb rcs \<Longrightarrow> control_ok rc \<Longrightarrow> nb \<longrightarrow> trp_ExponentialBackoff (rc_policy rc) = None \<Longrightarrow>
   controls_ok nb (AList.update k rc rcs)"
  by (simp add: controls_ok_def update_conv')

definition policies_ok :: "bool \<Rightarrow> TrafficPolicy list \<Rightarrow> bool" where
  "policies_ok nb ps \<longleftrightarrow>
     (nb \<longrightarrow> (\<forall>p\<in>set ps. \<forall>rps. tp_RateLimiting p = Some rps \<longrightarrow> (\<forall>rp\<in>set rps. trp_ExponentialBackoff rp = None)))"

lemma rate_loop_balanced:
  assumes "rate_loop te now ri w name rps st = (r, st')" and "controls_ok nb (ad_controls st)"
    and "nb \<longrightarrow> (\<forall>rp\<in>set rps. trp_ExponentialBackoff rp = None)"
  shows "controls_ok nb (ad_controls st')
    \<and> balanced nb (used_at (ad_controls st) h) (slots_at h (ad_deferred st))
        (used_at (ad_controls st') h) (slots_at h (ad_deferred st'))"
  using assms
proof (induction rps arbitrary: st)
  case (Cons rp rps)
  let ?k = "hashRatePolicy (te_md5 te) (te_json te) name rp"
  let ?rc = "case map_of (ad_controls st) ?k of None \<Rightarrow> new_rateControl name rp | Some rc \<Rightarrow> rc"
  show ?case
  proof (cases "\<not> matchesAPIServerRules ri (trp_Rules rp) \<or> ?k \<in> set (ad_rateHashes st)")
    case True
    then have "rate_loop te now ri w name (rp # rps) st = rate_loop te now ri w name rps st"
      by (auto simp: Let_def)
    with Cons show ?thesis by simp
  next
    case False
    obtain res rc' where al: "allow (te_limiter te) now ri ?rc = (res, rc')" by fastforce
    define push where "push d = (case d of
         None \<Rightarrow> st\<lparr>ad_rateHashes := set_insert (ad_rateHashes st) ?k, ad_controls := AList.update ?k rc' (ad_controls st)\<rparr>
       | Some df \<Rightarrow> st\<lparr>ad_rateHashes := set_insert (ad_rateHashes st) ?k, ad_controls := AList.update ?k rc' (ad_controls st),
           ad_deferred := \<lparr>dd_hash = ?k, dd_func = df, dd_status = ww_status w\<rparr> # ad_deferred st\<rparr>)" for d
    have rc: "control_ok ?rc" "nb \<longrightarrow> trp_ExponentialBackoff (rc_policy ?rc) = None"
      "used_at (ad_controls st) ?k = slots_used ?rc"
      using Cons.prems by (auto simp: controls_ok_def used_at_def split: option.splits)
    note eff = allow_effect [OF al rc(1)]
    have upd: "controls_ok nb (AList.update ?k rc' (ad_controls st))"
      using controls_ok_update [OF Cons.prems(2)] eff rc(2) by simp
    have bal: "controls_ok nb (ad_controls (push d))
        \<and> balanced nb (used_at (ad_controls st) h) (slots_at h (ad_deferred st))
          (used_at (ad_controls (push d)) h) (slots_at h (ad_deferred (push d)))"
      if "slots_of d = result_slots res" for d
      using upd eff rc that by (cases d) (auto simp: push_def balanced_def)
    have step: "rate_loop te now ri w name (rp # rps) st =
        (case res of AllowPanic \<Rightarrow> (Some FilterPanic, push None)
         | Limited d delay err \<Rightarrow> (Some (TooManyRequests (if delay \<le> 1 then 1 else delay) err), push d)
         | Allowed d \<Rightarrow> rate_loop te now ri w name rps (push d))"
      using False al by (auto simp: Let_def push_def split: allow_result.splits option.splits)
    show ?thesis
    proof (cases res)
      case (Allowed d)
      have "rate_loop te now ri w name rps (push d) = (r, st')" using Cons.prems(1) step Allowed by simp
      moreover have "nb \<longrightarrow> (\<forall>rp\<in>set rps. trp_ExponentialBackoff rp = None)" using Cons.prems(3) by simp
      ultimately show ?thesis using Cons.IH [of "push d"] bal [of d] Allowed by (auto intro: balanced_trans)
    next
      case AllowPanic
      then show ?thesis using Cons.prems(1) step bal [of None] by simp
    next
      case (Limited d delay err)
      then show ?thesis using Cons.prems(1) step bal [of d] by simp
    qed
  qed
qed simp

lemma policy_loop_balanced:
  assumes "policy_loop te now ri w ps st = (r, st')" and "controls_ok nb (ad_controls st)" and "policies_ok nb ps"
  shows "controls_ok nb (ad_controls st')
    \<and> balanced nb (used_at (ad_controls st) h) (slots_at h (ad_deferred st))
        (used_at (ad_controls st') h) (slots_at h (ad_deferred st'))"
  using assms
proof (induction ps arbitrary: st)
  case (Cons p ps)
  have ps: "policies_ok nb ps" using Cons.prems(3) by (simp add: policies_ok_def)
  show ?case
  proof (cases "policy_loop te now ri w (p # ps) st = policy_loop te now ri w ps st")
    case True
    with Cons.prems ps Cons.IH show ?thesis by simp
  next
    case False
    show ?thesis
    proof (cases "r \<noteq> None \<and> st' = st")
      case True
      with Cons.prems(2) show ?thesis by simp
    next
      case stay: False
      obtain rps where rps: "tp_RateLimiting p = Some rps"
        using False stay Cons.prems(1) by (auto split: option.splits if_splits)
      obtain r1 st1 where rl: "rate_loop te now ri w (tp_Name p) rps st = (r1, st1)" by fastforce
      have "nb \<longrightarrow> (\<forall>rp\<in>set rps. trp_ExponentialBackoff rp = None)"
        using Cons.prems(3) rps by (auto simp: policies_ok_def)
      note bal = rate_loop_balanced [OF rl Cons.prems(2) this, of h]
      show ?thesis
        using Cons.prems(1) stay rps rl bal Cons.IH [of st1] ps
        by (auto split: option.splits if_splits intro: balanced_trans)
    qed
  qed
qed simp

lemma run_deferred1_effect:
  assumes "controls_ok nb rcs"
  shows "controls_ok nb (run_deferred1 now ri d rcs)
    \<and> used_at (run_deferred1 now ri d rcs) h = used_at rcs h - slots_at h [d]"
proof (cases "map_of rcs (dd_hash d)")
  case None
  with assms show ?thesis by (auto simp: run_deferred1_def used_at_def)
next
  case (Some rc)
  then have rc: "control_ok rc" "nb \<longrightarrow> trp_ExponentialBackoff (rc_policy rc) = None"
    using assms by (auto simp: controls_ok_def)
  show ?thesis
    using controls_ok_update [OF assms run_defer_effect(1) [OF rc(1)], of now ri "dd_status d" "dd_func d"]
      run_defer_effect(2,3) [OF rc(1)] rc(2) Some
    by (auto simp: run_deferred1_def used_at_def update_conv')
qed

lemma run_deferred_effect:
  assumes "controls_ok nb rcs"
  shows "controls_ok nb (run_deferred now ri ds rcs)
    \<and> used_at (run_deferred now ri ds rcs) h = used_at rcs h - slots_at h ds"
  using assms
proof (induction ds arbitrary: rcs)
  case (Cons d ds)
  note one = run_deferred1_effect [OF Cons.prems, of now ri d h]
  have "run_deferred now ri (d # ds) rcs = run_deferred now ri ds (run_deferred1 now ri d rcs)"
    by (simp add: run_deferred_def)
  with Cons.IH [of "run_deferred1 now ri d rcs"] one show ?case by auto
qed (simp add: run_deferred_def)

record 'l traffic_system =
  ts_controls :: "'l rate_controls"
  ts_pending :: "(request_info \<times> deferred list) list"

inductive traffic_step :: "'l traffic_env \<Rightarrow> bool \<Rightarrow> 'l traffic_system \<Rightarrow> 'l traffic_system \<Rightarrow> bool"
  for te :: "'l traffic_env" and nb :: bool where
  traffic_arrive:
    "policies_ok nb ps \<Longrightarrow> traffic_ServeHTTP te now (Inr ps) (Some ri) (ts_controls s) = (adm, rcs) \<Longrightarrow>
     traffic_step te nb s
       (s\<lparr>ts_controls := rcs,
          ts_pending := (case adm of Forward ds \<Rightarrow> (ri, ds) # ts_pending s | _ \<Rightarrow> ts_pending s)\<rparr>)"
| traffic_return:
    "ts_pending s = xs @ (ri, ds) # ys \<Longrightarrow>
     traffic_step te nb s (s\<lparr>ts_controls := traffic_finish now ri ds (ts_controls s), ts_pending := xs @ ys\<rparr>)"

definition traffic_init :: "'l traffic_system \<Rightarrow> bool" where
  "traffic_init s \<longleftrightarrow> s = \<lparr>ts_controls = [], ts_pending = []\<rparr>"

definition held :: "string \<Rightarrow> 'l traffic_system \<Rightarrow> nat" where
  \<comment> \<open>slots that the requests in flight will give back\<close>
  "held h s = (\<Sum>p\<leftarrow>ts_pending s. slots_at h (snd p))"

definition traffic_inv :: "bool \<Rightarrow> 'l traffic_system \<Rightarrow> bool" where
  "traffic_inv nb s \<longleftrightarrow> controls_ok nb (ts_controls s)
     \<and> (\<forall>h. held h s \<le> used_at (ts_controls s) h \<and> (nb \<longrightarrow> held h s = used_at (ts_controls s) h))"

lemma traffic_ServeHTTP_balanced:
  assumes "traffic_ServeHTTP te now (Inr ps) (Some ri) rcs = (adm, rcs')"
    and "controls_ok nb rcs" and "policies_ok nb ps"
  shows "controls_ok nb rcs'
    \<and> balanced nb (used_at rcs h) 0 (used_at rcs' h) (case adm of Forward ds \<Rightarrow> slots_at h ds | _ \<Rightarrow> 0)"
proof (cases "ps = []")
  case True
  with assms show ?thesis by (auto simp: traffic_ServeHTTP_def)
next
  case False
  let ?st = "\<lparr>ad_controls = rcs, ad_rateHashes = NewString [], ad_deferred = []\<rparr>"
  obtain r st where pl:
      "policy_loop te now ri \<lparr>ww_statusRecorded = False, ww_status = 0\<rparr> ps ?st = (r, st)" by fastforce
  note bal = policy_loop_balanced [OF pl _ assms(3), of h]
  show ?thesis
  proof (cases r)
    case None
    with assms(1,2) False pl bal show ?thesis by (auto simp: traffic_ServeHTTP_def)
  next
    case (Some x)
    have ok: "controls_ok nb (ad_controls st)" using bal assms(2) by simp
    have "adm = Refused x" "rcs' = run_deferred now ri (ad_deferred st) (ad_controls st)"
      using assms(1) False pl Some by (auto simp: traffic_ServeHTTP_def)
    then show ?thesis
      using run_deferred_effect [OF ok, of now ri "ad_deferred st" h] bal assms(2)
      by (auto simp: balanced_def)
  qed
qed

lemma traffic_inv_step:
  assumes "traffic_inv nb s" and "traffic_step te nb s t"
  shows "traffic_inv nb t"
  using assms(2)
proof cases
  case (traffic_arrive ps now ri adm rcs)
  have ok: "controls_ok nb (ts_controls s)" using assms(1) by (simp add: traffic_inv_def)
  have "held h t \<le> used_at (ts_controls t) h \<and> (nb \<longrightarrow> held h t = used_at (ts_controls t) h)" for h
  proof -
    let ?new = "case adm of Forward ds \<Rightarrow> slots_at h ds | _ \<Rightarrow> 0"
    have "held h t = held h s + ?new"
      by (simp add: traffic_arrive(1) held_def split: admission.splits)
    moreover have "held h s \<le> used_at (ts_controls s) h" "nb \<longrightarrow> held h s = used_at (ts_controls s) h"
      using assms(1) by (auto simp: traffic_inv_def)
    moreover have "balanced nb (used_at (ts_controls s) h) 0 (used_at (ts_controls t) h) ?new"
      using traffic_ServeHTTP_balanced [OF traffic_arrive(3) ok traffic_arrive(2)] by (simp add: traffic_arrive(1))
    ultimately show ?thesis by (auto simp: balanced_def)
  qed
  then show ?thesis
    using traffic_ServeHTTP_balanced [OF traffic_arrive(3) ok traffic_arrive(2)]
    by (simp add: traffic_inv_def traffic_arrive(1))
next
  case (traffic_return xs ri ds ys now)
  have ok: "controls_ok nb (ts_controls s)" using assms(1) by (simp add: traffic_inv_def)
  note eff = run_deferred_effect [OF ok, of now ri ds]
  have "held h t + slots_at h ds = held h s" for h
    by (simp add: traffic_return held_def)
  moreover have "held h s \<le> used_at (ts_controls s) h" "nb \<longrightarrow> held h s = used_at (ts_controls s) h" for h
    using assms(1) by (auto simp: traffic_inv_def)
  moreover have "used_at (ts_controls t) h = used_at (ts_controls s) h - slots_at h ds" for h
    using eff by (simp add: traffic_return(1) traffic_finish_def)
  ultimately have "held h t \<le> used_at (ts_controls t) h \<and> (nb \<longrightarrow> held h t = used_at (ts_controls t) h)" for h
    by (metis add_diff_cancel_right' diff_le_mono)
  then show ?thesis using eff by (simp add: traffic_inv_def traffic_return(1) traffic_finish_def)
qed

interpretation tc: inductive_invariant traffic_init "traffic_step te nb" "traffic_inv nb" for te nb
proof
  fix s :: "'l traffic_system"
  show "traffic_init s \<Longrightarrow> traffic_inv nb s"
    by (simp add: traffic_init_def traffic_inv_def controls_ok_def held_def used_at_def)
qed (rule traffic_inv_step)

subsection \<open>What a forwarded request has passed\<close>

lemma allow_Allowed_slot:
  assumes "allow lim now ri rc = (Allowed d, rc')" and "rc_maxInFlightChan rc' \<noteq> None"
  shows "slots_of d = 1"
proof -
  have backoff: "allow_backoff now ri m x = (Allowed d, rc') \<Longrightarrow>
      slots_of d = (if m then 1 else 0) \<and> rc_maxInFlightChan rc' = rc_maxInFlightChan x" for m x
    by (auto simp: allow_backoff_def Let_def split: option.splits prod.splits if_splits)
  have bucket: "allow_bucket lim now ri m x = (Allowed d, rc') \<Longrightarrow>
      slots_of d = (if m then 1 else 0) \<and> rc_maxInFlightChan rc' = rc_maxInFlightChan x" for m x
    using backoff [of m x] backoff [of m "x\<lparr>rc_bucket := b\<rparr>" for b]
    by (auto simp: allow_bucket_def Let_def split: option.splits prod.splits if_splits)
  show ?thesis
    using assms bucket [of False] bucket [of True]
    by (fastforce simp: allow_def split: prod.splits if_splits option.splits)
qed

definition counted :: "'l admitting \<Rightarrow> string \<Rightarrow> bool" where
  "counted st h \<longleftrightarrow> (\<exists>rc. map_of (ad_controls st) h = Some rc
     \<and> (rc_maxInFlightChan rc \<noteq> None \<longrightarrow> 1 \<le> slots_at h (ad_deferred st)))"

lemma rate_loop_counted:
  assumes "rate_loop te now ri w name rps st = (None, st')"
    and "\<forall>h\<in>set (ad_rateHashes st). counted st h"
  shows "set (ad_rateHashes st) \<subseteq> set (ad_rateHashes st') \<and> (\<forall>h\<in>set (ad_rateHashes st'). counted st' h)
    \<and> (\<forall>rp\<in>set rps. matchesAPIServerRules ri (trp_Rules rp) \<longrightarrow>
          hashRatePolicy (te_md5 te) (te_json te) name rp \<in> set (ad_rateHashes st'))"
  using assms
proof (induction rps arbitrary: st)
  case (Cons rp rps)
  let ?k = "hashRatePolicy (te_md5 te) (te_json te) name rp"
  show ?case
  proof (cases "\<not> matchesAPIServerRules ri (trp_Rules rp) \<or> ?k \<in> set (ad_rateHashes st)")
    case True
    then have "rate_loop te now ri w name (rp # rps) st = rate_loop te now ri w name rps st"
      by (auto simp: Let_def)
    with Cons.IH [of st] Cons.prems True show ?thesis by auto
  next
    case False
    let ?rc = "case map_of (ad_controls st) ?k of None \<Rightarrow> new_rateControl name rp | Some rc \<Rightarrow> rc"
    obtain res rc' where al: "allow (te_limiter te) now ri ?rc = (res, rc')" by fastforce
    define st1 where "st1 = st\<lparr>ad_rateHashes := set_insert (ad_rateHashes st) ?k,
        ad_controls := AList.update ?k rc' (ad_controls st)\<rparr>"
    define push where "push d = (case d of None \<Rightarrow> st1
       | Some df \<Rightarrow> st1\<lparr>ad_deferred := \<lparr>dd_hash = ?k, dd_func = df, dd_status = ww_status w\<rparr> # ad_deferred st\<rparr>)" for d
    obtain d where d: "res = Allowed d" and rest: "rate_loop te now ri w name rps (push d) = (None, st')"
      using Cons.prems(1) False al
      by (auto simp: Let_def push_def st1_def split: allow_result.splits option.splits)
    have hashes: "set (ad_rateHashes (push d)) = insert ?k (set (ad_rateHashes st))"
      by (simp add: push_def st1_def split: option.splits)
    have "counted (push d) h" if "h \<in> set (ad_rateHashes (push d))" for h
    proof (cases "h = ?k")
      case True
      with allow_Allowed_slot [of "te_limiter te" now ri ?rc d rc'] al d show ?thesis
        by (cases d) (auto simp: counted_def push_def st1_def update_conv')
    next
      case neq: False
      then have "counted st h" using that Cons.prems(2) hashes by simp
      with neq show ?thesis by (cases d) (auto simp: counted_def push_def st1_def update_conv')
    qed
    with Cons.IH [OF rest] hashes show ?thesis by auto
  qed
qed simp

lemma policy_loop_counted:
  assumes "policy_loop te now ri w ps st = (None, st')"
    and "\<forall>h\<in>set (ad_rateHashes st). counted st h"
  shows "set (ad_rateHashes st) \<subseteq> set (ad_rateHashes st') \<and> (\<forall>h\<in>set (ad_rateHashes st'). counted st' h)
    \<and> (\<forall>p\<in>set ps.
         (\<exists>cb. tp_CircuitBreaking p = Some cb
            \<and> (\<forall>rules. tcb_APIServer cb = Some rules \<longrightarrow> \<not> matchesAPIServerRules ri rules))
         \<and> (\<forall>rps rp. tp_RateLimiting p = Some rps \<and> rp \<in> set rps \<and> matchesAPIServerRules ri (trp_Rules rp) \<longrightarrow>
              hashRatePolicy (te_md5 te) (te_json te) (tp_Name p) rp \<in> set (ad_rateHashes st')))"
  using assms
proof (induction ps arbitrary: st)
  case (Cons p ps)
  obtain cb where cb: "tp_CircuitBreaking p = Some cb"
      "\<forall>rules. tcb_APIServer cb = Some rules \<longrightarrow> \<not> matchesAPIServerRules ri rules"
    using Cons.prems(1) by (auto split: option.splits if_splits)
  show ?case
  proof (cases "tp_RateLimiting p")
    case None
    then have "policy_loop te now ri w ps st = (None, st')"
      using Cons.prems(1) cb by (auto split: option.splits if_splits)
    with Cons.IH [of st] Cons.prems(2) None cb show ?thesis by auto
  next
    case (Some rps)
    then obtain st1 where st1: "rate_loop te now ri w (tp_Name p) rps st = (None, st1)"
        "policy_loop te now ri w ps st1 = (None, st')"
      using Cons.prems(1) cb by (auto split: option.splits if_splits prod.splits)
    note rl = rate_loop_counted [OF st1(1) Cons.prems(2)]
    with Cons.IH [OF st1(2)] Some cb show ?thesis by auto
  qed
qed simp

subsection \<open>Properties\<close>

text \<open>
  C13. Requests in flight are bounded. Requests arrive and return in any order, policies may
  change between them. For every rate control with a limit on requests in flight, the
  requests being served that hold one of its slots never exceed the limit. If no policy
  uses exponential backoff, the slots taken are exactly those held, so no slot is lost when
  a request is refused by a later policy.
\<close>

theorem in_flight_bounded:
  assumes "reachable traffic_init (traffic_step te nb) s"
    and "map_of (ts_controls s) h = Some rc" and "trp_MaxInFlight (rc_policy rc) = Some n" and "0 \<le> n"
  shows "int (held h s) \<le> n \<and> (nb \<longrightarrow> slots_used rc = held h s)"
proof -
  have inv: "traffic_inv nb s" by (rule tc.reachable_inv [OF assms(1)])
  then have "control_ok rc" using assms(2) by (auto simp: traffic_inv_def controls_ok_def)
  then have "int (slots_used rc) \<le> n"
    using assms(3,4) by (auto simp: control_ok_def slots_used_def split: option.splits)
  moreover have "held h s \<le> slots_used rc" "nb \<longrightarrow> held h s = slots_used rc"
    using inv assms(2) by (auto simp: traffic_inv_def used_at_def dest!: spec [of _ h])
  ultimately show ?thesis by auto
qed

definition example_any_rules :: TrafficAPIServerRules where
  "example_any_rules =
     \<lparr>tar_ResourceRules = [],
      tar_NonResourceRules = [\<lparr>nrr_Verbs = [''*''], nrr_NonResourceURLs = [''*'']\<rparr>]\<rparr>"

definition example_rate_policy :: "int \<Rightarrow> TrafficRateLimitingExponentialBackoff option \<Rightarrow> TrafficRateLimitingPolicy" where
  "example_rate_policy n eb =
     \<lparr>trp_Rules = example_any_rules, trp_MaxInFlight = Some n, trp_Bucket = None, trp_ExponentialBackoff = eb\<rparr>"

definition example_traffic_policy :: "TrafficRateLimitingPolicy \<Rightarrow> TrafficPolicy" where
  "example_traffic_policy rp =
     \<lparr>tp_Name = ''p'', tp_TargetVirtualApps = [],
      tp_CircuitBreaking = Some \<lparr>tcb_APIServer = None\<rparr>, tp_RateLimiting = Some [rp]\<rparr>"

definition example_info :: request_info where
  "example_info =
     \<lparr>ri_IsResourceRequest = False, ri_Path = ''/healthz'', ri_Verb = ''get'', ri_APIGroup = '''',
      ri_APIVersion = '''', ri_Namespace = '''', ri_Resource = '''', ri_Subresource = '''', ri_Name = ''''\<rparr>"

definition example_traffic_env :: "unit traffic_env" where
  "example_traffic_env =
     \<lparr>te_limiter = \<lparr>lim_NewLimiter = \<lambda>_ _. (), lim_Reserve = \<lambda>_ l. (0, l)\<rparr>, te_md5 = \<lambda>_. [], te_json = \<lambda>_. ''''\<rparr>"

lemmas example_traffic_defs = example_any_rules_def example_rate_policy_def example_traffic_policy_def
  example_info_def example_traffic_env_def

lemma example_any_match [simp]: "matchesAPIServerRules example_info example_any_rules"
  by (simp add: example_info_def example_any_rules_def matchesAPIServerRules_def matchesANonResourceRule_def
      matchesNonResourcePolicyRule_def matchPolicyRuleVerb_def policy_containsString_def)

definition example_control :: "unit rateControl" where
  "example_control = (new_rateControl ''p'' (example_rate_policy 1 None))\<lparr>rc_once := True,
     rc_maxInFlightChan := Some \<lparr>if_cap = 1, if_used = 1\<rparr>\<rparr>"

definition example_deferred :: deferred where
  "example_deferred =
     \<lparr>dd_hash = ''p--'', dd_func = \<lparr>df_maxInFlight = True, df_backoff = False\<rparr>, dd_status = 0\<rparr>"

lemma example_forward:
  "traffic_ServeHTTP example_traffic_env 0 (Inr [example_traffic_policy (example_rate_policy 1 None)])
     (Some example_info) [] = (Forward [example_deferred], [(''p--'', example_control)])"
proof -
  have rules: "trp_Rules (example_rate_policy 1 None) = example_any_rules" by (simp add: example_rate_policy_def)
  have "hashRatePolicy (te_md5 example_traffic_env) (te_json example_traffic_env) ''p'' rp = ''p--''" for rp
    by (simp add: hashRatePolicy_def example_traffic_env_def GetMD5Hash_def hex_encode_def)
  moreover have "allow (te_limiter example_traffic_env) 0 example_info (new_rateControl ''p'' (example_rate_policy 1 None))
      = (Allowed (Some \<lparr>df_maxInFlight = True, df_backoff = False\<rparr>), example_control)"
    by (simp add: allow_def traffic_defs new_rateControl_def example_rate_policy_def mk_defer_def Let_def example_control_def)
  ultimately show ?thesis
    by (simp add: traffic_ServeHTTP_def example_traffic_policy_def rules Let_def set_insert_all_def example_deferred_def)
qed

theorem in_flight_bounded_witness:
  "\<exists>s. reachable traffic_init (traffic_step example_traffic_env True) s
     \<and> map_of (ts_controls s) ''p--'' = Some example_control
     \<and> held ''p--'' s = 1 \<and> slots_used example_control = held ''p--'' s"
proof -
  let ?s0 = "\<lparr>ts_controls = [], ts_pending = []\<rparr> :: unit traffic_system"
  let ?s1 = "?s0\<lparr>ts_controls := [(''p--'', example_control)],
    ts_pending := (case Forward [example_deferred] of Forward ds \<Rightarrow> (example_info, ds) # ts_pending ?s0 | _ \<Rightarrow> ts_pending ?s0)\<rparr>"
  have "traffic_step example_traffic_env True ?s0 ?s1"
    using example_forward
    by (intro traffic_arrive [where ps = "[example_traffic_policy (example_rate_policy 1 None)]" and now = 0])
      (simp_all add: policies_ok_def example_traffic_policy_def example_rate_policy_def)
  moreover have "reachable traffic_init (traffic_step example_traffic_env True) ?s0"
    by (rule reachable_init) (simp add: traffic_init_def)
  ultimately have r: "reachable traffic_init (traffic_step example_traffic_env True) ?s1"
    by (blast intro: reachable_step)
  have h: "held ''p--'' ?s1 = 1" by (simp add: held_def example_deferred_def)
  have m: "map_of (ts_controls ?s1) ''p--'' = Some example_control" by simp
  have "trp_MaxInFlight (rc_policy example_control) = Some 1"
    by (simp add: example_control_def new_rateControl_def example_rate_policy_def)
  from in_flight_bounded [OF r m this] h m r show ?thesis by (intro exI [of _ ?s1]) simp
qed

text \<open>
  C26. No rule is skipped. A request that the filter forwards under a nonempty list of
  policies matches no circuit-breaking rule of any of them, and for every rate policy that
  matches it there is a rate control which, if it limits requests in flight, counts this
  request: one of its slots is given back when the request returns. A policy without a
  \<^verbatim>\<open>circuitBreaking\<close> section makes the filter panic, so none occurs here.
\<close>

theorem forwarded_passes_all:
  assumes "traffic_ServeHTTP te now (Inr ps) (Some ri) rcs = (Forward ds, rcs')" and "p \<in> set ps"
  shows "(\<exists>cb. tp_CircuitBreaking p = Some cb
            \<and> (\<forall>rules. tcb_APIServer cb = Some rules \<longrightarrow> \<not> matchesAPIServerRules ri rules))
    \<and> (\<forall>rps rp. tp_RateLimiting p = Some rps \<and> rp \<in> set rps \<and> matchesAPIServerRules ri (trp_Rules rp) \<longrightarrow>
        (let h = hashRatePolicy (te_md5 te) (te_json te) (tp_Name p) rp in
         \<exists>rc. map_of rcs' h = Some rc \<and> (rc_maxInFlightChan rc \<noteq> None \<longrightarrow> 1 \<le> slots_at h ds)))"
proof -
  have "ps \<noteq> []" using assms(2) by auto
  then obtain st where pl:
      "policy_loop te now ri \<lparr>ww_statusRecorded = False, ww_status = 0\<rparr> ps
        \<lparr>ad_controls = rcs, ad_rateHashes = NewString [], ad_deferred = []\<rparr> = (None, st)"
    and st: "ds = ad_deferred st" "rcs' = ad_controls st"
    using assms(1) by (auto simp: traffic_ServeHTTP_def split: option.splits prod.splits)
  from policy_loop_counted [OF pl] assms(2) st show ?thesis
    by (auto simp: Let_def counted_def set_insert_all_def)
qed

theorem forwarded_passes_all_witness:
  "traffic_ServeHTTP example_traffic_env 0 (Inr [example_traffic_policy (example_rate_policy 1 None)])
     (Some example_info) [] = (Forward [example_deferred], [(''p--'', example_control)])
   \<and> 1 \<le> slots_at ''p--'' [example_deferred]"
proof -
  let ?p = "example_traffic_policy (example_rate_policy 1 None)"
  have "hashRatePolicy (te_md5 example_traffic_env) (te_json example_traffic_env) ''p'' rp = ''p--''" for rp
    by (simp add: hashRatePolicy_def example_traffic_env_def GetMD5Hash_def hex_encode_def)
  moreover have "trp_Rules (example_rate_policy 1 None) = example_any_rules" by (simp add: example_rate_policy_def)
  ultimately show ?thesis
    using example_forward forwarded_passes_all [OF example_forward, of ?p]
    by (simp add: example_traffic_policy_def Let_def example_control_def)
qed

fun after_requests ::
    "'l traffic_env \<Rightarrow> int \<Rightarrow> TrafficPolicy list \<Rightarrow> request_info \<Rightarrow> nat \<Rightarrow> 'l rate_controls" where
  "after_requests te now ps ri 0 = []"
| "after_requests te now ps ri (Suc k) =
     snd (traffic_ServeHTTP te now (Inr ps) (Some ri) (after_requests te now ps ri k))"

definition leaked_control :: "string \<Rightarrow> TrafficRateLimitingPolicy \<Rightarrow> nat \<Rightarrow> nat \<Rightarrow> 'l rateControl" where
  "leaked_control name rp n k =
     (new_rateControl name rp)\<lparr>rc_once := True, rc_maxInFlightChan := Some \<lparr>if_cap = n, if_used = min k n\<rparr>,
        rc_exponentialBackoff := map_option (\<lambda>p. \<lparr>reb_policy = p, reb_failures = []\<rparr>) (trp_ExponentialBackoff rp)\<rparr>"

lemma allow_leaks:
  assumes "trp_MaxInFlight rp = Some (int n)" and "trp_Bucket rp = None" and "trp_ExponentialBackoff rp = Some eb"
  shows "allow lim now ri (leaked_control name rp n k) =
    (if k < n then (AllowPanic, leaked_control name rp n (Suc k))
     else (Limited None 1 (''rate limiting by TrafficPolicy '' @ name @ '' maxInFlight '' @ itoa (int n)),
           leaked_control name rp n (Suc k)))"
    and "allow lim now ri (new_rateControl name rp) = allow lim now ri (leaked_control name rp n 0)"
  using assms
  by (auto simp: allow_def traffic_defs leaked_control_def new_rateControl_def backoff_delay_def Let_def min_def)

text \<open>
  C27. Exponential backoff defeats its policy. Take one policy with one matching rate policy
  that limits requests in flight to \<open>n\<close> and has an exponential backoff, and let requests
  arrive one after the other, none of them in flight together. Looking up the request in
  the map of failures panics, after a slot was taken and before its release was deferred.
  So no request is ever forwarded: the first \<open>n\<close> requests panic, each losing a slot, and
  every later one is refused as exceeding the limit.
\<close>

theorem backoff_defeats_policy:
  assumes "tp_CircuitBreaking p = Some \<lparr>tcb_APIServer = None\<rparr>" and "tp_RateLimiting p = Some [rp]"
    and "matchesAPIServerRules ri (trp_Rules rp)"
    and "trp_MaxInFlight rp = Some (int n)" and "trp_Bucket rp = None" and "trp_ExponentialBackoff rp = Some eb"
  shows "fst (traffic_ServeHTTP te now (Inr [p]) (Some ri) (after_requests te now [p] ri k)) =
    Refused (if k < n then FilterPanic
             else TooManyRequests 1 (''rate limiting by TrafficPolicy '' @ tp_Name p @ '' maxInFlight '' @ itoa (int n)))"
proof -
  let ?h = "hashRatePolicy (te_md5 te) (te_json te) (tp_Name p) rp"
  have step: "traffic_ServeHTTP te now (Inr [p]) (Some ri) rcs =
      (Refused (if k < n then FilterPanic
         else TooManyRequests 1 (''rate limiting by TrafficPolicy '' @ tp_Name p @ '' maxInFlight '' @ itoa (int n))),
       AList.update ?h (leaked_control (tp_Name p) rp n (Suc k)) rcs)"
    if "k = 0 \<and> map_of rcs ?h = None \<or> map_of rcs ?h = Some (leaked_control (tp_Name p) rp n k)" for k and rcs :: "'a rate_controls"
    using that assms(1,2,3) allow_leaks [OF assms(4,5,6), of "te_limiter te" now ri "tp_Name p"]
    by (auto simp: traffic_ServeHTTP_def Let_def run_deferred_def)
  have "k = 0 \<and> map_of (after_requests te now [p] ri k) ?h = None
      \<or> map_of (after_requests te now [p] ri k) ?h = Some (leaked_control (tp_Name p) rp n k)"
  proof (induction k)
    case (Suc k)
    from step [OF Suc.IH] show ?case by (simp add: update_conv')
  qed simp
  from step [OF this] show ?thesis by simp
qed

theorem backoff_defeats_policy_witness:
  "(let eb = \<lparr>eb_BaseDelayInMillisecond = 10, eb_MaxDelayInMillisecond = 1000, eb_ContinuouslyFailureTimes = 3\<rparr>;
        p = example_traffic_policy (example_rate_policy 1 (Some eb))
    in fst (traffic_ServeHTTP example_traffic_env 0 (Inr [p]) (Some example_info)
         (after_requests example_traffic_env 0 [p] example_info 0)) = Refused FilterPanic
     \<and> fst (traffic_ServeHTTP example_traffic_env 0 (Inr [p]) (Some example_info)
         (after_requests example_traffic_env 0 [p] example_info 1))
        = Refused (TooManyRequests 1 ''rate limiting by TrafficPolicy p maxInFlight 1''))"
proof -
  let ?eb = "\<lparr>eb_BaseDelayInMillisecond = 10, eb_MaxDelayInMillisecond = 1000, eb_ContinuouslyFailureTimes = 3\<rparr>"
  let ?p = "example_traffic_policy (example_rate_policy 1 (Some ?eb))"
  have one: "itoa 1 = ''1''" by (simp add: itoa_def utoa.simps digit_def)
  note bdp = backoff_defeats_policy [where p = ?p and rp = "example_rate_policy 1 (Some ?eb)" and n = 1 and eb = ?eb
      and ri = example_info and te = example_traffic_env and now = 0]
  from bdp [of 0] bdp [of 1] show ?thesis
    by (simp add: example_traffic_policy_def example_rate_policy_def one)
qed

end
