(* ===== verification/Apiserver_Handler.thy ===== *)
theory Apiserver_Handler
  imports Apiserver_Router Leader_Election Reverse_Proxy Traffic_Control
begin

section \<open>The API-server proxy (\<^verbatim>\<open>proxy/apiserver/apiserver_handler.go\<close>)\<close>

text \<open>
  The handler that joins the parts: override of the user agent, leader election, routing,
  and the reverse proxy with the hooks that the router chose. It runs behind the traffic
  filter. The API server is the parameter \<open>ae_transport\<close>: what it answers to a request.
  Upgraded requests (\<^verbatim>\<open>exec\<close>, \<^verbatim>\<open>attach\<close>) are handed to a vendored proxy; the model records
  only that they are.
\<close>

subsection \<open>Hooks\<close>

type_synonym api_reader = "body + watch_handler"

definition accept_ModifyResponse ::
    "serial_lib \<Rightarrow> codec \<Rightarrow> route_accept \<Rightarrow> http_response \<Rightarrow> proxy_state
     \<Rightarrow> ((string option \<times> http_response) \<times> proxy_state) option" where
  "accept_ModifyResponse lib cd acc resp st =
     (case acc of
        AcceptList h \<Rightarrow>
          map_option (\<lambda>((err, resp'), st'). ((map_option (\<lambda>_. ''modify response'') err, resp'), st'))
            (listHandler_handle lib cd h resp st)
      | _ \<Rightarrow> Some ((None, resp), st))"

definition accept_ModifyBody ::
    "serial_lib \<Rightarrow> route_accept \<Rightarrow> http_response \<Rightarrow> proxy_state \<Rightarrow> api_reader \<times> proxy_state" where
  "accept_ModifyBody lib acc resp st =
     (case acc of
        AcceptWatch h \<Rightarrow>
          (case watchHandler_handle lib h resp of None \<Rightarrow> (Inl (rs_Body resp), st) | Some wh \<Rightarrow> (Inr wh, st))
      | _ \<Rightarrow> (Inl (rs_Body resp), st))"

fun watch_read_error :: "watch_error \<Rightarrow> read_error" where
  "watch_read_error WatchCanceled = ErrCanceled"
| "watch_read_error (WatchDecode (StreamFailed (StreamReadError e))) = e"
| "watch_read_error _ = ErrRead ''watch''"

definition api_Read ::
    "serial_lib \<Rightarrow> codec \<Rightarrow> nat \<Rightarrow> api_reader \<times> proxy_state
     \<Rightarrow> ((bytes \<times> read_error option) \<times> api_reader \<times> proxy_state) option" where
  "api_Read lib cd n rs =
     (case fst rs of
        Inl b \<Rightarrow> Some (case body_Read n b of (x, b') \<Rightarrow> (x, Inl b', snd rs))
      | Inr wh \<Rightarrow>
          (case watchHandler_Read lib cd False n wh (snd rs) of
             None \<Rightarrow> Panic
           | Some (Inl err, wh', st') \<Rightarrow> Some (([], Some (watch_read_error err)), Inr wh', st')
           | Some (Inr chunk, wh', st') \<Rightarrow> Some ((chunk, None), Inr wh', st')))"

subsection \<open>The handler\<close>

record api_env =
  ae_router :: router_env
  ae_lock :: lock_codec
  ae_serial :: serial_lib
  ae_escapedPath :: "url \<Rightarrow> string"
  ae_splitHostPort :: "string \<Rightarrow> string option"
  ae_transport :: "http_request \<Rightarrow> string + http_response"
  ae_trailer :: "http_response \<Rightarrow> header"
  ae_upgrade :: upgrade_env

record api_handler =
  ah_electionHandler :: "election_handler option"
  ah_userAgentOverride :: string

record api_state =
  as_proxy :: proxy_state
  as_cache :: resource_cache

datatype api_result =
    NoRequestInfo
  | UpgradeProxied http_request
  | LockRefused lock_error
  | RouteRefused route_error
  | Proxied serve_outcome response_writer

definition upgradeSubresources :: "string list" where
  "upgradeSubresources = [''exec'', ''attach'']"

definition overrideUserAgent :: "api_handler \<Rightarrow> http_request \<Rightarrow> http_request" where
  "overrideUserAgent h r =
     (if length (ah_userAgentOverride h) = 0 then r
      else (let userAgent = (if hasSuffix (ah_userAgentOverride h) ''/''
                             then ah_userAgentOverride h @ UserAgent r else ah_userAgentOverride h)
            in r\<lparr>rq_Header := header_Set (rq_Header r) ''User-Agent'' userAgent\<rparr>))"

definition getURL :: "http_request \<Rightarrow> url" where
  "getURL r = \<lparr>u_Scheme = ''https'', u_Host = rq_Host r, u_Path = '''', u_RawPath = '''', u_RawQuery = ''''\<rparr>"

definition newProxy ::
    "api_env \<Rightarrow> http_request
     \<Rightarrow> (http_response \<Rightarrow> proxy_state \<Rightarrow> ((string option \<times> http_response) \<times> proxy_state) option)
     \<Rightarrow> (http_response \<Rightarrow> proxy_state \<Rightarrow> api_reader \<times> proxy_state)
     \<Rightarrow> (api_reader, proxy_state) proxy_hooks" where
  "newProxy ae r modifyResponse modifyBody =
     \<lparr>ph_Director = single_host_director (ae_escapedPath ae) (getURL r),
      ph_RoundTrip = (\<lambda>q st. (ae_transport ae q, st)),
      ph_ModifyResponse = modifyResponse, ph_ModifyBody = modifyBody,
      ph_Read = api_Read (ae_serial ae) (re_codec (ae_router ae)),
      ph_FlushInterval = 500 * 1000000,
      ph_Get = (\<lambda>st. case pool_Get (px_pool st) of (len, bp) \<Rightarrow> (len, st\<lparr>px_pool := bp\<rparr>)),
      ph_Put = (\<lambda>len st. st\<lparr>px_pool := pool_Put len (px_pool st)\<rparr>),
      ph_Trailer = ae_trailer ae\<rparr>"

definition election_hooks :: "modify_response \<Rightarrow> http_response \<Rightarrow> proxy_state
     \<Rightarrow> ((string option \<times> http_response) \<times> proxy_state) option" where
  "election_hooks m resp st =
     Some ((None, resp), st\<lparr>px_manager := election_modifyResponse m resp (px_manager st)\<rparr>)"

definition serve_routed ::
    "api_env \<Rightarrow> request_info \<Rightarrow> http_request \<Rightarrow> response_writer \<Rightarrow> api_state \<Rightarrow> (api_result \<times> api_state) option" where
  \<comment> \<open>from \<^verbatim>\<open>h.router.Route\<close> on\<close>
  "serve_routed ae ri r rw st =
     (case Route (ae_router ae) r ri (px_manager (as_proxy st), as_cache st) of
        None \<Rightarrow> Panic
      | Some ((_, Inl err), sm, cache) \<Rightarrow>
          Some (RouteRefused err, \<lparr>as_proxy = (as_proxy st)\<lparr>px_manager := sm\<rparr>, as_cache = cache\<rparr>)
      | Some ((r', Inr acc), sm, cache) \<Rightarrow>
          do { (outcome, rw', px) \<leftarrow>
                 proxy_ServeHTTP (ae_splitHostPort ae)
                   (newProxy ae r' (accept_ModifyResponse (ae_serial ae) (re_codec (ae_router ae)) acc)
                      (accept_ModifyBody (ae_serial ae) acc))
                   (ae_upgrade ae) True r' rw ((as_proxy st)\<lparr>px_manager := sm\<rparr>);
               Some (Proxied outcome rw', \<lparr>as_proxy = px, as_cache = cache\<rparr>) })"

definition apiserver_ServeHTTP ::
    "api_env \<Rightarrow> api_handler \<Rightarrow> request_info option \<Rightarrow> http_request \<Rightarrow> response_writer \<Rightarrow> api_state
     \<Rightarrow> (api_result \<times> api_state) option" where
  "apiserver_ServeHTTP ae h requestInfo r0 rw st =
     (let r = overrideUserAgent h r0 in
      case requestInfo of
        None \<Rightarrow> Some (NoRequestInfo, st)
      | Some ri \<Rightarrow>
          if ri_IsResourceRequest ri \<and> ri_Subresource ri \<in> set upgradeSubresources then Some (UpgradeProxied r, st)
          else (case ah_electionHandler h of
                  None \<Rightarrow> serve_routed ae ri r rw st
                | Some eh \<Rightarrow>
                    (case election_Handle (ae_lock ae) eh ri r of
                       None \<Rightarrow> Panic
                     | Some (HandledError err, _) \<Rightarrow> Some (LockRefused err, st)
                     | Some (Handled m, r') \<Rightarrow>
                         do { (outcome, rw', px) \<leftarrow>
                                proxy_ServeHTTP (ae_splitHostPort ae)
                                  (newProxy ae r' (election_hooks m) (\<lambda>resp st. (Inl (rs_Body resp), st)))
                                  (ae_upgrade ae) True r' rw (as_proxy st);
                              Some (Proxied outcome rw', st\<lparr>as_proxy := px\<rparr>) }
                     | Some (NotHandled, r') \<Rightarrow> serve_routed ae ri r' rw st)))"

definition filtered_ServeHTTP ::
    "'l traffic_env \<Rightarrow> api_env \<Rightarrow> int \<Rightarrow> string + TrafficPolicy list \<Rightarrow> api_handler \<Rightarrow> request_info option \<Rightarrow> http_request
     \<Rightarrow> response_writer \<Rightarrow> 'l rate_controls \<times> api_state
     \<Rightarrow> ((admission \<times> api_result option) \<times> 'l rate_controls \<times> api_state) option" where
  \<comment> \<open>the chain of \<^verbatim>\<open>NewProxy\<close>: the handler runs only if the traffic filter forwards the request\<close>
  "filtered_ServeHTTP te ae now policies h requestInfo r rw st =
     (case traffic_ServeHTTP te now policies requestInfo (fst st) of (adm, rcs) \<Rightarrow>
        (case adm of
           Forward ds \<Rightarrow>
             do { (res, st') \<leftarrow> apiserver_ServeHTTP ae h requestInfo r rw (snd st);
                  Some ((adm, Some res),
                        (case requestInfo of None \<Rightarrow> rcs | Some ri \<Rightarrow> traffic_finish now ri ds rcs), st') }
         | ForwardUnchecked \<Rightarrow>
             do { (res, st') \<leftarrow> apiserver_ServeHTTP ae h requestInfo r rw (snd st);
                  Some ((adm, Some res), rcs, st') }
         | _ \<Rightarrow> Some ((adm, None), rcs, snd st)))"

subsection \<open>What is forwarded\<close>

lemma Route_write_matches:
  assumes "Route re r ri (sm, cache) = Some ((r', Inr acc), st')" and "ri_IsResourceRequest ri"
    and "ri_Verb ri \<noteq> ''list''" and "ri_Verb ri \<noteq> ''watch''"
    and "fst (DiscoverGVR (re_hasClient re) (re_answers re (request_gvr ri)) (request_gvr ri) cache) = Inr ar"
  shows "\<exists>sp. smg_currentSpec sm = Some sp \<and> IsUserAgentMatch sp (UserAgent r) = Some True
    \<and> IsNamespaceMatch sp (ri_Namespace ri) (gvr_GroupResource (request_gvr ri)) = Some True"
proof -
  obtain d cache' where d: "DiscoverGVR (re_hasClient re) (re_answers re (request_gvr ri)) (request_gvr ri) cache = (Inr ar, cache')"
    using assms(5) by (cases "DiscoverGVR (re_hasClient re) (re_answers re (request_gvr ri)) (request_gvr ri) cache") auto
  obtain sp where sp: "smg_currentSpec sm = Some sp"
    using assms(1,2) d by (cases "smg_currentSpec sm") (simp_all add: Route_def Let_def)
  obtain rr where w: "Route_with (re_selectors re) (Inr ar) sp r ri = Some (r', Inr acc, rr)"
    using assms(1,2) d sp by (auto simp: Route_def Let_def split: bind_splits prod.splits)
  have "IsUserAgentMatch sp (UserAgent r) = Some True
      \<and> IsNamespaceMatch sp (ri_Namespace ri) (gvr_GroupResource (request_gvr ri)) = Some True"
    using w assms(3,4) by (auto simp: Route_with_def Let_def split: bind_splits if_splits)
  with sp show ?thesis by blast
qed

definition takes_lock :: "api_env \<Rightarrow> api_handler \<Rightarrow> request_info \<Rightarrow> http_request \<Rightarrow> bool" where
  \<comment> \<open>the leader election handler forwards the request, which then does not reach the router\<close>
  "takes_lock ae h ri r =
     (case ah_electionHandler h of
        None \<Rightarrow> False
      | Some eh \<Rightarrow>
          (case election_Handle (ae_lock ae) eh ri (overrideUserAgent h r) of
             Some (Handled m, r') \<Rightarrow> True
           | _ \<Rightarrow> False))"

lemma takes_lock_request:
  "takes_lock ae h ri r \<Longrightarrow> \<exists>eh. ah_electionHandler h = Some eh \<and> lock_request eh ri"
  by (auto simp: takes_lock_def split: option.splits prod.splits handled.splits dest: election_Handle_Handled(1))

lemma served_write_matches:
  assumes "apiserver_ServeHTTP ae h (Some ri) r rw st = Some (Proxied oc rw', st')"
    and "\<not> takes_lock ae h ri r" and "ri_IsResourceRequest ri"
    and "ri_Verb ri \<noteq> ''list''" and "ri_Verb ri \<noteq> ''watch''"
    and "fst (DiscoverGVR (re_hasClient (ae_router ae)) (re_answers (ae_router ae) (request_gvr ri)) (request_gvr ri)
        (as_cache st)) = Inr ar"
  shows "\<exists>sp. smg_currentSpec (px_manager (as_proxy st)) = Some sp
    \<and> IsUserAgentMatch sp (UserAgent (overrideUserAgent h r)) = Some True
    \<and> IsNamespaceMatch sp (ri_Namespace ri) (gvr_GroupResource (request_gvr ri)) = Some True"
proof -
  obtain r1 where r1: "serve_routed ae ri r1 rw st = Some (Proxied oc rw', st')" "rq_Header r1 = rq_Header (overrideUserAgent h r)"
    using assms(1,2)
    by (auto simp: apiserver_ServeHTTP_def takes_lock_def Let_def split: if_splits option.splits prod.splits handled.splits
        dest: NotHandled_header)
  then obtain r' acc x where "Route (ae_router ae) r1 ri (px_manager (as_proxy st), as_cache st)
      = Some ((r', Inr acc), x)"
    by (auto simp: serve_routed_def split: option.splits prod.splits sum.splits)
  from Route_write_matches [OF this assms(3-6)] r1(2) show ?thesis by (simp add: UserAgent_def)
qed

lemma canonical_content_names:
  "CanonicalHeaderKey ''Content-Type'' = ''Content-Type''" "CanonicalHeaderKey ''Content-Length'' = ''Content-Length''"
  by code_simp+

lemma listHandler_handle_content_type:
  assumes "listHandler_handle lib cd h resp st = Some ((err, resp'), st')"
  shows "header_Get (rs_Header resp') ''Content-Type'' = header_Get (rs_Header resp) ''Content-Type''"
  using assms
  by (auto simp: listHandler_handle_def header_Get_def header_Set_def header_values_def canonical_content_names update_conv'
      split: if_splits sum.splits prod.splits bind_splits)

lemma through_proxy:
  fixes ae :: api_env and st :: api_state and acc :: route_accept
  defines "modify \<equiv> accept_ModifyResponse (ae_serial ae) (re_codec (ae_router ae)) acc"
  assumes route: "Route (ae_router ae) r ri (px_manager (as_proxy st), as_cache st) = Some ((r', Inr acc), sm, cache)"
    and answer: "ae_transport ae (outgoing_request (ae_splitHostPort ae)
        (single_host_director (ae_escapedPath ae) (getURL r')) r') = Inr res"
    and handled: "modify (strip_response res) ((as_proxy st)\<lparr>px_manager := sm\<rparr>) = Some ((None, resp'), px)"
    and body: "accept_ModifyBody (ae_serial ae) acc resp' px = (Inl (rs_Body resp'), px)" "bd_end (rs_Body resp') = EOF"
    and status: "rs_StatusCode res \<noteq> 101"
    and flush: "header_Get (rs_Header resp') ''Content-Type'' \<noteq> ''text/event-stream''"
  shows "\<exists>rw' st'. serve_routed ae ri r fresh_writer st = Some (Proxied Served rw', st')
    \<and> rw_Status rw' = Some (rs_StatusCode resp') \<and> rw_Written rw' = concat (bd_chunks (rs_Body resp'))"
proof -
  let ?ph = "newProxy ae r' modify (accept_ModifyBody (ae_serial ae) acc)"
  define rw1 where "rw1 = WriteHeader (rs_StatusCode resp')
    (fresh_writer\<lparr>rw_Header := announce_trailers (rs_Trailer resp') (copyHeader (rw_Header fresh_writer) (rs_Header resp'))\<rparr>)"
  have rw1: "rw_Budget rw1 = None" "rw_Status rw1 = Some (rs_StatusCode resp')" "rw_Written rw1 = []"
    by (simp_all add: rw1_def WriteHeader_def fresh_writer_def)
  have serve: "proxy_ServeHTTP (ae_splitHostPort ae) ?ph (ae_upgrade ae) True r' fresh_writer ((as_proxy st)\<lparr>px_manager := sm\<rparr>)
      = serve_body ?ph True resp' rw1 px"
    using answer handled status by (simp add: proxy_ServeHTTP_def newProxy_def rw1_def Let_def)
  obtain len bp where get: "pool_Get (px_pool px) = (len, bp)" by fastforce
  have "\<exists>rw'. serve_body ?ph True resp' rw1 px =
      Some (if bd_end (rs_Body resp') = EOF \<or> IsHashChangedError (bd_end (rs_Body resp')) then Served else Aborted,
            rw', ph_Put ?ph len (px\<lparr>px_pool := bp\<rparr>))
    \<and> rw_Status rw' = Some (rs_StatusCode resp') \<and> rw_Written rw' = concat (bd_chunks (rs_Body resp'))"
    by (rule serve_body_delivers [where f = Inl])
      (use flush rw1 body(1) in \<open>simp_all add: newProxy_def api_Read_def get flushInterval_def\<close>)
  with serve route body(2) show ?thesis
    by (auto simp: serve_routed_def modify_def)
qed

lemma plain_through_proxy:
  assumes "Route (ae_router ae) r ri (px_manager (as_proxy st), as_cache st) = Some ((r', Inr AcceptPlain), sm, cache)"
    and "ae_transport ae (outgoing_request (ae_splitHostPort ae)
        (single_host_director (ae_escapedPath ae) (getURL r')) r') = Inr res"
    and "rs_StatusCode res \<noteq> 101" and "bd_end (rs_Body res) = EOF"
    and "header_Get (rs_Header (strip_response res)) ''Content-Type'' \<noteq> ''text/event-stream''"
  shows "\<exists>rw' st'. serve_routed ae ri r fresh_writer st = Some (Proxied Served rw', st')
    \<and> rw_Status rw' = Some (rs_StatusCode res) \<and> rw_Written rw' = concat (bd_chunks (rs_Body res))"
proof -
  have strip: "rs_Body (strip_response res) = rs_Body res" "rs_StatusCode (strip_response res) = rs_StatusCode res"
    by (simp_all add: strip_response_def)
  show ?thesis
    using through_proxy [OF assms(1,2), of "strip_response res" "(as_proxy st)\<lparr>px_manager := sm\<rparr>"] assms(3-5)
    by (simp add: accept_ModifyResponse_def accept_ModifyBody_def strip)
qed

subsection \<open>Properties\<close>

text \<open>
  C4. A list request end to end. If the router accepts a list request and the API server
  answers it successfully with an uncompressed JSON list of objects, then serving the
  request returns, and what the client receives is the encoding of that list with exactly
  the items, in order, whose namespaces belong to the subset of the spec in force. If there
  is none the items field is null; if the user agent is denied it is the empty list.
\<close>

theorem client_receives_own_items:
  assumes "Route (ae_router ae) r ri (px_manager (as_proxy st), as_cache st) = Some ((r', Inr (AcceptList cfg)), sm, cache)"
    and "ae_transport ae (outgoing_request (ae_splitHostPort ae)
        (single_host_director (ae_escapedPath ae) (getURL r')) r') = Inr res"
    and "listHandler_handle (ae_serial ae) (re_codec (ae_router ae)) cfg (strip_response res)
        ((as_proxy st)\<lparr>px_manager := sm\<rparr>) = Some ((err, resp'), px)"
    and "200 \<le> rs_StatusCode res" and "rs_StatusCode res \<le> 206"
    and "newResponseSerializer (ae_serial ae) (strip_response res) (hc_apiResource cfg) False = Inr s"
    and "readOnce (sz_body s) = Inr content" and "se_decode (ae_serial ae) (sz_typed s) content = Some (Unstructured kvs)"
    and "map_of kvs ''items'' = Some (JArray items)" and "\<forall>x\<in>set items. is_object x"
    and "smg_currentSpec sm = Some sp" and "is_routeInternal sp = Some ir"
    and "se_encode (ae_serial ae) (Unstructured (AList.update ''items'' (kept_json cfg ir items) kvs)) = Some out"
    and "\<not> sz_gzip s" and "header_Get (rs_Header (strip_response res)) ''Content-Type'' \<noteq> ''text/event-stream''"
  shows "\<exists>rw' st'. serve_routed ae ri r fresh_writer st = Some (Proxied Served rw', st')
    \<and> rw_Status rw' = Some (rs_StatusCode res) \<and> rw_Written rw' = out"
proof -
  have code: "rs_StatusCode (strip_response res) = rs_StatusCode res" by (simp add: strip_response_def)
  have f: "err = None \<and> rs_Body resp' = \<lparr>bd_chunks = [if sz_gzip s then se_gzip (ae_serial ae) out else out], bd_end = EOF\<rparr>
    \<and> rs_ContentLength resp' = int (length (concat (bd_chunks (rs_Body resp'))))
    \<and> header_Get (rs_Header resp') ''Content-Length'' = itoa (rs_ContentLength resp')
    \<and> rs_StatusCode resp' = rs_StatusCode (strip_response res)"
    using assms(4,5,11) by (intro listHandler_handle_filtered [OF assms(3) _ _ assms(6-10) _ assms(12,13)]) (simp_all add: code)
  then have err: "err = None" by blast
  have "rs_StatusCode res \<noteq> 101" using assms(4) by simp
  with through_proxy [OF assms(1,2), of resp' px] f assms(3,14,15) code listHandler_handle_content_type [OF assms(3)]
  show ?thesis by (simp add: accept_ModifyResponse_def accept_ModifyBody_def err)
qed

definition example_env :: api_env where
  "example_env =
     \<lparr>ae_router = \<lparr>re_codec = example_codec, re_selectors = example_selectors, re_hasClient = False,
                   re_answers = \<lambda>_ _. Inl NoDiscoveryClient\<rparr>,
      ae_lock = example_lock_codec, ae_serial = example_serial, ae_escapedPath = u_Path,
      ae_splitHostPort = \<lambda>_. Some ''1.2.3.4'', ae_transport = \<lambda>_. Inr example_response, ae_trailer = \<lambda>_. [],
      ae_upgrade = \<lparr>ue_hijacker = False, ue_writableBody = False, ue_hijackFails = False, ue_writeFails = False,
                    ue_flushFails = False\<rparr>\<rparr>"

definition example_api_state :: api_state where
  "example_api_state =
     \<lparr>as_proxy = example_proxy,
      as_cache = [(request_gvr (example_resource_info ''list''), hc_apiResource example_config)]\<rparr>"

definition example_list_config :: handler_config where
  "example_list_config = example_config\<lparr>hc_reqInfo := example_resource_info ''list''\<rparr>"

lemma example_list_route:
  "Route_with sl (Inr (hc_apiResource example_config)) (the (smg_currentSpec (px_manager example_proxy)))
     example_http_request (example_resource_info ''list'')
   = Some (example_http_request, Inr (AcceptList example_list_config), user_agent_record example_gr ''ua'' True)"
proof -
  let ?sp = "the (smg_currentSpec (px_manager example_proxy))"
  have ir: "is_routeInternal ?sp = Some example_route_ns" by (simp add: example_proxy_def)
  have "UserAgent example_http_request = ''ua''" by code_simp
  moreover have "route_IsUserAgentMatch example_route_ns ''ua''" by code_simp
  then have "IsUserAgentMatch ?sp ''ua'' = Some True" using ir by (simp add: IsUserAgentMatch_def)
  moreover have "gvr_GroupResource (request_gvr (example_resource_info ''list'')) = example_gr" by code_simp
  moreover have "getObjectSelector example_route_ns example_gr = None" by code_simp
  then have "GetObjectSelector ?sp example_gr = Some None" using ir by (simp add: GetObjectSelector_def)
  moreover have "ri_Verb (example_resource_info ''list'') = ''list''" by (simp add: example_resource_info_def)
  ultimately show ?thesis
    by (simp add: Route_with_def accept_stream_def example_list_config_def example_config_def Let_def)
qed

lemma ReleaseSpec_frame:
  assumes "ReleaseSpec cd rr sm = Some sm'"
  shows "smg_currentSpec sm' = smg_currentSpec sm" and "mockFailure (smg_storage sm') = mockFailure (smg_storage sm)"
  using assms
  by (auto simp: ReleaseSpec_def requestsStore_add_def writeHistoryRequests_def mockFailure_def Let_def split: option.splits prod.splits if_splits)

theorem client_receives_own_items_witness:
  "\<exists>rw' st'. serve_routed example_env (example_resource_info ''list'') example_http_request fresh_writer example_api_state
     = Some (Proxied Served rw', st') \<and> rw_Status rw' = Some 200 \<and> rw_Written rw' = ''ns''"
proof -
  let ?items = "[example_deployment ''ns'', example_deployment ''other'']" and ?sm0 = "px_manager example_proxy"
  have mock: "\<not> mockFailure (smg_storage ?sm0)"
    by (simp add: example_proxy_def example_start_def newStorage_def mockFailure_def)
  then obtain sm where sm: "ReleaseSpec example_codec (Some (user_agent_record example_gr ''ua'' True)) ?sm0 = Some sm"
    using ReleaseSpec_total by blast
  have route: "Route (ae_router example_env) example_http_request (example_resource_info ''list'')
      (px_manager (as_proxy example_api_state), as_cache example_api_state)
    = Some ((example_http_request, Inr (AcceptList example_list_config)), sm, as_cache example_api_state)"
    using example_list_route [of example_selectors] sm
    by (simp add: Route_def example_api_state_def example_env_def DiscoverGVR_def example_resource_info_def example_proxy_def)
  have strip: "strip_response example_response = example_response" by code_simp
  have ar: "hc_apiResource example_list_config = hc_apiResource example_config" by (simp add: example_list_config_def)
  obtain s where s: "newResponseSerializer example_serial (strip_response example_response) (hc_apiResource example_list_config) False = Inr s"
    "sz_body s = rs_Body example_response" "\<not> sz_gzip s"
    unfolding strip ar
    by (simp add: newResponseSerializer_def example_serial_def example_response_def header_Get_def header_values_def Let_def)
  have rd: "readOnce (sz_body s) = Inr ''hello''"
    by (simp add: s(2) example_response_def readOnce_def read_all_def)
  have sp: "smg_currentSpec sm = smg_currentSpec ?sm0" "\<not> mockFailure (smg_storage sm)"
    using ReleaseSpec_frame [OF sm] mock by simp_all
  have "\<exists>x. listHandler_handle example_serial example_codec example_list_config (strip_response example_response)
      (example_proxy\<lparr>px_manager := sm\<rparr>) = Some x"
    by (rule listHandler_handle_total [OF s(1) rd, where items = ?items and ir = example_route_ns
          and kvs = "[(''items'', JArray ?items)]" and sp = "the (smg_currentSpec (px_manager example_proxy))"])
      (simp_all add: sp, simp_all add: example_serial_def example_proxy_def)
  then obtain err resp' px where h: "listHandler_handle example_serial example_codec example_list_config
      (strip_response example_response) (example_proxy\<lparr>px_manager := sm\<rparr>) = Some ((err, resp'), px)" by fastforce
  have "kept_items example_list_config example_route_ns ?items = [example_deployment ''ns'']"
    by (simp add: kept_items_def example_list_config_def example_config_def example_route_ns_match)
  then have out: "se_encode example_serial (Unstructured (AList.update ''items''
      (kept_json example_list_config example_route_ns ?items) [(''items'', JArray ?items)])) = Some ''ns''"
    by (simp add: kept_json_def example_serial_def) (simp add: example_list_config_def example_config_def)
  have ct: "header_Get (rs_Header (strip_response example_response)) ''Content-Type'' \<noteq> ''text/event-stream''"
    unfolding strip by code_simp
  have env: "ae_serial example_env = example_serial" "re_codec (ae_router example_env) = example_codec"
    "as_proxy example_api_state = example_proxy" "ae_transport example_env q = Inr example_response" for q
    by (simp_all add: example_env_def example_api_state_def)
  have code: "rs_StatusCode example_response = 200" by (simp add: example_response_def)
  have dec: "se_decode example_serial t b = Some (Unstructured [(''items'', JArray ?items)])" for t b
    by (simp add: example_serial_def)
  show ?thesis
    using client_receives_own_items [OF route env(4), where s = s and content = "''hello''" and items = ?items
        and kvs = "[(''items'', JArray ?items)]" and sp = "the (smg_currentSpec ?sm0)" and ir = example_route_ns and out = "''ns''",
        unfolded env code] h s rd dec out ct sp
    by (simp add: example_proxy_def)
qed

end
