(* ===== verification/Webhook_Proxy.thy ===== *)
theory Webhook_Proxy
  imports Reverse_Proxy Spec_Manager
begin

section \<open>The webhook proxy (\<^verbatim>\<open>proxy/webhook\<close>)\<close>

text \<open>
  The proxy in front of the admission webhooks of the managed controller: the routing
  decision (\<^verbatim>\<open>router/router.go\<close>), the cache of transports, the handler, and the start-up
  sequence (\<^verbatim>\<open>webhook_handler.go\<close>). Requests that leave the proxy are recorded in the state
  with the address they are sent to. A nil dereference, an index out of range and
  \<^verbatim>\<open>klog.Fatalf\<close> are \<open>None\<close>, as is a recursion that never returns.
\<close>

subsection \<open>Routing\<close>

record admission_request =
  aq_Namespace :: string
  aq_Resource :: group_resource

datatype webhook_route =
    WebhookAccept
  | WebhookRedirect "string list"
  | WebhookIgnore
  | WebhookNoEndpoints nat

definition webhook_Route :: "codec \<Rightarrow> admission_request \<Rightarrow> spec_manager \<Rightarrow> (webhook_route \<times> spec_manager) option" where
  "webhook_Route cd req sm =
     do { protoSpec \<leftarrow> smg_currentSpec sm;
          matched \<leftarrow> GetMatchedSubsetEndpoint protoSpec (aq_Namespace req) (aq_Resource req);
          sm' \<leftarrow> ReleaseSpec cd None sm;
          Some (case matched of
                  MatchIgnore \<Rightarrow> WebhookIgnore
                | MatchSelf \<Rightarrow> WebhookAccept
                | MatchHosts hosts \<Rightarrow>
                    if length hosts = 0 then WebhookNoEndpoints 404 else WebhookRedirect hosts,
                sm') }"

subsection \<open>Transports\<close>

record transport_cache =
  \<comment> \<open>a transport is the address it dials\<close>
  tc_cache :: "(string, string) gomap"
  tc_webhookPort :: int

definition redirectHost :: "transport_cache \<Rightarrow> string \<Rightarrow> string" where
  "redirectHost tc host = host @ '':'' @ itoa (tc_webhookPort tc)"

fun cached_tripper :: "(string, string) gomap \<Rightarrow> string list \<Rightarrow> string option" where
  "cached_tripper cache [] = None"
| "cached_tripper cache (host # hosts) =
     (case map_of cache host of Some rt \<Rightarrow> Some rt | None \<Rightarrow> cached_tripper cache hosts)"

definition getOneTripper ::
    "(string \<Rightarrow> bool) \<Rightarrow> string list \<Rightarrow> transport_cache \<Rightarrow> (string \<times> transport_cache) option" where
  \<comment> \<open>\<open>newOk\<close>: whether \<^verbatim>\<open>transport.New\<close> accepts the configuration for an address\<close>
  "getOneTripper newOk hosts tc =
     (case cached_tripper (tc_cache tc) hosts of
        Some rt \<Rightarrow> Some (rt, tc)
      | None \<Rightarrow>
          (case hosts of
             [] \<Rightarrow> Panic
           | host # _ \<Rightarrow>
               if newOk (redirectHost tc host)
               then Some (redirectHost tc host, tc\<lparr>tc_cache := AList.update host (redirectHost tc host) (tc_cache tc)\<rparr>)
               else Panic))"

definition getTripper :: "(string \<Rightarrow> bool) \<Rightarrow> string \<Rightarrow> transport_cache \<Rightarrow> (string \<times> transport_cache) option" where
  "getTripper newOk host tc = getOneTripper newOk [host] tc"

subsection \<open>Answers of the proxy itself\<close>

datatype review_message =
    BodyEmpty
  | BodyUnreadable read_error
  | WrongContentType string
  | Undecodable string
  | RequestEmpty
  | NoEndpoints admission_request
  | WriteError

datatype review_response =
    ReviewErrored nat review_message
  | ReviewAllowed

partial_function (option) writeResponse ::
    "(review_response \<Rightarrow> bytes) \<Rightarrow> response_writer \<Rightarrow> review_response \<Rightarrow> response_writer option" where
  \<comment> \<open>\<open>enc\<close> is the JSON of the review, with the newline of the encoder\<close>
  "writeResponse enc w response =
     (case rw_Write (enc response) w of
        ((_, err), w') \<Rightarrow> if err then writeResponse enc w' (ReviewErrored 500 WriteError) else Some w')"

subsection \<open>The handler\<close>

record webhook_env =
  wh_codec :: codec
  wh_encode :: "review_response \<Rightarrow> bytes"
  wh_decode :: "bytes \<Rightarrow> string + admission_request option"
  wh_parseURL :: "string \<Rightarrow> url option"
  wh_escapedPath :: "url \<Rightarrow> string"
  wh_splitHostPort :: "string \<Rightarrow> string option"
  wh_newTransport :: "string \<Rightarrow> bool"
  wh_send :: "string \<Rightarrow> http_request \<Rightarrow> string + http_response"
  wh_trailer :: "http_response \<Rightarrow> header"
  wh_upgrade :: upgrade_env

record webhook_state =
  ws_manager :: spec_manager
  ws_cache :: transport_cache
  ws_pool :: bytes_pool
  ws_sent :: "(string \<times> http_request) list"

definition webhook_hooks :: "webhook_env \<Rightarrow> url \<Rightarrow> string \<Rightarrow> (body, webhook_state) proxy_hooks" where
  "webhook_hooks we u tripper =
     \<lparr>ph_Director = single_host_director (wh_escapedPath we) u,
      ph_RoundTrip = (\<lambda>q st. (wh_send we tripper q, st\<lparr>ws_sent := ws_sent st @ [(tripper, q)]\<rparr>)),
      ph_ModifyResponse = (\<lambda>resp st. Some ((None, resp), st)), ph_ModifyBody = (\<lambda>resp st. (rs_Body resp, st)),
      ph_Read = (\<lambda>n (b, st). Some (case body_Read n b of (x, b') \<Rightarrow> (x, b', st))),
      ph_FlushInterval = 0,
      ph_Get = (\<lambda>st. case pool_Get (ws_pool st) of (len, bp) \<Rightarrow> (len, st\<lparr>ws_pool := bp\<rparr>)),
      ph_Put = (\<lambda>len st. st\<lparr>ws_pool := pool_Put len (ws_pool st)\<rparr>),
      ph_Trailer = wh_trailer we\<rparr>"

definition webhook_forward ::
    "webhook_env \<Rightarrow> string \<Rightarrow> bytes \<Rightarrow> http_request \<Rightarrow> response_writer \<Rightarrow> webhook_state
     \<Rightarrow> (serve_outcome \<times> response_writer \<times> webhook_state) option" where
  \<comment> \<open>from the new body on\<close>
  "webhook_forward we tripper content r rw st =
     do { u \<leftarrow> wh_parseURL we (''https://'' @ rq_Host r);
          proxy_ServeHTTP (wh_splitHostPort we) (webhook_hooks we u tripper) (wh_upgrade we) True
            (r\<lparr>rq_Body := Some \<lparr>bd_chunks = [content], bd_end = EOF\<rparr>\<rparr>) rw st }"

definition webhook_reply ::
    "webhook_env \<Rightarrow> review_response \<Rightarrow> response_writer \<Rightarrow> webhook_state
     \<Rightarrow> (serve_outcome \<times> response_writer \<times> webhook_state) option" where
  "webhook_reply we response rw st =
     do { rw' \<leftarrow> writeResponse (wh_encode we) rw response; Some (Served, rw', st) }"

definition webhook_dispatch ::
    "webhook_env \<Rightarrow> admission_request \<Rightarrow> bytes \<Rightarrow> http_request \<Rightarrow> response_writer \<Rightarrow> webhook_state
     \<Rightarrow> (serve_outcome \<times> response_writer \<times> webhook_state) option" where
  \<comment> \<open>from \<^verbatim>\<open>h.router.Route\<close> on\<close>
  "webhook_dispatch we req content r rw st =
     do { (route, sm) \<leftarrow> webhook_Route (wh_codec we) req (ws_manager st);
          let st = st\<lparr>ws_manager := sm\<rparr> in
          (case route of
             WebhookNoEndpoints code \<Rightarrow> webhook_reply we (ReviewErrored code (NoEndpoints req)) rw st
           | WebhookIgnore \<Rightarrow> webhook_reply we ReviewAllowed rw st
           | WebhookRedirect hosts \<Rightarrow>
               do { (tripper, tc) \<leftarrow> getOneTripper (wh_newTransport we) hosts (ws_cache st);
                    webhook_forward we tripper content r rw (st\<lparr>ws_cache := tc\<rparr>) }
           | WebhookAccept \<Rightarrow>
               do { (tripper, tc) \<leftarrow> getTripper (wh_newTransport we) ''127.0.0.1'' (ws_cache st);
                    webhook_forward we tripper content r rw (st\<lparr>ws_cache := tc\<rparr>) }) }"

definition webhook_ServeHTTP ::
    "webhook_env \<Rightarrow> http_request \<Rightarrow> response_writer \<Rightarrow> webhook_state
     \<Rightarrow> (serve_outcome \<times> response_writer \<times> webhook_state) option" where
  "webhook_ServeHTTP we r rw st =
     (case rq_Body r of
        None \<Rightarrow> webhook_reply we (ReviewErrored 400 BodyEmpty) rw st
      | Some b \<Rightarrow>
          (case read_all b of
             Inr e \<Rightarrow> webhook_reply we (ReviewErrored 400 (BodyUnreadable e)) rw st
           | Inl content \<Rightarrow>
               (let contentType = header_Get (rq_Header r) ''Content-Type'' in
                if contentType \<noteq> ''application/json''
                then webhook_reply we (ReviewErrored 400 (WrongContentType contentType)) rw st
                else (case wh_decode we content of
                        Inl e \<Rightarrow> webhook_reply we (ReviewErrored 400 (Undecodable e)) rw st
                      | Inr None \<Rightarrow> webhook_reply we (ReviewErrored 400 RequestEmpty) rw st
                      | Inr (Some req) \<Rightarrow> webhook_dispatch we req content r rw st))))"

subsection \<open>Start-up\<close>

fun clean_step :: "bool \<Rightarrow> string \<Rightarrow> string list \<Rightarrow> string list" where
  \<comment> \<open>one element of \<^verbatim>\<open>path.Clean\<close>; the elements so far are reversed\<close>
  "clean_step rooted e out =
     (if e = '''' \<or> e = ''.'' then out
      else if e = ''..''
      then (case out of
              [] \<Rightarrow> if rooted then [] else [e]
            | d # ds \<Rightarrow> if d = ''..'' then e # out else ds)
      else e # out)"

definition path_Clean :: "string \<Rightarrow> string" where
  "path_Clean p =
     (let rooted = hasPrefix p ''/'';
          out = rev (fold (clean_step rooted) (split_on (CHR ''/'') p) [])
      in if rooted then CHR ''/'' # join_with ''/'' out else if out = [] then ''.'' else join_with ''/'' out)"

definition path_Join :: "string \<Rightarrow> string \<Rightarrow> string" where
  "path_Join a b =
     (let es = filter (\<lambda>e. e \<noteq> '''') [a, b] in if es = [] then '''' else path_Clean (join_with ''/'' es))"

record webhook_options =
  wo_CertDir :: string
  wo_BindPort :: int
  wo_WebhookPort :: int

datatype stat = Exists | NotExist | StatError string

datatype certs_error = CertDirNotFound string | CertDirError string string | CertsNotFound string

definition tlsFileNames :: "(string \<times> string) list" where
  "tlsFileNames = [(''tls.key'', ''tls.crt''), (''key.pem'', ''cert.pem'')]"

fun find_certs :: "(string \<Rightarrow> stat) \<Rightarrow> string \<Rightarrow> (string \<times> string) list \<Rightarrow> (string \<times> string) option" where
  "find_certs st dir [] = None"
| "find_certs st dir ((k, c) # names) =
     (let key = path_Join dir k; cert = path_Join dir c in
      if st key \<noteq> Exists then find_certs st dir names
      else if st cert \<noteq> Exists then find_certs st dir names
      else Some (key, cert))"

definition ensureCerts :: "webhook_options \<Rightarrow> (string \<Rightarrow> stat) \<Rightarrow> certs_error + string \<times> string" where
  "ensureCerts opts st =
     (case st (wo_CertDir opts) of
        NotExist \<Rightarrow> Inl (CertDirNotFound (wo_CertDir opts))
      | StatError e \<Rightarrow> Inl (CertDirError (wo_CertDir opts) e)
      | Exists \<Rightarrow>
          (case find_certs st (wo_CertDir opts) tlsFileNames of
             None \<Rightarrow> Inl (CertsNotFound (wo_CertDir opts))
           | Some kc \<Rightarrow> Inr kc))"

record surroundings =
  \<comment> \<open>what one turn of the start goroutine observes\<close>
  su_done :: bool
  su_stat :: "string \<Rightarrow> stat"
  su_portOpened :: bool
  su_watcherOk :: bool
  su_listenOk :: bool
  su_serveOk :: bool

datatype start_phase =
    WaitCerts
  | WaitPort "string \<times> string"
  | Serving "string \<times> string" transport_cache
  | Exited
  | Crashed

record webhook_proxy =
  wp_phase :: start_phase
  wp_started :: bool
  wp_stopped :: bool

definition NewWebhookProxy :: webhook_proxy where
  "NewWebhookProxy = \<lparr>wp_phase = WaitCerts, wp_started = False, wp_stopped = False\<rparr>"

definition start_serving ::
    "(string \<Rightarrow> bool) \<Rightarrow> webhook_options \<Rightarrow> surroundings \<Rightarrow> string \<times> string \<Rightarrow> webhook_proxy \<Rightarrow> webhook_proxy" where
  \<comment> \<open>from \<^verbatim>\<open>certwatcher.New\<close> to the call of \<^verbatim>\<open>srv.Serve\<close>\<close>
  "start_serving newOk opts e kc p =
     (if \<not> su_watcherOk e then p\<lparr>wp_phase := Crashed\<rparr>
      else if \<not> su_listenOk e then p\<lparr>wp_phase := Crashed\<rparr>
      else (case getTripper newOk ''127.0.0.1'' \<lparr>tc_cache = [], tc_webhookPort = wo_WebhookPort opts\<rparr> of
              None \<Rightarrow> p\<lparr>wp_phase := Crashed\<rparr>
            | Some (_, tc) \<Rightarrow> p\<lparr>wp_phase := Serving kc tc, wp_started := True\<rparr>))"

definition start_step ::
    "(string \<Rightarrow> bool) \<Rightarrow> webhook_options \<Rightarrow> surroundings \<Rightarrow> webhook_proxy \<Rightarrow> webhook_proxy" where
  "start_step newOk opts e p =
     (case wp_phase p of
        WaitCerts \<Rightarrow>
          if su_done e then p\<lparr>wp_phase := Exited, wp_stopped := True\<rparr>
          else (case ensureCerts opts (su_stat e) of Inl _ \<Rightarrow> p | Inr kc \<Rightarrow> p\<lparr>wp_phase := WaitPort kc\<rparr>)
      | WaitPort kc \<Rightarrow>
          if su_done e then p\<lparr>wp_phase := Exited, wp_stopped := True\<rparr>
          else if su_portOpened e then start_serving newOk opts e kc p
          else p
      | Serving _ _ \<Rightarrow>
          if su_done e then p\<lparr>wp_phase := Exited, wp_stopped := True\<rparr>
          else if \<not> su_serveOk e then p\<lparr>wp_phase := Crashed\<rparr>
          else p
      | Exited \<Rightarrow> p
      | Crashed \<Rightarrow> p)"

definition HealthFunc :: "webhook_proxy \<Rightarrow> string option" where
  "HealthFunc p = (if \<not> wp_started p then Some ''not started'' else None)"

primrec webhook_Start ::
    "(string \<Rightarrow> bool) \<Rightarrow> webhook_options \<Rightarrow> (nat \<Rightarrow> surroundings) \<Rightarrow> nat \<Rightarrow> webhook_proxy" where
  \<comment> \<open>the state after \<open>n\<close> turns\<close>
  "webhook_Start newOk opts env 0 = NewWebhookProxy"
| "webhook_Start newOk opts env (Suc n) = start_step newOk opts (env n) (webhook_Start newOk opts env n)"

subsection \<open>Writing an answer\<close>

lemma writeResponse_stuck:
  assumes "writeResponse enc w response = Some w'" and "rw_Budget w = Some 0" and "enc response \<noteq> []"
    and "enc (ReviewErrored 500 WriteError) \<noteq> []"
  shows False
proof -
  let ?P = "\<lambda>enc w response w'. \<not> (rw_Budget w = Some 0 \<and> enc response \<noteq> [] \<and> enc (ReviewErrored 500 WriteError) \<noteq> [])"
  have "?P enc w response w'"
  proof (rule writeResponse.raw_induct [where P = ?P, OF _ assms(1)], goal_cases)
    case (1 wr enc w response y)
    from 1(2) show ?case
      by (auto simp: rw_Write_def WriteHeader_def Let_def split: prod.splits if_splits option.splits dest!: 1(1))
  qed
  with assms(2-) show False by simp
qed

lemma writeResponse_fits:
  assumes "case rw_Budget w of None \<Rightarrow> True | Some k \<Rightarrow> length (enc response) \<le> k"
  shows "\<exists>w'. writeResponse enc w response = Some w' \<and> rw_Written w' = rw_Written w @ enc response
    \<and> (rw_Status w = None \<longrightarrow> rw_Status w' = Some 200)"
  using assms
  by (subst writeResponse.simps) (auto simp: rw_Write_def WriteHeader_def Let_def split: option.splits)

subsection \<open>Well-formed transports\<close>

definition cache_ok :: "transport_cache \<Rightarrow> bool" where
  "cache_ok tc \<longleftrightarrow> gomap_ok (tc_cache tc) \<and> (\<forall>h rt. map_of (tc_cache tc) h = Some rt \<longrightarrow> rt = redirectHost tc h)"

lemma cached_tripper_Some:
  assumes "cached_tripper cache hosts = Some rt"
  shows "\<exists>h\<in>set hosts. map_of cache h = Some rt"
  using assms by (induction hosts) (auto split: option.splits)

lemma redirectHost_update [simp]: "redirectHost (tc\<lparr>tc_cache := c\<rparr>) h = redirectHost tc h"
  by (simp add: redirectHost_def)

lemma getOneTripper_ok:
  assumes "getOneTripper newOk hosts tc = Some (rt, tc')" and "cache_ok tc"
  shows "cache_ok tc'" and "tc_webhookPort tc' = tc_webhookPort tc" and "map_of (tc_cache tc) \<subseteq>\<^sub>m map_of (tc_cache tc')"
    and "\<exists>h\<in>set hosts. rt = redirectHost tc h \<and> map_of (tc_cache tc') h = Some rt"
proof -
  have hit: "\<exists>h\<in>set hosts. rt' = redirectHost tc h \<and> map_of (tc_cache tc) h = Some rt'"
    if "cached_tripper (tc_cache tc) hosts = Some rt'" for rt'
    using cached_tripper_Some [OF that] assms(2) by (auto simp: cache_ok_def)
  show "cache_ok tc'"
    using assms by (auto simp: getOneTripper_def cache_ok_def update_conv'
        split: option.splits list.splits if_splits)
  show "tc_webhookPort tc' = tc_webhookPort tc"
    using assms(1) by (auto simp: getOneTripper_def split: option.splits list.splits if_splits)
  show "map_of (tc_cache tc) \<subseteq>\<^sub>m map_of (tc_cache tc')"
    using assms(1) by (auto simp: getOneTripper_def map_le_def update_conv' split: option.splits list.splits if_splits)
  show "\<exists>h\<in>set hosts. rt = redirectHost tc h \<and> map_of (tc_cache tc') h = Some rt"
    using assms(1) hit by (auto simp: getOneTripper_def update_conv' split: option.splits list.splits if_splits)
qed

definition webhook_ok :: "webhook_state \<Rightarrow> bool" where
  "webhook_ok st \<longleftrightarrow> cache_ok (ws_cache st) \<and> pool_ok (ws_pool st)
     \<and> (\<forall>(a, q)\<in>set (ws_sent st). a \<in> ran (map_of (tc_cache (ws_cache st))))"

definition sends_to :: "string \<Rightarrow> transport_cache \<Rightarrow> webhook_state \<Rightarrow> bool" where
  "sends_to t tc st \<longleftrightarrow> webhook_ok st \<and> ws_cache st = tc \<and> t \<in> ran (map_of (tc_cache tc))"

interpretation wh: hook_invariant "webhook_hooks we u t" "sends_to t tc" for we u t tc
proof
  fix s s' q r n b b' x x3 x4 len and y :: "(string option \<times> http_response)" and x2 :: body
  assume I: "sends_to t tc s"
  show "sends_to t tc s'" if "ph_RoundTrip (webhook_hooks we u t) q s = (x, s')"
    using I that by (auto simp: webhook_hooks_def sends_to_def webhook_ok_def)
  show "sends_to t tc s'" if "ph_ModifyResponse (webhook_hooks we u t) r s = Some (y, s')"
    using I that by (simp add: webhook_hooks_def)
  show "sends_to t tc s'" if "ph_ModifyBody (webhook_hooks we u t) r s = (x2, s')"
    using I that by (simp add: webhook_hooks_def)
  show "sends_to t tc s'" if "ph_Read (webhook_hooks we u t) n (b, s) = Some (x3, b', s')"
    using I that by (simp add: webhook_hooks_def split: prod.splits)
  show "sends_to t tc s'" if "ph_Get (webhook_hooks we u t) s = (x4, s')"
  proof -
    obtain len bp where get: "pool_Get (ws_pool s) = (len, bp)" by fastforce
    have "pool_ok (ws_pool s)" using I by (simp add: sends_to_def webhook_ok_def)
    from bp.get_ok [OF this get] show ?thesis
      using I that get by (auto simp: webhook_hooks_def sends_to_def webhook_ok_def)
  qed
  show "sends_to t tc (ph_Put (webhook_hooks we u t) len s)"
    using I by (auto simp: webhook_hooks_def sends_to_def webhook_ok_def bp.put_ok)
qed

lemma webhook_ok_manager [simp]: "webhook_ok (st\<lparr>ws_manager := sm\<rparr>) = webhook_ok st"
  by (simp add: webhook_ok_def)

lemma tripper_then_forward_ok:
  assumes "getOneTripper newOk hosts (ws_cache st) = Some (t, tc)" and "webhook_ok st"
    and "webhook_forward we t content r rw (st\<lparr>ws_cache := tc\<rparr>) = Some (oc, rw', st')"
  shows "webhook_ok st'" and "tc_webhookPort (ws_cache st') = tc_webhookPort (ws_cache st)"
    and "map_of (tc_cache (ws_cache st)) \<subseteq>\<^sub>m map_of (tc_cache (ws_cache st'))"
proof -
  have ok: "cache_ok (ws_cache st)" using assms(2) by (simp add: webhook_ok_def)
  note g = getOneTripper_ok [OF assms(1) ok]
  have mono: "ran (map_of (tc_cache (ws_cache st))) \<subseteq> ran (map_of (tc_cache tc))"
    using g(3) by (auto simp: ran_def map_le_def) (metis domI)
  then have "sends_to t tc (st\<lparr>ws_cache := tc\<rparr>)"
    using assms(2) g(1,4) by (fastforce simp: sends_to_def webhook_ok_def intro: ranI)
  then have "sends_to t tc st'"
    using assms(3) by (auto simp: webhook_forward_def split: bind_splits dest: wh.ServeHTTP_keeps)
  with g show "webhook_ok st'" "tc_webhookPort (ws_cache st') = tc_webhookPort (ws_cache st)"
      "map_of (tc_cache (ws_cache st)) \<subseteq>\<^sub>m map_of (tc_cache (ws_cache st'))"
    by (auto simp: sends_to_def)
qed

lemma webhook_reply_state: "webhook_reply we response rw st = Some (oc, rw', st') \<Longrightarrow> st' = st \<and> oc = Served"
  by (auto simp: webhook_reply_def split: bind_splits)

lemma webhook_dispatch_ok:
  assumes "webhook_dispatch we req content r rw st = Some (oc, rw', st')" and "webhook_ok st"
  shows "webhook_ok st' \<and> tc_webhookPort (ws_cache st') = tc_webhookPort (ws_cache st)
    \<and> map_of (tc_cache (ws_cache st)) \<subseteq>\<^sub>m map_of (tc_cache (ws_cache st'))"
proof -
  obtain route sm where r: "webhook_Route (wh_codec we) req (ws_manager st) = Some (route, sm)"
    using assms(1) by (auto simp: webhook_dispatch_def split: bind_splits)
  let ?st = "st\<lparr>ws_manager := sm\<rparr>"
  have ok: "webhook_ok ?st" using assms(2) by simp
  have fwd: ?thesis if run: "do { (t, tc) \<leftarrow> getOneTripper (wh_newTransport we) hosts (ws_cache ?st);
      webhook_forward we t content r rw (?st\<lparr>ws_cache := tc\<rparr>) } = Some (oc, rw', st')" for hosts
  proof -
    obtain t tc where "getOneTripper (wh_newTransport we) hosts (ws_cache ?st) = Some (t, tc)"
      and "webhook_forward we t content r rw (?st\<lparr>ws_cache := tc\<rparr>) = Some (oc, rw', st')"
      using run by (auto split: bind_splits)
    from tripper_then_forward_ok [OF this(1) ok this(2)] show ?thesis by simp
  qed
  note eq = assms(1) [unfolded webhook_dispatch_def r getTripper_def Let_def]
  show ?thesis
  proof (cases route)
    case WebhookAccept
    with eq show ?thesis by (intro fwd [of "[''127.0.0.1'']"]) simp
  next
    case (WebhookRedirect hosts)
    with eq show ?thesis by (intro fwd [of hosts]) simp
  qed (use eq assms(2) in \<open>auto dest!: webhook_reply_state\<close>)
qed

subsection \<open>What a request leads to\<close>

lemma webhook_forward_delivers:
  assumes "wh_parseURL we (''https://'' @ rq_Host r) = Some u"
    and "wh_send we t (outgoing_request (wh_splitHostPort we) (single_host_director (wh_escapedPath we) u)
        (r\<lparr>rq_Body := Some \<lparr>bd_chunks = [content], bd_end = EOF\<rparr>\<rparr>)) = Inr res"
    and "rs_StatusCode res \<noteq> 101" and "bd_end (rs_Body res) = EOF"
    and "header_Get (rs_Header (strip_response res)) ''Content-Type'' \<noteq> ''text/event-stream''"
  shows "\<exists>rw' st'. webhook_forward we t content r fresh_writer st = Some (Served, rw', st')
    \<and> rw_Status rw' = Some (rs_StatusCode res) \<and> rw_Written rw' = concat (bd_chunks (rs_Body res))
    \<and> ws_sent st' = ws_sent st @ [(t, outgoing_request (wh_splitHostPort we)
        (single_host_director (wh_escapedPath we) u) (r\<lparr>rq_Body := Some \<lparr>bd_chunks = [content], bd_end = EOF\<rparr>\<rparr>))]"
proof -
  let ?q = "outgoing_request (wh_splitHostPort we) (single_host_director (wh_escapedPath we) u)
      (r\<lparr>rq_Body := Some \<lparr>bd_chunks = [content], bd_end = EOF\<rparr>\<rparr>)"
  let ?ph = "webhook_hooks we u t" and ?st = "st\<lparr>ws_sent := ws_sent st @ [(t, ?q)]\<rparr>"
  define rw1 where "rw1 = WriteHeader (rs_StatusCode res)
    (fresh_writer\<lparr>rw_Header := announce_trailers (rs_Trailer (strip_response res))
      (copyHeader (rw_Header fresh_writer) (rs_Header (strip_response res)))\<rparr>)"
  have rw1: "rw_Budget rw1 = None" "rw_Status rw1 = Some (rs_StatusCode res)" "rw_Written rw1 = []"
    by (simp_all add: rw1_def WriteHeader_def fresh_writer_def)
  have strip: "rs_Body (strip_response res) = rs_Body res" "rs_StatusCode (strip_response res) = rs_StatusCode res"
    by (simp_all add: strip_response_def)
  have run: "webhook_forward we t content r fresh_writer st = serve_body ?ph True (strip_response res) rw1 ?st"
    using assms(1-3) by (simp add: webhook_forward_def proxy_ServeHTTP_def webhook_hooks_def rw1_def strip Let_def)
  obtain len bp where get: "pool_Get (ws_pool st) = (len, bp)" by fastforce
  have "\<exists>rw'. serve_body ?ph True (strip_response res) rw1 ?st =
      Some (if bd_end (rs_Body (strip_response res)) = EOF \<or> IsHashChangedError (bd_end (rs_Body (strip_response res)))
            then Served else Aborted, rw', ph_Put ?ph len (?st\<lparr>ws_pool := bp\<rparr>))
    \<and> rw_Status rw' = Some (rs_StatusCode res) \<and> rw_Written rw' = concat (bd_chunks (rs_Body (strip_response res)))"
    by (rule serve_body_delivers [where f = id])
      (use assms(5) rw1 get in \<open>simp_all add: webhook_hooks_def flushInterval_def\<close>)
  then show ?thesis
    by (auto simp: run strip assms(4) webhook_hooks_def)
qed

lemma webhook_ServeHTTP_decoded:
  assumes "rq_Body r = Some b" and "read_all b = Inl content"
    and "header_Get (rq_Header r) ''Content-Type'' = ''application/json''" and "wh_decode we content = Inr (Some req)"
  shows "webhook_ServeHTTP we r rw st = webhook_dispatch we req content r rw st"
  using assms by (simp add: webhook_ServeHTTP_def)

lemma getOneTripper_total:
  assumes "\<And>a. newOk a" and "hosts \<noteq> []"
  shows "\<exists>rt tc'. getOneTripper newOk hosts tc = Some (rt, tc')"
  using assms by (cases hosts) (auto simp: getOneTripper_def split: option.splits)

lemma webhook_reply_fits:
  "\<exists>rw'. webhook_reply we response fresh_writer st = Some (Served, rw', st)
    \<and> rw_Status rw' = Some 200 \<and> rw_Written rw' = wh_encode we response"
  using writeResponse_fits [where w = fresh_writer and enc = "wh_encode we" and response = response]
  by (auto simp: webhook_reply_def fresh_writer_def)

lemma webhook_Route_matched:
  assumes "smg_currentSpec sm = Some sp"
    and "GetMatchedSubsetEndpoint sp (aq_Namespace req) (aq_Resource req) = Some m"
  shows "webhook_Route cd req sm = Some (case m of MatchIgnore \<Rightarrow> WebhookIgnore | MatchSelf \<Rightarrow> WebhookAccept
      | MatchHosts hosts \<Rightarrow> if hosts = [] then WebhookNoEndpoints 404 else WebhookRedirect hosts, sm)"
  using assms by (simp add: webhook_Route_def ReleaseSpec_def requestsStore_add_def split: matched_endpoint.splits)

subsection \<open>Start-up\<close>

lemma ensureCerts_pair:
  assumes "ensureCerts opts st = Inr kc"
  shows "st (wo_CertDir opts) = Exists \<and> st (fst kc) = Exists \<and> st (snd kc) = Exists
    \<and> kc \<in> (\<lambda>(k, c). (path_Join (wo_CertDir opts) k, path_Join (wo_CertDir opts) c)) ` set tlsFileNames"
proof -
  have "find_certs st dir names = Some kc \<Longrightarrow> st (fst kc) = Exists \<and> st (snd kc) = Exists
      \<and> kc \<in> (\<lambda>(k, c). (path_Join dir k, path_Join dir c)) ` set names" for dir names
    by (induction names) (auto simp: Let_def split: if_splits)
  with assms show ?thesis
    by (auto simp: ensureCerts_def split: stat.splits option.splits)
qed


definition certs_seen :: "webhook_options \<Rightarrow> (nat \<Rightarrow> surroundings) \<Rightarrow> nat \<Rightarrow> bool" where
  "certs_seen opts env i \<longleftrightarrow> (\<exists>kc. ensureCerts opts (su_stat (env i)) = Inr kc)"

lemma started_after_checks:
  "(\<forall>kc. wp_phase (webhook_Start newOk opts env n) = WaitPort kc \<longrightarrow> (\<exists>i<n. certs_seen opts env i))
   \<and> (wp_started (webhook_Start newOk opts env n) \<longrightarrow>
       (\<exists>i j. i < j \<and> j < n \<and> certs_seen opts env i \<and> su_portOpened (env j)))"
proof (induction n)
  case 0
  then show ?case by (simp add: NewWebhookProxy_def)
next
  case (Suc n)
  then show ?case
    by (cases "wp_phase (webhook_Start newOk opts env n)")
      (auto simp: start_step_def start_serving_def certs_seen_def less_Suc_eq split: sum.splits option.splits if_splits; blast)+
qed

definition serving_ok :: "webhook_options \<Rightarrow> webhook_proxy \<Rightarrow> bool" where
  "serving_ok opts p \<longleftrightarrow> wp_started p \<and> (\<exists>kc tc. wp_phase p = Serving kc tc
     \<and> map_of (tc_cache tc) ''127.0.0.1'' = Some (''127.0.0.1:'' @ itoa (wo_WebhookPort opts)))"

lemma start_serving_ok:
  assumes "su_watcherOk e" and "su_listenOk e" and "\<And>a. newOk a"
  shows "serving_ok opts (start_serving newOk opts e kc p)"
  using assms
  by (simp add: start_serving_def serving_ok_def getTripper_def getOneTripper_def redirectHost_def)

lemma start_phases:
  fixes opts :: webhook_options
  assumes "\<And>n. \<not> su_done (env n)" and "\<And>n. su_watcherOk (env n)" and "\<And>n. su_listenOk (env n)"
    and "\<And>n. su_serveOk (env n)" and "\<And>a. newOk a"
  defines "p \<equiv> webhook_Start newOk opts env"
  shows "wp_phase (p n) = WaitCerts \<or> (\<exists>kc. wp_phase (p n) = WaitPort kc) \<or> serving_ok opts (p n)"
    and "serving_ok opts (p n) \<Longrightarrow> serving_ok opts (p (Suc n))"
    and "wp_phase (p n) = WaitPort kc \<Longrightarrow> wp_phase (p (Suc n)) = WaitPort kc \<or> serving_ok opts (p (Suc n))"
    and "wp_phase (p n) = WaitPort kc \<Longrightarrow> su_portOpened (env n) \<Longrightarrow> serving_ok opts (p (Suc n))"
    and "wp_phase (p n) = WaitCerts \<Longrightarrow> certs_seen opts env n \<Longrightarrow> \<exists>kc. wp_phase (p (Suc n)) = WaitPort kc"
proof -
  have step: "p (Suc m) = start_step newOk opts (env m) (p m)" for m by (simp add: p_def)
  have keep: "serving_ok opts (p (Suc m))" if "serving_ok opts (p m)" for m
    using that assms(1,4) by (auto simp: step start_step_def serving_ok_def)
  have port: "wp_phase (p (Suc m)) = WaitPort kc \<or> serving_ok opts (p (Suc m))" if "wp_phase (p m) = WaitPort kc" for m kc
    using that assms(1-3,5) by (simp add: step start_step_def start_serving_ok)
  show "serving_ok opts (p n) \<Longrightarrow> serving_ok opts (p (Suc n))" by (rule keep)
  show "wp_phase (p n) = WaitPort kc \<Longrightarrow> wp_phase (p (Suc n)) = WaitPort kc \<or> serving_ok opts (p (Suc n))"
    by (rule port)
  show "wp_phase (p n) = WaitPort kc \<Longrightarrow> su_portOpened (env n) \<Longrightarrow> serving_ok opts (p (Suc n))"
    using assms(1-3,5) by (simp add: step start_step_def start_serving_ok)
  show "wp_phase (p n) = WaitCerts \<Longrightarrow> certs_seen opts env n \<Longrightarrow> \<exists>kc. wp_phase (p (Suc n)) = WaitPort kc"
    using assms(1) by (auto simp: step start_step_def certs_seen_def)
  show "wp_phase (p n) = WaitCerts \<or> (\<exists>kc. wp_phase (p n) = WaitPort kc) \<or> serving_ok opts (p n)"
  proof (induction n)
    case 0
    then show ?case by (simp add: p_def NewWebhookProxy_def)
  next
    case (Suc n)
    have "wp_phase (p (Suc n)) = WaitCerts \<or> (\<exists>kc. wp_phase (p (Suc n)) = WaitPort kc)" if "wp_phase (p n) = WaitCerts"
      using that assms(1) by (auto simp: step start_step_def split: sum.splits)
    with Suc port keep show ?case by blast
  qed
qed

subsection \<open>Properties\<close>

text \<open>
  C34. An answer that the webhook proxy writes itself. The call returns exactly if the
  connection takes the whole encoded answer, and then that answer is what was written. If
  the connection fails in the middle of it, the error answer fails in turn, and the
  recursion never returns.
\<close>

theorem writeResponse_returns_iff:
  assumes "enc (ReviewErrored 500 WriteError) \<noteq> []"
  shows "if (case rw_Budget w of None \<Rightarrow> True | Some k \<Rightarrow> length (enc response) \<le> k)
    then \<exists>w'. writeResponse enc w response = Some w' \<and> rw_Written w' = rw_Written w @ enc response
    else writeResponse enc w response = None"
proof -
  have stuck: "writeResponse enc w response = None" if "rw_Budget w = Some k" "\<not> length (enc response) \<le> k" for k
  proof (rule ccontr)
    define w1 where "w1 = snd (rw_Write (enc response) w)"
    have "writeResponse enc w response = writeResponse enc w1 (ReviewErrored 500 WriteError)"
      using that by (subst writeResponse.simps) (auto simp: w1_def rw_Write_def WriteHeader_def Let_def split: option.splits)
    moreover assume "writeResponse enc w response \<noteq> None"
    moreover have "rw_Budget w1 = Some 0"
      using that by (auto simp: w1_def rw_Write_def WriteHeader_def Let_def split: option.splits)
    ultimately show False
      using writeResponse_stuck [where enc = enc and w = w1 and response = "ReviewErrored 500 WriteError"] assms by auto
  qed
  then show ?thesis
    using writeResponse_fits [where w = w and enc = enc and response = response] by (auto split: option.splits)
qed

definition example_encode :: "review_response \<Rightarrow> bytes" where
  "example_encode r = (case r of ReviewAllowed \<Rightarrow> ''allowed'' | ReviewErrored code _ \<Rightarrow> itoa (int code))"

theorem writeResponse_returns_iff_witness:
  "writeResponse example_encode (fresh_writer\<lparr>rw_Budget := Some 5\<rparr>) ReviewAllowed = None
   \<and> (\<exists>w'. writeResponse example_encode fresh_writer ReviewAllowed = Some w' \<and> rw_Written w' = ''allowed'')"
proof -
  have "example_encode (ReviewErrored 500 WriteError) \<noteq> []" by code_simp
  from writeResponse_returns_iff [where enc = example_encode and w = "fresh_writer\<lparr>rw_Budget := Some 5\<rparr>" and response = ReviewAllowed, OF this]
    writeResponse_returns_iff [where enc = example_encode and w = fresh_writer and response = ReviewAllowed, OF this]
  show ?thesis by (simp add: fresh_writer_def example_encode_def)
qed

text \<open>
  C12. Where a webhook request goes. A well-formed review that reaches the proxy is answered
  with the backend's answer after being sent, body included, to the local webhook server if
  the namespace belongs to the proxy's subset, and to the webhook port of an endpoint of the
  owning subset otherwise. If no subset owns the namespace it is allowed, and if the owner
  has no endpoint it is answered with an error, without any request being sent.
\<close>

theorem webhook_request_dispatched:
  assumes "rq_Body r = Some b" and "read_all b = Inl content"
    and "header_Get (rq_Header r) ''Content-Type'' = ''application/json''" and "wh_decode we content = Inr (Some req)"
    and "webhook_ok st" and "smg_currentSpec (ws_manager st) = Some sp"
    and "GetMatchedSubsetEndpoint sp (aq_Namespace req) (aq_Resource req) = Some m"
    and "wh_parseURL we (''https://'' @ rq_Host r) = Some u" and "\<And>a. wh_newTransport we a"
    and "q = outgoing_request (wh_splitHostPort we) (single_host_director (wh_escapedPath we) u)
        (r\<lparr>rq_Body := Some \<lparr>bd_chunks = [content], bd_end = EOF\<rparr>\<rparr>)"
    and "\<And>a. wh_send we a q = Inr (res a) \<and> rs_StatusCode (res a) \<noteq> 101 \<and> bd_end (rs_Body (res a)) = EOF
        \<and> header_Get (rs_Header (strip_response (res a))) ''Content-Type'' \<noteq> ''text/event-stream''"
  defines "sent host rw' st' \<equiv> ws_sent st' = ws_sent st @ [(host @ '':'' @ itoa (tc_webhookPort (ws_cache st)), q)]
      \<and> rw_Written rw' = concat (bd_chunks (rs_Body (res (host @ '':'' @ itoa (tc_webhookPort (ws_cache st))))))"
  shows "\<exists>rw' st'. webhook_ServeHTTP we r fresh_writer st = Some (Served, rw', st') \<and>
    (case m of
       MatchIgnore \<Rightarrow> ws_sent st' = ws_sent st \<and> rw_Written rw' = wh_encode we ReviewAllowed
     | MatchSelf \<Rightarrow> sent ''127.0.0.1'' rw' st'
     | MatchHosts [] \<Rightarrow> ws_sent st' = ws_sent st \<and> rw_Written rw' = wh_encode we (ReviewErrored 404 (NoEndpoints req))
     | MatchHosts hosts \<Rightarrow> \<exists>host\<in>set hosts. sent host rw' st')"
proof -
  let ?st = "st\<lparr>ws_manager := ws_manager st\<rparr>"
  note run = webhook_ServeHTTP_decoded [OF assms(1-4)] webhook_dispatch_def webhook_Route_matched [OF assms(6,7)]
  have fwd: "\<exists>host\<in>set hosts. \<exists>t tc rw' st'. getOneTripper (wh_newTransport we) hosts (ws_cache st) = Some (t, tc)
      \<and> webhook_forward we t content r fresh_writer (st\<lparr>ws_cache := tc\<rparr>) = Some (Served, rw', st') \<and> sent host rw' st'"
    if ne: "hosts \<noteq> []" for hosts
  proof -
    obtain t tc where g: "getOneTripper (wh_newTransport we) hosts (ws_cache st) = Some (t, tc)"
      using getOneTripper_total [where newOk = "wh_newTransport we", OF assms(9) ne] by blast
    have "cache_ok (ws_cache st)" using assms(5) by (simp add: webhook_ok_def)
    from getOneTripper_ok(4) [OF g this] obtain host where h: "host \<in> set hosts" "t = redirectHost (ws_cache st) host" by blast
    have send: "wh_send we t (outgoing_request (wh_splitHostPort we) (single_host_director (wh_escapedPath we) u)
        (r\<lparr>rq_Body := Some \<lparr>bd_chunks = [content], bd_end = EOF\<rparr>\<rparr>)) = Inr (res t)"
      using assms(11) [of t] by (simp add: assms(10))
    obtain rw' st' where "webhook_forward we t content r fresh_writer (st\<lparr>ws_cache := tc\<rparr>) = Some (Served, rw', st')"
      "rw_Written rw' = concat (bd_chunks (rs_Body (res t)))" "ws_sent st' = ws_sent st @ [(t, q)]"
      using webhook_forward_delivers [OF assms(8) send, where st = "st\<lparr>ws_cache := tc\<rparr>"] assms(11) [of t]
      by (auto simp: assms(10))
    with g h show ?thesis by (auto simp: sent_def redirectHost_def)
  qed
  show ?thesis
  proof (cases m)
    case MatchIgnore
    then show ?thesis using webhook_reply_fits [of we ReviewAllowed st] by (auto simp: run)
  next
    case MatchSelf
    then show ?thesis using fwd [of "[''127.0.0.1'']"] by (auto simp: run getTripper_def)
  next
    case (MatchHosts hosts)
    then show ?thesis
      using fwd [of hosts] webhook_reply_fits [of we "ReviewErrored 404 (NoEndpoints req)" st]
      by (cases hosts) (fastforce simp: run)+
  qed
qed

definition example_answer :: http_response where
  "example_answer =
     \<lparr>rs_StatusCode = 200, rs_Header = [(''Content-Type'', [''application/json''])],
      rs_Body = \<lparr>bd_chunks = [''{}''], bd_end = EOF\<rparr>, rs_ContentLength = 2, rs_Trailer = []\<rparr>"

definition example_webhook_env :: webhook_env where
  "example_webhook_env =
     \<lparr>wh_codec = example_codec, wh_encode = example_encode,
      wh_decode = \<lambda>_. Inr (Some \<lparr>aq_Namespace = ''canary'', aq_Resource = example_gr\<rparr>),
      wh_parseURL = \<lambda>_. Some \<lparr>u_Scheme = ''https'', u_Host = ''w'', u_Path = '''', u_RawPath = '''', u_RawQuery = ''''\<rparr>,
      wh_escapedPath = u_Path, wh_splitHostPort = \<lambda>_. None, wh_newTransport = \<lambda>_. True,
      wh_send = \<lambda>a _. Inr example_answer, wh_trailer = \<lambda>_. [],
      wh_upgrade = \<lparr>ue_hijacker = False, ue_writableBody = False, ue_hijackFails = False, ue_writeFails = False,
                    ue_flushFails = False\<rparr>\<rparr>"

definition example_webhook_state :: webhook_state where
  "example_webhook_state =
     \<lparr>ws_manager = example_start\<lparr>smg_currentSpec := Some example_internal\<rparr>,
      ws_cache = \<lparr>tc_cache = [], tc_webhookPort = 443\<rparr>, ws_pool = BytesPool, ws_sent = []\<rparr>"

definition example_review :: http_request where
  "example_review =
     \<lparr>rq_Method = ''POST'',
      rq_URL = \<lparr>u_Scheme = ''https'', u_Host = ''w'', u_Path = ''/validate'', u_RawPath = '''', u_RawQuery = ''''\<rparr>,
      rq_Header = [(''Content-Type'', [''application/json''])], rq_Host = ''w'', rq_RemoteAddr = '''', rq_Close = False,
      rq_ContentLength = 6, rq_Body = Some \<lparr>bd_chunks = [''rev'', ''iew''], bd_end = EOF\<rparr>\<rparr>"

lemma example_webhook_ok: "webhook_ok example_webhook_state"
  by (simp add: webhook_ok_def example_webhook_state_def cache_ok_def pool_ok_def BytesPool_def gomap_ok_def)

lemma example_webhook_matched:
  "GetMatchedSubsetEndpoint example_internal ''canary'' example_gr = Some (MatchHosts [''10.0.0.1''])"
  by (simp_all add: GetMatchedSubsetEndpoint_def example_internal_def example_limits_def
      determineNamespaceSubset_def scanLimits_step limit_active_def AllSubsetPublic_def)

theorem webhook_request_dispatched_witness:
  "\<exists>rw' st' q. webhook_ServeHTTP example_webhook_env example_review fresh_writer example_webhook_state = Some (Served, rw', st')
     \<and> ws_sent st' = [(''10.0.0.1:443'', q)] \<and> rq_Body q = Some \<lparr>bd_chunks = [''review''], bd_end = EOF\<rparr>
     \<and> rw_Written rw' = ''{}''"
proof -
  let ?u = "\<lparr>u_Scheme = ''https'', u_Host = ''w'', u_Path = '''', u_RawPath = '''', u_RawQuery = ''''\<rparr>"
  have r: "rq_Body example_review = Some \<lparr>bd_chunks = [''rev'', ''iew''], bd_end = EOF\<rparr>"
    "read_all \<lparr>bd_chunks = [''rev'', ''iew''], bd_end = EOF\<rparr> = Inl ''review''"
    by (simp_all add: example_review_def read_all_def)
  have ct: "header_Get (rq_Header example_review) ''Content-Type'' = ''application/json''" by code_simp
  have ans: "header_Get (rs_Header (strip_response example_answer)) ''Content-Type'' \<noteq> ''text/event-stream''" by code_simp
  have sent: "rq_Body (outgoing_request (\<lambda>_. None) (single_host_director u_Path ?u)
      (example_review\<lparr>rq_Body := Some \<lparr>bd_chunks = [''review''], bd_end = EOF\<rparr>\<rparr>))
    = Some \<lparr>bd_chunks = [''review''], bd_end = EOF\<rparr>"
    by (simp add: outgoing_request_def single_host_director_def example_review_def Let_def split: prod.splits)
  have port: "itoa 443 = ''443''" by code_simp
  show ?thesis
    using webhook_request_dispatched [where we = example_webhook_env and st = example_webhook_state and u = ?u
        and sp = example_internal and req = "\<lparr>aq_Namespace = ''canary'', aq_Resource = example_gr\<rparr>"
        and m = "MatchHosts [''10.0.0.1'']" and res = "\<lambda>_. example_answer", OF r ct _ example_webhook_ok _ _ _ _ refl]
      ans sent port example_webhook_matched
    by (simp add: example_webhook_env_def example_webhook_state_def example_answer_def) blast
qed

text \<open>
  C33. The state of the webhook proxy stays well-formed under every request, however the
  request ends: the transport cached for a host dials that host on the webhook port, cached
  transports are never replaced, every request was sent through a cached transport, and the
  buffers of the pool have at least the base width.
\<close>

theorem webhook_state_wellformed:
  assumes "webhook_ok st" and "webhook_ServeHTTP we r rw st = Some (oc, rw', st')"
  shows "webhook_ok st' \<and> tc_webhookPort (ws_cache st') = tc_webhookPort (ws_cache st)
    \<and> map_of (tc_cache (ws_cache st)) \<subseteq>\<^sub>m map_of (tc_cache (ws_cache st'))"
proof -
  have reply: ?thesis if "webhook_reply we response rw st = Some (oc, rw', st')" for response
    using webhook_reply_state [OF that] assms(1) by simp
  show ?thesis
    using assms(2) webhook_dispatch_ok [OF _ assms(1)]
    by (auto simp: webhook_ServeHTTP_def Let_def dest: reply split: option.splits sum.splits if_splits)
qed

theorem webhook_state_wellformed_witness:
  "\<exists>rw' st'. webhook_ServeHTTP example_webhook_env (example_review\<lparr>rq_Body := None\<rparr>) fresh_writer example_webhook_state
     = Some (Served, rw', st') \<and> webhook_ok st'"
proof -
  obtain rw' where "webhook_ServeHTTP example_webhook_env (example_review\<lparr>rq_Body := None\<rparr>) fresh_writer example_webhook_state
      = Some (Served, rw', example_webhook_state)"
    using webhook_reply_fits [of example_webhook_env "ReviewErrored 400 BodyEmpty" example_webhook_state]
    by (auto simp: webhook_ServeHTTP_def)
  with webhook_state_wellformed [OF example_webhook_ok this] show ?thesis by blast
qed

text \<open>
  C35. Start-up. If the process is not asked to stop, the certificates and the local webhook
  port are there from turn \<open>t\<close> on, and watcher, listener and server do not fail, then from
  turn \<open>t + 2\<close> on the proxy serves and its health check passes. Conversely the health check
  passes only after certificates were found and, in a later turn, the port was open.
\<close>

theorem webhook_becomes_healthy:
  assumes "\<And>n. \<not> su_done (env n)" and "\<And>n. t \<le> n \<Longrightarrow> certs_seen opts env n"
    and "\<And>n. t \<le> n \<Longrightarrow> su_portOpened (env n)" and "\<And>n. su_watcherOk (env n)" and "\<And>n. su_listenOk (env n)"
    and "\<And>n. su_serveOk (env n)" and "\<And>a. newOk a"
  shows "(\<forall>n\<ge>t + 2. HealthFunc (webhook_Start newOk opts env n) = None \<and> serving_ok opts (webhook_Start newOk opts env n))
    \<and> (\<forall>newOk opts env n. HealthFunc (webhook_Start newOk opts env n) = None \<longrightarrow>
        (\<exists>i j. i < j \<and> j < n \<and> certs_seen opts env i \<and> su_portOpened (env j)))"
proof -
  note ph = start_phases [where newOk = newOk and env = env and opts = opts, OF assms(1,4-7)]
  let ?p = "webhook_Start newOk opts env"
  have one: "(\<exists>kc. wp_phase (?p (Suc t)) = WaitPort kc) \<or> serving_ok opts (?p (Suc t))"
    using ph(1) [of t] ph(2) [of t] ph(3) [of t] ph(5) [of t] assms(2) [of t] by blast
  then have two: "serving_ok opts (?p (t + 2))"
    using ph(2) [of "Suc t"] ph(4) [of "Suc t"] assms(3) [of "Suc t"] by auto
  have "serving_ok opts (?p n)" if "t + 2 \<le> n" for n
    using that by (induction n rule: dec_induct) (use two ph(2) in \<open>auto\<close>)
  then show ?thesis
    using started_after_checks by (auto simp: HealthFunc_def serving_ok_def split: if_splits)
qed

definition example_options :: webhook_options where
  "example_options = \<lparr>wo_CertDir = ''/certs'', wo_BindPort = 9443, wo_WebhookPort = 443\<rparr>"

definition example_surroundings :: "nat \<Rightarrow> surroundings" where
  "example_surroundings n =
     \<lparr>su_done = False,
      su_stat = (\<lambda>f. if n < 3 then NotExist else if f \<in> {''/certs'', ''/certs/key.pem'', ''/certs/cert.pem''} then Exists else NotExist),
      su_portOpened = 2 \<le> n, su_watcherOk = True, su_listenOk = True, su_serveOk = True\<rparr>"

theorem webhook_becomes_healthy_witness:
  "HealthFunc (webhook_Start (\<lambda>_. True) example_options example_surroundings 5) = None
   \<and> HealthFunc (webhook_Start (\<lambda>_. True) example_options example_surroundings 4) = Some ''not started''"
proof -
  have paths: "path_Join ''/certs'' ''tls.key'' = ''/certs/tls.key''" "path_Join ''/certs'' ''key.pem'' = ''/certs/key.pem''"
    "path_Join ''/certs'' ''cert.pem'' = ''/certs/cert.pem''" by code_simp+
  have certs: "certs_seen example_options example_surroundings n \<longleftrightarrow> 3 \<le> n" for n
    by (simp add: certs_seen_def ensureCerts_def example_options_def example_surroundings_def tlsFileNames_def paths)
  let ?p = "webhook_Start (\<lambda>_. True) example_options example_surroundings"
  note live = webhook_becomes_healthy [where t = 3 and opts = example_options and env = example_surroundings and newOk = "\<lambda>_. True"]
  have "HealthFunc (?p 5) = None" using live by (simp add: certs example_surroundings_def)
  moreover have "HealthFunc (?p 4) \<noteq> None"
  proof
    assume "HealthFunc (?p 4) = None"
    moreover have "\<forall>newOk opts env n. HealthFunc (webhook_Start newOk opts env n) = None \<longrightarrow>
        (\<exists>i j. i < j \<and> j < n \<and> certs_seen opts env i \<and> su_portOpened (env j))"
      using live by (simp add: certs example_surroundings_def)
    ultimately have "\<exists>i j. i < j \<and> j < 4 \<and> certs_seen example_options example_surroundings i
        \<and> su_portOpened (example_surroundings j)" by (elim allE impE)
    then show False by (auto simp: certs)
  qed
  ultimately show ?thesis by (simp add: HealthFunc_def split: if_splits)
qed

end
