(* ===== verification/Manager_State.thy ===== *)
theory Manager_State
  imports VApp_Validation Webhook_Util
begin

section \<open>The published state of the manager (\<^verbatim>\<open>controllers/managerstate\<close>, \<^verbatim>\<open>grpcregistry\<close>)\<close>

text \<open>
  The leading manager publishes where it listens: the \<^verbatim>\<open>ManagerState\<close> object lists the
  active manager pods, marks the leader and names the gRPC ports. The proxies read it to
  find the manager. The cluster is a list of pods and the stored object; an API call can
  fail with the error given by \<open>faults\<close>. The object has a status subresource, so the
  API server ignores the status of a created object.
\<close>

subsection \<open>The object (\<^verbatim>\<open>managerstate_types.go\<close>)\<close>

definition NameOfManager :: string where
  "NameOfManager = ''ctrlmesh-manager''"

record ManagerStateEndpoint =
  mse_Name :: string
  mse_PodIP :: string
  mse_Leader :: bool

record ManagerStatePorts =
  msp_GrpcLeaderElectionPort :: int
  msp_GrpcNonLeaderElectionPort :: int

record ManagerStateStatus =
  mss_Namespace :: string
  mss_Endpoints :: "ManagerStateEndpoint list"
  mss_Ports :: "ManagerStatePorts option"

record ManagerState =
  mst_Name :: string
  mst_Status :: ManagerStateStatus

definition sort_endpoints :: "ManagerStateEndpoint list \<Rightarrow> ManagerStateEndpoint list" where
  \<comment> \<open>\<^verbatim>\<open>sort.Sort\<close> by name; names of pods of a namespace are distinct, so stability does not matter\<close>
  "sort_endpoints es = sort_key mse_Name es"

definition empty_status :: ManagerStateStatus where
  "empty_status = \<lparr>mss_Namespace = '''', mss_Endpoints = [], mss_Ports = None\<rparr>"

subsection \<open>The registry of gRPC servers (\<^verbatim>\<open>grpc_registry.go\<close>)\<close>

record 'f grpc_registry =
  gr_needLeaderElection :: bool
  gr_registry :: "(string, 'f) gomap"
  gr_port :: "int option"
  gr_started :: bool

datatype 'f registry_outcome =
    SkippedNoPort
  | SkippedEmpty
  | ListenFailed string
  | Listening string "'f list"

definition registry_Start :: "(string \<Rightarrow> bool) \<Rightarrow> 'f grpc_registry \<Rightarrow> 'f registry_outcome \<times> 'f grpc_registry" where
  \<comment> \<open>\<open>listenOk\<close> is the result of \<^verbatim>\<open>net.Listen\<close>; after the outcome the call waits for the end of the context\<close>
  "registry_Start listenOk r =
     (case gr_port r of
        None \<Rightarrow> (SkippedNoPort, r)
      | Some port \<Rightarrow>
          if port = 0 then (SkippedNoPort, r)
          else (let r = r\<lparr>gr_started := True\<rparr> in
                if length (gr_registry r) = 0 then (SkippedEmpty, r)
                else (let addr = '':'' @ itoa port in
                      if listenOk addr then (Listening addr (map snd (gr_registry r)), r)
                      else (ListenFailed addr, r))))"

definition registry_register :: "string \<Rightarrow> 'f \<Rightarrow> 'f grpc_registry \<Rightarrow> bool \<times> 'f grpc_registry" where
  \<comment> \<open>\<^const>\<open>False\<close> is the error of a started registry\<close>
  "registry_register name rf r =
     (if gr_started r then (False, r) else (True, r\<lparr>gr_registry := AList.update name rf (gr_registry r)\<rparr>))"

definition registry_Register ::
    "string \<Rightarrow> bool \<Rightarrow> 'f \<Rightarrow> 'f grpc_registry \<times> 'f grpc_registry \<Rightarrow> bool \<times> 'f grpc_registry \<times> 'f grpc_registry" where
  \<comment> \<open>the registries are the one with leader election and the one without\<close>
  "registry_Register name needLeaderElection rf rs =
     (if needLeaderElection then (case registry_register name rf (fst rs) of (ok, r) \<Rightarrow> (ok, r, snd rs))
      else (case registry_register name rf (snd rs) of (ok, r) \<Rightarrow> (ok, fst rs, r)))"

definition GetGrpcPorts :: "'f grpc_registry \<times> 'f grpc_registry \<Rightarrow> int \<times> int" where
  "GetGrpcPorts rs =
     ((case gr_port (fst rs) of None \<Rightarrow> 0 | Some p \<Rightarrow> p), (case gr_port (snd rs) of None \<Rightarrow> 0 | Some p \<Rightarrow> p))"

subsection \<open>Setting up\<close>

fun set_requirements ::
    "(string \<Rightarrow> bool) \<Rightarrow> (string \<Rightarrow> bool) \<Rightarrow> labels \<Rightarrow> requirement_error + requirement list" where
  "set_requirements vk vv [] = Inr []"
| "set_requirements vk vv ((k, v) # kvs) =
     (case NewRequirement vk vv k SelEquals [v] of
        Inl e \<Rightarrow> Inl e
      | Inr r \<Rightarrow> (case set_requirements vk vv kvs of Inl e \<Rightarrow> Inl e | Inr rs \<Rightarrow> Inr (r # rs)))"

definition ValidatedSelectorFromSet ::
    "(string \<Rightarrow> bool) \<Rightarrow> (string \<Rightarrow> bool) \<Rightarrow> labels \<Rightarrow> requirement_error + selector" where
  "ValidatedSelectorFromSet vk vv ls =
     (case set_requirements vk vv ls of Inl e \<Rightarrow> Inl e | Inr rs \<Rightarrow> Inr (Selector (sort_key req_key rs)))"

record manager_config =
  \<comment> \<open>the package variables\<close>
  mc_podSelector :: selector
  mc_namespace :: string
  mc_localName :: string

datatype setup_error = NoPodName | GetServiceFailed api_error | BadServiceSelector requirement_error

definition manager_Setup ::
    "(string \<Rightarrow> bool) \<Rightarrow> (string \<Rightarrow> bool) \<Rightarrow> environ \<Rightarrow> (namespaced_name \<Rightarrow> api_error + labels) \<Rightarrow> setup_error + manager_config" where
  \<comment> \<open>\<open>getService\<close> reads the selector of a service\<close>
  "manager_Setup vk vv env getService =
     (let ns = GetNamespace env; localName = env ''POD_NAME'' in
      if length localName = 0 then Inl NoPodName
      else (case getService (ns, GetServiceName env) of
              Inl e \<Rightarrow> Inl (GetServiceFailed e)
            | Inr sel \<Rightarrow>
                (case ValidatedSelectorFromSet vk vv sel of
                   Inl e \<Rightarrow> Inl (BadServiceSelector e)
                 | Inr s \<Rightarrow> Inr \<lparr>mc_podSelector = s, mc_namespace = ns, mc_localName = localName\<rparr>)))"

definition pod_event_requests :: "manager_config \<Rightarrow> pod \<Rightarrow> string list" where
  \<comment> \<open>the predicates and the handler of pod events, the same for all kinds of event\<close>
  "pod_event_requests mc p = (if selector_matches (mc_podSelector mc) (pod_Labels p) then [NameOfManager] else [])"

subsection \<open>Reconciling\<close>

record manager_cluster =
  cl_pods :: "pod list"
  cl_state :: "ManagerState option"

record api_faults =
  fa_list :: "api_error option"
  fa_get :: "api_error option"
  fa_create :: "api_error option"
  fa_update :: "api_error option"

datatype manager_error =
    ListPodsFailed api_error
  | NoLeader string
  | GetStateFailed api_error
  | CreateStateFailed api_error
  | StateAlreadyExists
  | UpdateStateFailed api_error

definition list_manager_pods :: "manager_config \<Rightarrow> manager_cluster \<Rightarrow> pod list" where
  "list_manager_pods mc cl =
     filter (\<lambda>p. pod_Namespace p = mc_namespace mc \<and> selector_matches (mc_podSelector mc) (pod_Labels p)) (cl_pods cl)"

fun manager_endpoints :: "string \<Rightarrow> pod list \<Rightarrow> bool \<times> ManagerStateEndpoint list" where
  \<comment> \<open>whether the leader is among them, and the endpoints\<close>
  "manager_endpoints localName [] = (False, [])"
| "manager_endpoints localName (p # ps) =
     (case manager_endpoints localName ps of (hasLeader, es) \<Rightarrow>
        if \<not> IsPodActive p then (hasLeader, es)
        else (pod_Name p = localName \<or> hasLeader,
              \<lparr>mse_Name = pod_Name p, mse_PodIP = pod_PodIP p, mse_Leader = (pod_Name p = localName)\<rparr> # es))"

definition newStatus :: "manager_config \<Rightarrow> int \<times> int \<Rightarrow> ManagerStateEndpoint list \<Rightarrow> ManagerStateStatus" where
  "newStatus mc ports es =
     \<lparr>mss_Namespace = mc_namespace mc, mss_Endpoints = es,
      mss_Ports = Some \<lparr>msp_GrpcLeaderElectionPort = fst ports, msp_GrpcNonLeaderElectionPort = snd ports\<rparr>\<rparr>"

definition store_state ::
    "api_faults \<Rightarrow> ManagerStateStatus \<Rightarrow> manager_cluster \<Rightarrow> manager_error option \<times> manager_cluster" where
  \<comment> \<open>from \<^verbatim>\<open>r.Get\<close> on; the bare return after \<^verbatim>\<open>Create\<close> returns the error \<^verbatim>\<open>AlreadyExists\<close>\<close>
  "store_state fa status cl =
     (case (case fa_get fa of Some e \<Rightarrow> Inl e | None \<Rightarrow> (case cl_state cl of None \<Rightarrow> Inl NotFound | Some s \<Rightarrow> Inr s)) of
        Inl NotFound \<Rightarrow>
          (case (case fa_create fa of Some e \<Rightarrow> Some e | None \<Rightarrow> if cl_state cl \<noteq> None then Some AlreadyExists else None) of
             None \<Rightarrow> (None, cl\<lparr>cl_state := Some \<lparr>mst_Name = NameOfManager, mst_Status = empty_status\<rparr>\<rparr>)
           | Some AlreadyExists \<Rightarrow> (Some StateAlreadyExists, cl)
           | Some e \<Rightarrow> (Some (CreateStateFailed e), cl))
      | Inl e \<Rightarrow> (Some (GetStateFailed e), cl)
      | Inr s \<Rightarrow>
          if mst_Status s = status then (None, cl)
          else (case fa_update fa of
                  Some e \<Rightarrow> (Some (UpdateStateFailed e), cl)
                | None \<Rightarrow> (None, cl\<lparr>cl_state := Some (s\<lparr>mst_Status := status\<rparr>)\<rparr>)))"

definition manager_Reconcile ::
    "manager_config \<Rightarrow> int \<times> int \<Rightarrow> api_faults \<Rightarrow> string \<Rightarrow> manager_cluster \<Rightarrow> manager_error option \<times> manager_cluster" where
  "manager_Reconcile mc ports fa name cl =
     (if name \<noteq> NameOfManager then (None, cl)
      else (case fa_list fa of
              Some e \<Rightarrow> (Some (ListPodsFailed e), cl)
            | None \<Rightarrow>
                (case manager_endpoints (mc_localName mc) (list_manager_pods mc cl) of (hasLeader, es) \<Rightarrow>
                   if \<not> hasLeader then (Some (NoLeader (mc_localName mc)), cl)
                   else store_state fa (newStatus mc ports (sort_endpoints es)) cl)))"

subsection \<open>What is published\<close>

definition no_faults :: api_faults where
  "no_faults = \<lparr>fa_list = None, fa_get = None, fa_create = None, fa_update = None\<rparr>"

definition active_manager_pods :: "manager_config \<Rightarrow> manager_cluster \<Rightarrow> pod list" where
  "active_manager_pods mc cl = filter IsPodActive (list_manager_pods mc cl)"

definition endpoint_of :: "string \<Rightarrow> pod \<Rightarrow> ManagerStateEndpoint" where
  "endpoint_of localName p =
     \<lparr>mse_Name = pod_Name p, mse_PodIP = pod_PodIP p, mse_Leader = (pod_Name p = localName)\<rparr>"

lemma manager_endpoints_eq:
  "manager_endpoints l ps =
     (l \<in> pod_Name ` set (filter IsPodActive ps), map (endpoint_of l) (filter IsPodActive ps))"
  by (induction ps) (auto simp: endpoint_of_def)

definition published_status :: "manager_config \<Rightarrow> int \<times> int \<Rightarrow> manager_cluster \<Rightarrow> ManagerStateStatus" where
  "published_status mc ports cl =
     newStatus mc ports (sort_endpoints (map (endpoint_of (mc_localName mc)) (active_manager_pods mc cl)))"

lemma manager_Reconcile_eq:
  "manager_Reconcile mc ports fa NameOfManager cl =
     (case fa_list fa of
        Some e \<Rightarrow> (Some (ListPodsFailed e), cl)
      | None \<Rightarrow>
          if mc_localName mc \<in> pod_Name ` set (active_manager_pods mc cl) then store_state fa (published_status mc ports cl) cl
          else (Some (NoLeader (mc_localName mc)), cl))"
  by (simp add: manager_Reconcile_def manager_endpoints_eq published_status_def active_manager_pods_def
      split: option.splits)

lemma store_state_pods: "cl_pods (snd (store_state fa status cl)) = cl_pods cl"
  by (auto simp: store_state_def split: option.splits sum.splits api_error.splits)

lemma pods_determine:
  assumes "cl_pods cl' = cl_pods cl"
  shows "active_manager_pods mc cl' = active_manager_pods mc cl"
    and "published_status mc ports cl' = published_status mc ports cl"
  using assms by (simp_all add: active_manager_pods_def list_manager_pods_def published_status_def)

lemma store_state_twice:
  "store_state no_faults status (snd (store_state no_faults status cl)) =
     (None, cl\<lparr>cl_state := Some \<lparr>mst_Name = (case cl_state cl of None \<Rightarrow> NameOfManager | Some s \<Rightarrow> mst_Name s),
                               mst_Status = status\<rparr>\<rparr>)"
  by (cases cl; cases "cl_state cl") (auto simp: store_state_def no_faults_def)

lemma one_leader:
  assumes "distinct (map pod_Name ps)" and "p \<in> set ps"
  shows "filter mse_Leader (sort_endpoints (map (endpoint_of (pod_Name p)) ps)) = [endpoint_of (pod_Name p) p]"
proof -
  have "filter (\<lambda>q. pod_Name q = pod_Name p) ps = [p]"
    using assms by (induction ps) (auto simp: filter_empty_conv image_iff)
  then show ?thesis
    by (simp add: sort_endpoints_def filter_sort filter_map o_def endpoint_of_def)
qed

lemma managerstate_converges:
  assumes "p \<in> set (active_manager_pods mc cl)" and "pod_Name p = mc_localName mc"
    and "distinct (map pod_Name (active_manager_pods mc cl))"
    and "run = (\<lambda>cl. snd (manager_Reconcile mc ports no_faults NameOfManager cl))"
  shows "manager_Reconcile mc ports no_faults NameOfManager (run (run cl)) = (None, run (run cl))
    \<and> (\<exists>s. cl_state (run (run cl)) = Some s \<and> mst_Status s = published_status mc ports cl)
    \<and> filter mse_Leader (mss_Endpoints (published_status mc ports cl)) = [endpoint_of (mc_localName mc) p]
    \<and> set (map mse_Name (mss_Endpoints (published_status mc ports cl))) = pod_Name ` set (active_manager_pods mc cl)"
proof -
  have leader: "mc_localName mc \<in> pod_Name ` set (active_manager_pods mc cl)"
    using assms(1,2) by force
  have run: "run c = snd (store_state no_faults (published_status mc ports cl) c)" if "cl_pods c = cl_pods cl" for c
    using leader by (simp add: assms(4) manager_Reconcile_eq pods_determine [OF that] no_faults_def)
  have pods: "cl_pods (run cl) = cl_pods cl" "cl_pods (run (run cl)) = cl_pods cl"
    by (simp_all add: run store_state_pods)
  let ?s = "\<lparr>mst_Name = (case cl_state cl of None \<Rightarrow> NameOfManager | Some s \<Rightarrow> mst_Name s),
      mst_Status = published_status mc ports cl\<rparr>"
  have two: "run (run cl) = cl\<lparr>cl_state := Some ?s\<rparr>"
    by (simp add: run store_state_pods store_state_twice)
  have "manager_Reconcile mc ports no_faults NameOfManager (run (run cl)) = (None, run (run cl))"
    unfolding manager_Reconcile_eq pods_determine [OF pods(2)]
    using leader by (simp add: two store_state_def no_faults_def)
  moreover have "filter mse_Leader (mss_Endpoints (published_status mc ports cl)) = [endpoint_of (mc_localName mc) p]"
    using one_leader [OF assms(3,1)] by (simp add: published_status_def newStatus_def assms(2))
  moreover have "set (map mse_Name (mss_Endpoints (published_status mc ports cl))) = pod_Name ` set (active_manager_pods mc cl)"
    by (auto simp: published_status_def newStatus_def sort_endpoints_def endpoint_of_def image_image)
  ultimately show ?thesis by (simp add: two)
qed

subsection \<open>Registering servers\<close>

lemma registered_before_start_is_served:
  assumes "\<not> gr_started r" and "gr_port r = Some port" and "port \<noteq> 0" and "listenOk ('':'' @ itoa port)"
  shows "\<exists>r' fs. registry_register name rf r = (True, r') \<and> fst (registry_Start listenOk r') = Listening ('':'' @ itoa port) fs \<and> rf \<in> set fs"
    and "fst (registry_register name rf (snd (registry_Start listenOk r))) = False"
proof -
  have "map_of (AList.update name rf (gr_registry r)) name = Some rf" by (simp add: update_conv')
  then have "rf \<in> snd ` set (AList.update name rf (gr_registry r))" by (force dest: map_of_SomeD)
  moreover then have "AList.update name rf (gr_registry r) \<noteq> []" by auto
  ultimately show "\<exists>r' fs. registry_register name rf r = (True, r') \<and> fst (registry_Start listenOk r') = Listening ('':'' @ itoa port) fs \<and> rf \<in> set fs"
    using assms by (simp add: registry_register_def registry_Start_def Let_def)
  show "fst (registry_register name rf (snd (registry_Start listenOk r))) = False"
    using assms by (simp add: registry_register_def registry_Start_def Let_def)
qed

end
