(* ===== verification/Grpc_Client.thy ===== *)
theory Grpc_Client
  imports Manager_State Spec_Manager Server_Reconcile
begin

section \<open>The proxy's connection to the manager (\<^verbatim>\<open>proxy/protomanager/proto_manager_grpc.go\<close>)\<close>

text \<open>
  The client side of the stream whose server side is \<open>Grpc_Server\<close>: choosing the
  manager to connect to, the first status, receiving specs, and reporting. The operations
  come first; then a transition system interleaves the goroutines that share the lock of
  the spec manager and the bounded channel of report triggers. Last, the two ends of the
  stream are put together: what one round of sending, loading and reporting leads to.
\<close>

subsection \<open>Choosing the manager\<close>

datatype connect_wait =
    StateNotFound
  | StateUnreadable api_error
  | NoGrpcPort
  | NoLeaderEndpoint

definition connect_target :: "api_error + ManagerState \<Rightarrow> connect_wait + string" where
  \<comment> \<open>one turn of the loop of \<^verbatim>\<open>connect\<close>: the address to dial, or the reason to wait\<close>
  "connect_target got =
     (case got of
        Inl NotFound \<Rightarrow> Inl StateNotFound
      | Inl e \<Rightarrow> Inl (StateUnreadable e)
      | Inr managerState \<Rightarrow>
          (case mss_Ports (mst_Status managerState) of
             None \<Rightarrow> Inl NoGrpcPort
           | Some ports \<Rightarrow>
               if msp_GrpcLeaderElectionPort ports = 0 then Inl NoGrpcPort
               else (case find mse_Leader (mss_Endpoints (mst_Status managerState)) of
                       None \<Rightarrow> Inl NoLeaderEndpoint
                     | Some leader \<Rightarrow> Inr (mse_PodIP leader @ '':'' @ itoa (msp_GrpcLeaderElectionPort ports)))))"

subsection \<open>Messages\<close>

record grpc_client =
  gl_specManager :: spec_manager
  gl_prevSpec :: "proxy_spec_v1 option"

definition first_status :: "(load_error \<Rightarrow> string) \<Rightarrow> self_info \<Rightarrow> grpc_client \<Rightarrow> proxy_status_v1 option" where
  "first_status fmt selfInfo c =
     do { status \<leftarrow> GetStatus fmt (gl_specManager c);
          Some ((case status of
                   None \<Rightarrow> \<lparr>st_SelfInfo = None, st_MetaState = None, st_LeaderElectionState = None\<rparr>
                 | Some s \<Rightarrow> s)\<lparr>st_SelfInfo := Some selfInfo\<rparr>) }"

definition client_recv ::
    "codec \<Rightarrow> json_selector \<Rightarrow> string + proxy_spec_v1 option \<Rightarrow> grpc_client \<Rightarrow> (string option \<times> grpc_client) option" where
  \<comment> \<open>an invalid spec is logged and counts as received\<close>
  "client_recv cd ju msg c =
     (case msg of
        Inl err \<Rightarrow> Some (Some err, c)
      | Inr None \<Rightarrow> Some (None, c)
      | Inr (Some spec) \<Rightarrow>
          if ps_Meta spec = None \<or> ps_Route spec = None then Some (None, c)
          else do { sm \<leftarrow> UpdateSpec cd ju spec (gl_specManager c);
                    Some (None, c\<lparr>gl_specManager := sm, gl_prevSpec := Some spec\<rparr>) })"

datatype send_result = NothingSent | Sent proxy_status_v1

definition client_send ::
    "(load_error \<Rightarrow> string) \<Rightarrow> proxy_status_v1 option \<Rightarrow> grpc_client \<Rightarrow> send_result option" where
  "client_send fmt prevStatus c =
     do { newStatus \<leftarrow> GetStatus fmt (gl_specManager c);
          Some (case newStatus of
                  None \<Rightarrow> NothingSent
                | Some status \<Rightarrow> if prevStatus = Some status then NothingSent else Sent status) }"

subsection \<open>The goroutines\<close>

definition triggerCapacity :: nat where
  "triggerCapacity = 1000"

datatype client_phase =
    Disconnected
  | Receiving
  | Triggering

record client_system =
  \<comment> \<open>\<open>cs_leaderWaits\<close>: an \<^verbatim>\<open>UpdateLeaderElection\<close> holds the lock and waits for room in the
      channel; \<open>cs_reporting\<close>: the sender has taken a trigger or its timer fired; \<open>cs_stale\<close>: the
      senders of earlier streams that have not seen the end of their stream yet; \<open>cs_out\<close>: the
      statuses sent on the current stream\<close>
  cs_client :: grpc_client
  cs_phase :: client_phase
  cs_triggers :: nat
  cs_leaderWaits :: bool
  cs_initClosed :: bool
  cs_reporting :: bool
  cs_stale :: nat
  cs_prevStatus :: "proxy_status_v1 option"
  cs_out :: "proxy_status_v1 list"

definition set_leader :: "leader_election_state_v1 option \<Rightarrow> client_system \<Rightarrow> client_system" where
  "set_leader le s =
     s\<lparr>cs_client := (cs_client s)\<lparr>gl_specManager := UpdateLeaderElection le (gl_specManager (cs_client s))\<rparr>\<rparr>"

definition leads :: "string \<Rightarrow> leader_election_state_v1 option" where
  \<comment> \<open>the only states that the leader election handler reports\<close>
  "leads holdIdentity = Some \<lparr>le_Identity = holdIdentity, le_IsLeader = True\<rparr>"

text \<open>
  The servers that call \<^verbatim>\<open>UpdateLeaderElection\<close> start after the client has closed the
  init channel (\<^verbatim>\<open>cmd/proxy/main.go\<close>). When a stream ends, its sender chooses between the
  stop channel and pending triggers in any order; a trigger it takes is lost, as its send
  fails.
\<close>

inductive client_step ::
    "codec \<Rightarrow> json_selector \<Rightarrow> (load_error \<Rightarrow> string) \<Rightarrow> self_info \<Rightarrow> client_system \<Rightarrow> client_system \<Rightarrow> bool"
  for cd ju fmt selfInfo where
  register:
    "cs_phase s = Disconnected \<Longrightarrow> \<not> cs_leaderWaits s \<Longrightarrow> first_status fmt selfInfo (cs_client s) = Some status \<Longrightarrow>
     client_step cd ju fmt selfInfo s
       (s\<lparr>cs_phase := Receiving, cs_reporting := False, cs_prevStatus := None, cs_out := [status]\<rparr>)"
| receive:
    "cs_phase s = Receiving \<Longrightarrow> \<not> cs_leaderWaits s \<Longrightarrow> client_recv cd ju (Inr spec) (cs_client s) = Some (None, c) \<Longrightarrow>
     client_step cd ju fmt selfInfo s (s\<lparr>cs_client := c, cs_phase := Triggering, cs_initClosed := True\<rparr>)"
| trigger:
    "cs_phase s = Triggering \<Longrightarrow> cs_triggers s < triggerCapacity \<Longrightarrow>
     client_step cd ju fmt selfInfo s (s\<lparr>cs_phase := Receiving, cs_triggers := Suc (cs_triggers s)\<rparr>)"
| disconnect:
    "cs_phase s = Receiving \<Longrightarrow>
     client_step cd ju fmt selfInfo s
       (s\<lparr>cs_phase := Disconnected, cs_reporting := False, cs_stale := Suc (cs_stale s)\<rparr>)"
| stale_takes_trigger:
    "0 < cs_stale s \<Longrightarrow> cs_initClosed s \<Longrightarrow> 0 < cs_triggers s \<Longrightarrow>
     client_step cd ju fmt selfInfo s (s\<lparr>cs_triggers := cs_triggers s - 1\<rparr>)"
| stale_stops:
    "0 < cs_stale s \<Longrightarrow> cs_initClosed s \<Longrightarrow>
     client_step cd ju fmt selfInfo s (s\<lparr>cs_stale := cs_stale s - 1\<rparr>)"
| take_trigger:
    "cs_phase s \<noteq> Disconnected \<Longrightarrow> cs_initClosed s \<Longrightarrow> \<not> cs_reporting s \<Longrightarrow> 0 < cs_triggers s \<Longrightarrow>
     client_step cd ju fmt selfInfo s (s\<lparr>cs_reporting := True, cs_triggers := cs_triggers s - 1\<rparr>)"
| timer:
    "cs_phase s \<noteq> Disconnected \<Longrightarrow> cs_initClosed s \<Longrightarrow> \<not> cs_reporting s \<Longrightarrow>
     client_step cd ju fmt selfInfo s (s\<lparr>cs_reporting := True\<rparr>)"
| report_nothing:
    "cs_reporting s \<Longrightarrow> \<not> cs_leaderWaits s \<Longrightarrow> client_send fmt (cs_prevStatus s) (cs_client s) = Some NothingSent \<Longrightarrow>
     client_step cd ju fmt selfInfo s (s\<lparr>cs_reporting := False\<rparr>)"
| report:
    "cs_reporting s \<Longrightarrow> \<not> cs_leaderWaits s \<Longrightarrow> client_send fmt (cs_prevStatus s) (cs_client s) = Some (Sent status) \<Longrightarrow>
     client_step cd ju fmt selfInfo s
       (s\<lparr>cs_reporting := False, cs_prevStatus := Some status, cs_out := cs_out s @ [status]\<rparr>)"
| report_error:
    "cs_reporting s \<Longrightarrow> \<not> cs_leaderWaits s \<Longrightarrow> client_send fmt (cs_prevStatus s) (cs_client s) = Some (Sent status) \<Longrightarrow>
     client_step cd ju fmt selfInfo s (s\<lparr>cs_reporting := False\<rparr>)"
| leader_unchanged:
    "cs_initClosed s \<Longrightarrow> \<not> cs_leaderWaits s \<Longrightarrow> smg_leaderElectionState (gl_specManager (cs_client s)) = leads i \<Longrightarrow>
     client_step cd ju fmt selfInfo s (set_leader (leads i) s)"
| leader_changed:
    "cs_initClosed s \<Longrightarrow> \<not> cs_leaderWaits s \<Longrightarrow> smg_leaderElectionState (gl_specManager (cs_client s)) \<noteq> leads i \<Longrightarrow>
     cs_triggers s < triggerCapacity \<Longrightarrow>
     client_step cd ju fmt selfInfo s ((set_leader (leads i) s)\<lparr>cs_triggers := Suc (cs_triggers s)\<rparr>)"
| leader_waits:
    "cs_initClosed s \<Longrightarrow> \<not> cs_leaderWaits s \<Longrightarrow> smg_leaderElectionState (gl_specManager (cs_client s)) \<noteq> leads i \<Longrightarrow>
     \<not> cs_triggers s < triggerCapacity \<Longrightarrow>
     client_step cd ju fmt selfInfo s ((set_leader (leads i) s)\<lparr>cs_leaderWaits := True\<rparr>)"
| leader_resumes:
    "cs_leaderWaits s \<Longrightarrow> cs_triggers s < triggerCapacity \<Longrightarrow>
     client_step cd ju fmt selfInfo s (s\<lparr>cs_leaderWaits := False, cs_triggers := Suc (cs_triggers s)\<rparr>)"

inductive_cases client_stepE: "client_step cd ju fmt selfInfo s t"

definition client_init :: "client_system \<Rightarrow> bool" where
  "client_init s \<longleftrightarrow> cs_phase s = Disconnected \<and> cs_triggers s = 0 \<and> \<not> cs_leaderWaits s \<and> \<not> cs_initClosed s
     \<and> \<not> cs_reporting s \<and> cs_stale s = 0 \<and> cs_prevStatus s = None \<and> cs_out s = [] \<and> gl_prevSpec (cs_client s) = None"

subsection \<open>Reports on a stream\<close>

definition client_inv :: "client_system \<Rightarrow> bool" where
  "client_inv s \<longleftrightarrow> cs_triggers s \<le> triggerCapacity \<and> distinct_adj (tl (cs_out s))
     \<and> (case cs_prevStatus s of
          None \<Rightarrow> length (cs_out s) \<le> 1
        | Some x \<Rightarrow> 2 \<le> length (cs_out s) \<and> last (cs_out s) = x)
     \<and> (cs_phase s \<noteq> Disconnected \<longrightarrow> cs_out s \<noteq> []) \<and> (cs_reporting s \<longrightarrow> cs_phase s \<noteq> Disconnected)"

lemma set_leader_sel [simp]:
  "cs_phase (set_leader le s) = cs_phase s" "cs_triggers (set_leader le s) = cs_triggers s"
  "cs_leaderWaits (set_leader le s) = cs_leaderWaits s" "cs_initClosed (set_leader le s) = cs_initClosed s"
  "cs_reporting (set_leader le s) = cs_reporting s" "cs_stale (set_leader le s) = cs_stale s"
  "cs_prevStatus (set_leader le s) = cs_prevStatus s" "cs_out (set_leader le s) = cs_out s"
  "smg_leaderElectionState (gl_specManager (cs_client (set_leader le s))) = le"
  by (simp_all add: set_leader_def UpdateLeaderElection_def)

lemma client_send_Sent: "client_send fmt prev c = Some (Sent status) \<Longrightarrow> prev \<noteq> Some status"
  by (auto simp: client_send_def split: bind_splits option.splits if_splits)

lemma distinct_adj_tl_snoc:
  assumes "distinct_adj (tl xs)" and "xs \<noteq> []" and "length xs \<le> 1 \<or> last xs \<noteq> x"
  shows "distinct_adj (tl (xs @ [x]))"
proof (cases "tl xs")
  case Nil
  then show ?thesis using assms(2) by (cases xs) auto
next
  case (Cons y ys)
  then have "last (tl xs) = last xs" "tl (xs @ [x]) = tl xs @ [x]" "\<not> length xs \<le> 1" by (cases xs; auto)+
  with assms show ?thesis using distinct_adj_append_iff [of "tl xs" "[x]"] by simp
qed

lemma client_inv_step:
  assumes "client_inv s" and "client_step cd ju fmt selfInfo s t"
  shows "client_inv t"
  using assms(2)
proof (cases rule: client_step.cases)
  case (report status)
  with assms(1) have "cs_out s \<noteq> []" "length (cs_out s) \<le> 1 \<or> last (cs_out s) \<noteq> status"
    using client_send_Sent by (auto simp: client_inv_def split: option.splits)
  with report assms(1) distinct_adj_tl_snoc [of "cs_out s" status] show ?thesis
    by (cases "cs_out s") (auto simp: client_inv_def)
qed (use assms(1) in \<open>auto simp: client_inv_def split: option.splits\<close>)

interpretation cl: inductive_invariant client_init "client_step cd ju fmt selfInfo" client_inv
  for cd ju fmt selfInfo
proof
  show "client_init s \<Longrightarrow> client_inv s" for s by (simp add: client_init_def client_inv_def)
qed (rule client_inv_step)

subsection \<open>Waiting for ever\<close>

definition leader_deadlock :: "client_system \<Rightarrow> bool" where
  "leader_deadlock s \<longleftrightarrow> cs_phase s = Disconnected \<and> cs_leaderWaits s \<and> cs_triggers s = triggerCapacity
     \<and> cs_stale s = 0 \<and> \<not> cs_reporting s"

lemma leader_deadlock_stuck: "leader_deadlock s \<Longrightarrow> \<not> client_step cd ju fmt selfInfo s t"
  by (auto simp: leader_deadlock_def elim: client_step.cases)

lemma other_leader: "\<exists>i. x \<noteq> leads i"
proof -
  have "leads ''a'' \<noteq> leads ''b''" by (simp add: leads_def)
  then show ?thesis by metis
qed

lemma triggers_pile_up:
  assumes "cs_phase s = Disconnected" and "cs_initClosed s" and "\<not> cs_leaderWaits s" and "cs_stale s = 0" and "\<not> cs_reporting s"
    and "cs_triggers s + n \<le> triggerCapacity"
  shows "\<exists>t. (client_step cd ju fmt selfInfo)\<^sup>*\<^sup>* s t \<and> cs_triggers t = cs_triggers s + n \<and> cs_phase t = Disconnected
    \<and> cs_initClosed t \<and> \<not> cs_leaderWaits t \<and> cs_stale t = 0 \<and> \<not> cs_reporting t"
  using assms(6)
proof (induction n)
  case 0
  with assms show ?case by auto
next
  case (Suc n)
  then obtain t where t: "(client_step cd ju fmt selfInfo)\<^sup>*\<^sup>* s t" "cs_triggers t = cs_triggers s + n" "cs_phase t = Disconnected"
    "cs_initClosed t" "\<not> cs_leaderWaits t" "cs_stale t = 0" "\<not> cs_reporting t" by auto
  obtain i where "smg_leaderElectionState (gl_specManager (cs_client t)) \<noteq> leads i"
    using other_leader [of "smg_leaderElectionState (gl_specManager (cs_client t))"] by blast
  with t Suc.prems have "client_step cd ju fmt selfInfo t ((set_leader (leads i) t)\<lparr>cs_triggers := Suc (cs_triggers t)\<rparr>)"
    by (intro client_step.leader_changed) auto
  with t(1) have "(client_step cd ju fmt selfInfo)\<^sup>*\<^sup>* s ((set_leader (leads i) t)\<lparr>cs_triggers := Suc (cs_triggers t)\<rparr>)"
    by (rule rtranclp.rtrancl_into_rtrancl)
  with t show ?case by (intro exI [of _ "(set_leader (leads i) t)\<lparr>cs_triggers := Suc (cs_triggers t)\<rparr>"]) simp
qed

subsection \<open>One round of sending, loading and reporting\<close>

definition manager_loaded :: "spec_manager \<Rightarrow> string \<Rightarrow> bool" where
  \<comment> \<open>what a spec manager has loaded, if anything, is a complete spec of the application\<close>
  "manager_loaded sm vapp \<longleftrightarrow>
     (\<forall>cur. smg_currentSpec sm = Some cur \<longrightarrow>
        (\<exists>m rt. ps_Meta (is_spec cur) = Some m \<and> sm_VAppName m = vapp \<and> ps_Route (is_spec cur) = Some rt))"

lemma recv_reports_expected_hash:
  assumes "client_recv cd ju (Inr (Some spec)) c = Some (None, c')" and "ps_Meta spec = Some m" and "ps_Route spec = Some rt"
    and "manager_loaded (gl_specManager c) (sm_VAppName m)"
  shows "\<exists>status ms cur. GetStatus fmt (gl_specManager c') = Some (Some status) \<and> st_MetaState status = Some ms
    \<and> smg_currentSpec (gl_specManager c') = Some cur \<and> ms_ExpectedHash ms = sm_Hash m
    \<and> (\<exists>cm cr. ps_Meta (is_spec cur) = Some cm \<and> ps_Route (is_spec cur) = Some cr
         \<and> ms_CurrentHash ms = sm_Hash cm \<and> ms_Subset ms = rt_Subset cr
         \<and> (cur = ConvertProtoSpecToInternal ju spec \<or> sm_Hash cm \<noteq> sm_Hash m \<or> rt_Subset cr \<noteq> rt_Subset rt))"
proof -
  let ?sm = "gl_specManager c" and ?sm' = "gl_specManager c'" and ?new = "ConvertProtoSpecToInternal ju spec"
  have new: "is_spec ?new = spec" by (simp add: ConvertProtoSpecToInternal_def)
  have upd: "UpdateSpec cd ju spec ?sm = Some ?sm'"
    using assms(1-3) by (auto simp: client_recv_def split: bind_splits)
  note eff = UpdateSpec_effect [OF upd]
  have "\<exists>cur cm cr. smg_currentSpec ?sm' = Some cur \<and> ps_Meta (is_spec cur) = Some cm \<and> ps_Route (is_spec cur) = Some cr
      \<and> (cur = ?new \<or> sm_Hash cm \<noteq> sm_Hash m \<or> rt_Subset cr \<noteq> rt_Subset rt)"
  proof (cases "checkLoadable (smg_currentSpec ?sm) ?new (smg_requestsStore ?sm) = Some None")
    case True
    with eff assms(2,3) new show ?thesis by auto
  next
    case False
    then obtain cur where cur: "smg_currentSpec ?sm = Some cur" by (cases "smg_currentSpec ?sm") (auto simp: checkLoadable_def)
    with assms(4) obtain cm cr where "ps_Meta (is_spec cur) = Some cm" "sm_VAppName cm = sm_VAppName m"
      "ps_Route (is_spec cur) = Some cr" by (auto simp: manager_loaded_def)
    moreover from this False cur have "sm_Hash cm \<noteq> sm_Hash m \<or> rt_Subset cr \<noteq> rt_Subset rt"
      using assms(2,3) new by (auto simp: checkLoadable_def)
    moreover have "smg_currentSpec ?sm' = Some cur"
      using eff False cur by (auto split: option.splits)
    ultimately show ?thesis by blast
  qed
  then show ?thesis
    using eff assms(2) new by (auto simp: GetStatus_def)
qed

text \<open>
  The state of the server after the reports of the client: a status it has not had yet
  arrives on the stream.
\<close>

definition deliver :: "grpc_stream \<Rightarrow> send_result \<Rightarrow> server_state \<Rightarrow> server_state" where
  "deliver str res st = (case res of NothingSent \<Rightarrow> st | Sent status \<Rightarrow> RegisterV1_recv str status st)"

lemma deliver_status:
  assumes "client_send fmt prev c = Some res" and "GetStatus fmt (gl_specManager c) = Some (Some status)"
    and "\<And>x. prev = Some x \<Longrightarrow> gc_status (srv_heap st ! str_conn str) = x" and "str_conn str < length (srv_heap st)"
  shows "srv_heap (deliver str res st) ! str_conn str = (srv_heap st ! str_conn str)\<lparr>gc_status := status\<rparr>"
    and "srv_cached (deliver str res st) = srv_cached st"
    and "srv_hashExpectation (deliver str res st) = srv_hashExpectation st"
    and "srv_deletionExpectation (deliver str res st) = srv_deletionExpectation st"
  using assms by (auto simp: client_send_def deliver_def RegisterV1_recv_def Let_def split: if_splits)

subsection \<open>Properties\<close>

text \<open>
  C6. One round of the protocol. The manager has sent a pod its new spec and waits for the
  hash. Once the proxy has received the spec and run its reporter, the manager counts the
  pod as settled. If the proxy has loaded the spec, the manager then finds nothing to do for
  the pod; if the spec contradicts what the proxy has already decided, it deletes the pod.
\<close>

theorem spec_round_settles:
  assumes "IsPodActive p" and "pod_UID p \<notin> set (srv_deletionExpectation st)"
    and "map_of (srv_cached st) (pod_UID p) = Some (str_conn str)" and "str_conn str < length (srv_heap st)"
    and "\<not> gc_disconnected (srv_heap st ! str_conn str)" and "0 < gc_sendTimes (srv_heap st ! str_conn str)"
    and "map_of (srv_hashExpectation st) (pod_UID p) = Some hash"
    and "spec = newSpec vApp hash route endpoints sp0" and "sp_pod sp0 = p"
    and "manager_loaded (gl_specManager c) (va_Name vApp)"
    and "client_recv cd ju (Inr (Some spec)) c = Some (None, c')" and "client_send fmt prev c' = Some res"
    and "\<And>x. prev = Some x \<Longrightarrow> gc_status (srv_heap st ! str_conn str) = x"
  shows "pod_settled now (deliver str res st) p
    \<and> (\<exists>sp. sync_of (deliver str res st) p = Some sp
        \<and> (if smg_currentSpec (gl_specManager c') = Some (ConvertProtoSpecToInternal ju spec)
           then decide hash vApp sp = Nothing_to_do else decide hash vApp sp \<in> {DeleteLeader, DeleteNonLeader}))"
proof -
  let ?m = "\<lparr>sm_VAppName = va_Name vApp, sm_Hash = hash\<rparr>" and ?sub = "determinePodSubset vApp p"
  obtain rt where spec: "ps_Meta spec = Some ?m" "ps_Route spec = Some rt" "rt_Subset rt = ?sub"
    using assms(8,9) by (simp add: newSpec_def)
  have "manager_loaded (gl_specManager c) (sm_VAppName ?m)" using assms(10) by simp
  from recv_reports_expected_hash [OF assms(11) spec(1,2) this, of fmt]
  obtain status ms cur cm cr where s: "GetStatus fmt (gl_specManager c') = Some (Some status)" "st_MetaState status = Some ms"
    "smg_currentSpec (gl_specManager c') = Some cur" "ms_ExpectedHash ms = hash"
    "ps_Meta (is_spec cur) = Some cm" "ps_Route (is_spec cur) = Some cr"
    "ms_CurrentHash ms = sm_Hash cm" "ms_Subset ms = rt_Subset cr"
    "cur = ConvertProtoSpecToInternal ju spec \<or> sm_Hash cm \<noteq> hash \<or> rt_Subset cr \<noteq> ?sub"
    using spec(3) by auto
  note d = deliver_status [OF assms(12) s(1) assms(13,4)]
  have settled: "pod_settled now (deliver str res st) p"
    using assms(1,2,3,5,7) s(2,4) d by (simp add: pod_settled_def hash_unsatisfied_def)
  let ?sp = "\<lparr>sp_pod = p, sp_conn = str_conn str, sp_dispatched = True, sp_status = status\<rparr>"
  have sync: "sync_of (deliver str res st) p = Some ?sp"
    using assms(1,3,6) d by (simp add: sync_of_def)
  have "is_spec (ConvertProtoSpecToInternal ju spec) = spec" by (simp add: ConvertProtoSpecToInternal_def)
  then have "if cur = ConvertProtoSpecToInternal ju spec then decide hash vApp ?sp = Nothing_to_do
      else decide hash vApp ?sp \<in> {DeleteLeader, DeleteNonLeader}"
    using s spec by (auto simp: decide_def Let_def)
  with settled sync s(3) show ?thesis by simp
qed

definition example_round_spec :: proxy_spec_v1 where
  "example_round_spec = newSpec example_app ''h'' example_public_route []
     \<lparr>sp_pod = example_pod, sp_conn = 0, sp_dispatched = False, sp_status = example_proxy_status None\<rparr>"

definition example_client :: grpc_client where
  "example_client = \<lparr>gl_specManager = example_start, gl_prevSpec = None\<rparr>"

definition example_waiting :: server_state where
  "example_waiting = (example_server None)\<lparr>srv_heap := [\<lparr>gc_status = example_proxy_status None, gc_sendTimes = 1,
     gc_disconnected = False\<rparr>], srv_hashExpectation := [(''u0'', ''h'')]\<rparr>"

definition example_stream :: grpc_stream where
  "example_stream = \<lparr>str_uid = ''u0'', str_conn = 0, str_event = (''default'', ''app'')\<rparr>"

theorem spec_round_settles_witness:
  "\<exists>c' res sp. client_recv example_codec example_ju (Inr (Some example_round_spec)) example_client = Some (None, c')
     \<and> client_send (\<lambda>_. '''') None c' = Some res \<and> \<not> pod_settled 0 example_waiting example_pod
     \<and> pod_settled 0 (deliver example_stream res example_waiting) example_pod
     \<and> sync_of (deliver example_stream res example_waiting) example_pod = Some sp \<and> decide ''h'' example_app sp = Nothing_to_do"
proof -
  have unsettled: "\<not> pod_settled 0 example_waiting example_pod"
    by (simp add: pod_settled_def hash_unsatisfied_def example_waiting_def example_server_def example_pod_def IsPodActive_def
        example_proxy_status_def)
  obtain c' where c': "client_recv example_codec example_ju (Inr (Some example_round_spec)) example_client = Some (None, c')"
    and cur: "smg_currentSpec (gl_specManager c') = Some (ConvertProtoSpecToInternal example_ju example_round_spec)"
    and ex: "smg_expectedSpec (gl_specManager c') = Some (ConvertProtoSpecToInternal example_ju example_round_spec)"
    by (simp add: client_recv_def example_client_def example_run_simps example_round_spec_def newSpec_def)
  obtain res where res: "client_send (\<lambda>_. '''') None c' = Some res"
    by (simp add: client_send_def GetStatus_def cur ex ConvertProtoSpecToInternal_def example_round_spec_def newSpec_def)
  have loaded: "manager_loaded (gl_specManager example_client) (va_Name example_app)"
    by (simp add: manager_loaded_def example_client_def example_start_def)
  note round = spec_round_settles [where p = example_pod and st = example_waiting and str = example_stream and hash = "''h''"
      and now = 0, OF _ _ _ _ _ _ _ example_round_spec_def _ loaded c' res]
  have "pod_settled 0 (deliver example_stream res example_waiting) example_pod
    \<and> (\<exists>sp. sync_of (deliver example_stream res example_waiting) example_pod = Some sp \<and> decide ''h'' example_app sp = Nothing_to_do)"
    using round cur
    by (simp add: example_waiting_def example_server_def example_stream_def example_pod_def IsPodActive_def)
  with c' res unsettled show ?thesis by blast
qed

text \<open>
  C36. Finding the manager. If the leading manager's pod is active, it publishes its address
  in two reconciles whatever was stored before, and a proxy that reads the result dials the
  leader's gRPC port.
\<close>

theorem proxy_finds_leader:
  assumes "p \<in> set (active_manager_pods mc cl)" and "pod_Name p = mc_localName mc"
    and "distinct (map pod_Name (active_manager_pods mc cl))" and "fst ports \<noteq> 0"
    and "run = (\<lambda>cl. snd (manager_Reconcile mc ports no_faults NameOfManager cl))"
  shows "\<exists>s. cl_state (run (run cl)) = Some s \<and> connect_target (Inr s) = Inr (pod_PodIP p @ '':'' @ itoa (fst ports))
    \<and> manager_Reconcile mc ports no_faults NameOfManager (run (run cl)) = (None, run (run cl))"
proof -
  from managerstate_converges [OF assms(1-3,5)]
  obtain s where s: "manager_Reconcile mc ports no_faults NameOfManager (run (run cl)) = (None, run (run cl))"
    "cl_state (run (run cl)) = Some s" "mst_Status s = published_status mc ports cl"
    and leader: "filter mse_Leader (mss_Endpoints (mst_Status s)) = [endpoint_of (mc_localName mc) p]"
    by auto
  have "find mse_Leader es = (case filter mse_Leader es of [] \<Rightarrow> None | e # _ \<Rightarrow> Some e)" for es :: "ManagerStateEndpoint list"
    by (induction es) auto
  with leader have "find mse_Leader (mss_Endpoints (mst_Status s)) = Some (endpoint_of (mc_localName mc) p)" by simp
  moreover have "mss_Ports (mst_Status s) = Some \<lparr>msp_GrpcLeaderElectionPort = fst ports, msp_GrpcNonLeaderElectionPort = snd ports\<rparr>"
    by (simp add: s(3) published_status_def newStatus_def)
  ultimately show ?thesis
    using s(1,2) assms(4) by (simp add: connect_target_def endpoint_of_def)
qed

definition example_manager :: manager_config where
  "example_manager = \<lparr>mc_podSelector = Everything, mc_namespace = ''default'', mc_localName = ''app-0''\<rparr>"

definition example_cluster :: manager_cluster where
  "example_cluster = \<lparr>cl_pods = [example_pod\<lparr>pod_Name := ''app-1'', pod_PodIP := ''10.0.0.2''\<rparr>, example_pod], cl_state = None\<rparr>"

theorem proxy_finds_leader_witness:
  "\<exists>s. cl_state (snd (manager_Reconcile example_manager (71, 72) no_faults NameOfManager
         (snd (manager_Reconcile example_manager (71, 72) no_faults NameOfManager example_cluster)))) = Some s
     \<and> connect_target (Inr s) = Inr ''10.0.0.1:71''"
proof -
  have pods: "active_manager_pods example_manager example_cluster
      = [example_pod\<lparr>pod_Name := ''app-1'', pod_PodIP := ''10.0.0.2''\<rparr>, example_pod]"
    by (simp add: active_manager_pods_def list_manager_pods_def example_manager_def example_cluster_def example_pod_def IsPodActive_def)
  have port: "itoa 71 = ''71''" by code_simp
  have "example_pod \<in> set (active_manager_pods example_manager example_cluster)"
    "pod_Name example_pod = mc_localName example_manager"
    "distinct (map pod_Name (active_manager_pods example_manager example_cluster))"
    by (simp_all add: pods) (simp_all add: example_pod_def example_manager_def)
  from proxy_finds_leader [OF this, where ports = "(71, 72)", OF _ refl] show ?thesis
    by (auto simp: port example_pod_def)
qed

text \<open>
  C37. A disconnected proxy can stop for good. From any state in which the proxy serves but has
  no stream, changes of the leader-election state can fill the channel of report triggers;
  the next change waits for room while it holds the lock that connecting needs. From then
  on no step of the client is possible.
\<close>

theorem leader_updates_can_deadlock:
  assumes "cs_phase s = Disconnected" and "cs_initClosed s" and "\<not> cs_leaderWaits s" and "cs_stale s = 0"
    and "\<not> cs_reporting s" and "cs_triggers s \<le> triggerCapacity"
  shows "\<exists>t. (client_step cd ju fmt selfInfo)\<^sup>*\<^sup>* s t \<and> (\<forall>u. \<not> client_step cd ju fmt selfInfo t u)"
proof -
  obtain t where t: "(client_step cd ju fmt selfInfo)\<^sup>*\<^sup>* s t" "cs_triggers t = triggerCapacity" "cs_phase t = Disconnected"
    "cs_initClosed t" "\<not> cs_leaderWaits t" "cs_stale t = 0" "\<not> cs_reporting t"
    using triggers_pile_up [OF assms(1-5), where n = "triggerCapacity - cs_triggers s" and cd = cd and ju = ju
        and fmt = fmt and selfInfo = selfInfo] assms(6) by auto
  obtain i where l: "smg_leaderElectionState (gl_specManager (cs_client t)) \<noteq> leads i" using other_leader [of "smg_leaderElectionState (gl_specManager (cs_client t))"] by blast
  let ?u = "(set_leader (leads i) t)\<lparr>cs_leaderWaits := True\<rparr>"
  have "client_step cd ju fmt selfInfo t ?u"
    using t l by (intro client_step.leader_waits) auto
  with t(1) have "(client_step cd ju fmt selfInfo)\<^sup>*\<^sup>* s ?u" by (rule rtranclp.rtrancl_into_rtrancl)
  moreover have "leader_deadlock ?u" using t by (simp add: leader_deadlock_def)
  ultimately show ?thesis
    by (intro exI [of _ ?u]) (simp add: leader_deadlock_stuck)
qed

definition example_serving_client :: client_system where
  "example_serving_client =
     \<lparr>cs_client = example_client, cs_phase = Disconnected, cs_triggers = 3, cs_leaderWaits = False, cs_initClosed = True,
      cs_reporting = False, cs_stale = 0, cs_prevStatus = None, cs_out = []\<rparr>"

theorem leader_updates_can_deadlock_witness:
  "\<exists>t. (client_step example_codec example_ju (\<lambda>_. '''') \<lparr>si_Namespace = ''default'', si_Name = ''app-0''\<rparr>)\<^sup>*\<^sup>* example_serving_client t
     \<and> (\<forall>u. \<not> client_step example_codec example_ju (\<lambda>_. '''') \<lparr>si_Namespace = ''default'', si_Name = ''app-0''\<rparr> t u)"
  by (rule leader_updates_can_deadlock) (simp_all add: example_serving_client_def triggerCapacity_def)

end
