(* ===== verification/Cert_Generator.thy ===== *)
theory Cert_Generator
  imports Prelude
begin

section \<open>Certificates (\<^verbatim>\<open>webhook/util/generator\<close>)\<close>

text \<open>
  The generator of self-signed certificates and the test whether certificates are still
  good. Keys, certificates and their encodings belong to Go's \<^verbatim>\<open>crypto\<close> packages and to
  client-go; they are the fields of \<open>crypto\<close>, and \<open>x509_laws\<close> states what is used of
  them. Times are integers (nanoseconds); the results of the random source are arguments.
  A nil byte slice is \<^const>\<open>None\<close>.
\<close>

subsection \<open>Data\<close>

record Artifacts =
  art_Key :: "string option"
  art_Cert :: "string option"
  art_CAKey :: "string option"
  art_CACert :: "string option"
  art_ResourceVersion :: string

record cert_template =
  ct_CommonName :: string
  ct_DNSNames :: "string list"
  ct_IPAddresses :: "string list"
  ct_SerialNumber :: int
  ct_NotBefore :: int
  ct_NotAfter :: int

record ('k, 'c) crypto =
  \<comment> \<open>\<open>cr_ParsePrivateKeyPEM\<close>: the inner option is \<^const>\<open>None\<close> for a key that is not an RSA key;
      \<open>cr_AddDate t years months\<close> is \<^verbatim>\<open>t.AddDate(years, months, 0)\<close>\<close>
  cr_X509KeyPair :: "string \<Rightarrow> string \<Rightarrow> bool"
  cr_AppendCertsFromPEM :: "string \<Rightarrow> 'c list"
  cr_pemDecode :: "string \<Rightarrow> string option"
  cr_pemEncode :: "string \<Rightarrow> string \<Rightarrow> string"
  cr_ParseCertificate :: "string \<Rightarrow> 'c option"
  cr_Verify :: "'c \<Rightarrow> string \<Rightarrow> 'c list \<Rightarrow> int \<Rightarrow> bool"
  cr_ParsePrivateKeyPEM :: "string \<Rightarrow> 'k option option"
  cr_ParseCertsPEM :: "string \<Rightarrow> 'c list option"
  cr_NewSelfSignedCACert :: "int \<Rightarrow> string \<Rightarrow> 'k \<Rightarrow> 'c option"
  cr_CreateCertificate :: "cert_template \<Rightarrow> 'c \<Rightarrow> 'k \<Rightarrow> 'k \<Rightarrow> string option"
  cr_MarshalPKCS1PrivateKey :: "'k \<Rightarrow> string"
  cr_Raw :: "'c \<Rightarrow> string"
  cr_NotBefore :: "'c \<Rightarrow> int"
  cr_ParseIP :: "string \<Rightarrow> string option"
  cr_To4 :: "string \<Rightarrow> string option"
  cr_AddDate :: "int \<Rightarrow> int \<Rightarrow> int \<Rightarrow> int"

record 'k randoms =
  rn_caKey :: "'k option"
  rn_key :: "'k option"
  rn_serial :: "int option"

subsection \<open>Checks (\<^verbatim>\<open>util.go\<close>)\<close>

definition verify_pem :: "('k, 'c) crypto \<Rightarrow> string \<Rightarrow> string \<Rightarrow> string \<Rightarrow> string \<Rightarrow> int \<Rightarrow> bool" where
  \<comment> \<open>the common part of \<^verbatim>\<open>ValidCACert\<close> and of \<^verbatim>\<open>validCert\<close> in \<^verbatim>\<open>certwriter.go\<close>\<close>
  "verify_pem cr key cert caCert dnsName t \<longleftrightarrow>
     cr_X509KeyPair cr cert key
     \<and> (let pool = cr_AppendCertsFromPEM cr caCert in
        pool \<noteq> []
        \<and> (case cr_pemDecode cr cert of
             None \<Rightarrow> False
           | Some block \<Rightarrow> (case cr_ParseCertificate cr block of
                              None \<Rightarrow> False
                            | Some c \<Rightarrow> cr_Verify cr c dnsName pool t)))"

definition ValidCACert :: "('k, 'c) crypto \<Rightarrow> string \<Rightarrow> string \<Rightarrow> string \<Rightarrow> string \<Rightarrow> int \<Rightarrow> bool" where
  "ValidCACert cr key cert caCert dnsName t \<longleftrightarrow>
     \<not> (length key = 0 \<or> length cert = 0 \<or> length caCert = 0) \<and> verify_pem cr key cert caCert dnsName t"

subsection \<open>Generation (\<^verbatim>\<open>selfsigned.go\<close>)\<close>

definition ServiceToCommonName :: "string \<Rightarrow> string \<Rightarrow> string" where
  "ServiceToCommonName serviceNamespace serviceName = serviceName @ ''.'' @ serviceNamespace @ ''.svc''"

record SelfSignedCertGenerator =
  gen_caKey :: string
  gen_caCert :: string

definition new_generator :: SelfSignedCertGenerator where
  "new_generator = \<lparr>gen_caKey = '''', gen_caCert = ''''\<rparr>"

definition SetCA :: "string \<Rightarrow> string \<Rightarrow> SelfSignedCertGenerator \<Rightarrow> SelfSignedCertGenerator" where
  "SetCA caKey caCert g = g\<lparr>gen_caKey := caKey, gen_caCert := caCert\<rparr>"

definition validCACert :: "('k, 'c) crypto \<Rightarrow> int \<Rightarrow> SelfSignedCertGenerator \<Rightarrow> ('k \<times> 'c) option" where
  "validCACert cr now g =
     (if \<not> ValidCACert cr (gen_caKey g) (gen_caCert g) (gen_caCert g) '''' (cr_AddDate cr now 1 0) then None
      else (case cr_ParsePrivateKeyPEM cr (gen_caKey g) of
              None \<Rightarrow> None
            | Some None \<Rightarrow> None
            | Some (Some privateKey) \<Rightarrow>
                (case cr_ParseCertsPEM cr (gen_caCert g) of
                   Some [c] \<Rightarrow> Some (privateKey, c)
                 | _ \<Rightarrow> None)))"

datatype gen_error =
    CAKeyFailed
  | CACertFailed
  | KeyFailed
  | SerialFailed
  | NoCommonName
  | CreateFailed
  | ParseFailed

definition tenYears :: int where
  "tenYears = 1000000000 * 3600 * 24 * 365 * 10"

definition NewSignedCert ::
    "('k, 'c) crypto \<Rightarrow> int \<Rightarrow> int option \<Rightarrow> string \<Rightarrow> string list \<Rightarrow> string list \<Rightarrow> 'k \<Rightarrow> 'c \<Rightarrow> 'k \<Rightarrow> gen_error + 'c" where
  \<comment> \<open>the caller always gives one key usage\<close>
  "NewSignedCert cr now rndSerial commonName dnsNames ips key caCert caKey =
     (case rndSerial of
        None \<Rightarrow> Inl SerialFailed
      | Some serial \<Rightarrow>
          if length commonName = 0 then Inl NoCommonName
          else (let certTmpl = \<lparr>ct_CommonName = commonName, ct_DNSNames = dnsNames, ct_IPAddresses = ips, ct_SerialNumber = serial,
                                ct_NotBefore = cr_NotBefore cr caCert, ct_NotAfter = now + tenYears\<rparr> in
                case cr_CreateCertificate cr certTmpl caCert key caKey of
                  None \<Rightarrow> Inl CreateFailed
                | Some der \<Rightarrow> (case cr_ParseCertificate cr der of None \<Rightarrow> Inl ParseFailed | Some c \<Rightarrow> Inr c)))"

definition EncodePrivateKeyPEM :: "('k, 'c) crypto \<Rightarrow> 'k \<Rightarrow> string" where
  "EncodePrivateKeyPEM cr key = cr_pemEncode cr ''RSA PRIVATE KEY'' (cr_MarshalPKCS1PrivateKey cr key)"

definition EncodeCertPEM :: "('k, 'c) crypto \<Rightarrow> 'c \<Rightarrow> string" where
  "EncodeCertPEM cr ct = cr_pemEncode cr ''CERTIFICATE'' (cr_Raw cr ct)"

definition signing_pair :: "('k, 'c) crypto \<Rightarrow> int \<Rightarrow> 'k randoms \<Rightarrow> SelfSignedCertGenerator \<Rightarrow> gen_error + 'k \<times> 'c" where
  "signing_pair cr now rnd g =
     (case validCACert cr now g of
        Some p \<Rightarrow> Inr p
      | None \<Rightarrow>
          (case rn_caKey rnd of
             None \<Rightarrow> Inl CAKeyFailed
           | Some signingKey \<Rightarrow>
               (case cr_NewSelfSignedCACert cr now ''webhook-cert-ca'' signingKey of
                  None \<Rightarrow> Inl CACertFailed
                | Some signingCert \<Rightarrow> Inr (signingKey, signingCert))))"

definition Generate ::
    "('k, 'c) crypto \<Rightarrow> int \<Rightarrow> 'k randoms \<Rightarrow> SelfSignedCertGenerator \<Rightarrow> string \<Rightarrow> gen_error + Artifacts" where
  "Generate cr now rnd g commonName =
     (case signing_pair cr now rnd g of
        Inl e \<Rightarrow> Inl e
      | Inr (signingKey, signingCert) \<Rightarrow>
          (let host = Option.bind (cr_ParseIP cr commonName) (cr_To4 cr);
               altIPs = ''127.0.0.1'' # (case host of Some ip \<Rightarrow> [ip] | None \<Rightarrow> []);
               dnsNames = ''localhost'' # (case host of Some _ \<Rightarrow> [] | None \<Rightarrow> [commonName]) in
           case rn_key rnd of
             None \<Rightarrow> Inl KeyFailed
           | Some key \<Rightarrow>
               (case NewSignedCert cr now (rn_serial rnd) commonName dnsNames altIPs key signingCert signingKey of
                  Inl e \<Rightarrow> Inl e
                | Inr signedCert \<Rightarrow>
                    Inr \<lparr>art_Key = Some (EncodePrivateKeyPEM cr key), art_Cert = Some (EncodeCertPEM cr signedCert),
                         art_CAKey = Some (EncodePrivateKeyPEM cr signingKey), art_CACert = Some (EncodeCertPEM cr signingCert),
                         art_ResourceVersion = ''''\<rparr>)))"

subsection \<open>What is used of the crypto packages\<close>

definition parsed :: "('k, 'c) crypto \<Rightarrow> 'c \<Rightarrow> bool" where
  "parsed cr c \<longleftrightarrow> (\<exists>der. cr_ParseCertificate cr der = Some c)"

definition host_matches :: "('k, 'c) crypto \<Rightarrow> cert_template \<Rightarrow> string \<Rightarrow> bool" where
  \<comment> \<open>an address is compared with the addresses only, a name with the names only\<close>
  "host_matches cr tmpl host \<longleftrightarrow>
     (case cr_ParseIP cr host of
        Some ip \<Rightarrow> (case cr_To4 cr ip of Some ip4 \<Rightarrow> ip4 \<in> set (ct_IPAddresses tmpl) | None \<Rightarrow> False)
      | None \<Rightarrow> host \<noteq> [] \<and> host \<noteq> ''.'' \<and> hd host \<noteq> CHR ''['' \<and> host \<in> set (ct_DNSNames tmpl))"

definition servable_host :: "('k, 'c) crypto \<Rightarrow> string \<Rightarrow> bool" where
  \<comment> \<open>a host name or an IPv4 address\<close>
  "servable_host cr host \<longleftrightarrow>
     (case cr_ParseIP cr host of
        Some ip \<Rightarrow> cr_To4 cr ip \<noteq> None
      | None \<Rightarrow> host \<noteq> [] \<and> host \<noteq> ''.'' \<and> hd host \<noteq> CHR ''['')"

definition second :: int where
  "second = 1000000000"

text \<open>
  \<open>signs ca k t\<close>: at time \<open>t\<close> the certificate \<open>ca\<close> is a certificate authority in force, for
  signatures of the key \<open>k\<close>. The laws: the encodings of parsed certificates and of keys
  can be read back; a certificate that was created for a key fits that key, and is
  accepted below an authority for the hosts and in the period of its template, which is
  stored in whole seconds; a new self-signed root is an authority for ten years. Nothing is
  said of roots that others have stored: \<open>root_good\<close> is what has to be known of such a root
  in order that it may sign.
\<close>

definition x509_laws :: "('k, 'c) crypto \<Rightarrow> ('c \<Rightarrow> 'k \<Rightarrow> int \<Rightarrow> bool) \<Rightarrow> int \<Rightarrow> bool" where
  "x509_laws cr signs now \<longleftrightarrow>
     (\<forall>der c. cr_ParseCertificate cr der = Some c \<longrightarrow> cr_Raw cr c = der \<and> cr_pemDecode cr (EncodeCertPEM cr c) = Some der)
     \<and> (\<forall>c. parsed cr c \<longrightarrow> cr_AppendCertsFromPEM cr (EncodeCertPEM cr c) = [c] \<and> cr_ParseCertsPEM cr (EncodeCertPEM cr c) = Some [c])
     \<and> (\<forall>s cs. cr_ParseCertsPEM cr s = Some cs \<longrightarrow> (\<forall>c\<in>set cs. parsed cr c))
     \<and> (\<forall>k. cr_ParsePrivateKeyPEM cr (EncodePrivateKeyPEM cr k) = Some (Some k))
     \<and> (\<forall>tmpl ca k caKey der c. cr_CreateCertificate cr tmpl ca k caKey = Some der \<and> cr_ParseCertificate cr der = Some c \<longrightarrow>
          cr_X509KeyPair cr (EncodeCertPEM cr c) (EncodePrivateKeyPEM cr k)
          \<and> (\<forall>host t. signs ca caKey t \<and> host_matches cr tmpl host \<and> ct_NotBefore tmpl \<le> t \<and> t + second \<le> ct_NotAfter tmpl \<longrightarrow>
               cr_Verify cr c host [ca] t))
     \<and> (\<forall>cn k c. cr_NewSelfSignedCACert cr now cn k = Some c \<longrightarrow>
          parsed cr c \<and> cr_NotBefore cr c \<le> now \<and> (\<forall>t. now \<le> t \<and> t + second \<le> now + tenYears \<longrightarrow> signs c k t))
     \<and> now \<le> cr_AddDate cr now 0 6 \<and> cr_AddDate cr now 0 6 + second \<le> now + tenYears"

definition root_good :: "('k, 'c) crypto \<Rightarrow> ('c \<Rightarrow> 'k \<Rightarrow> int \<Rightarrow> bool) \<Rightarrow> int \<Rightarrow> SelfSignedCertGenerator \<Rightarrow> bool" where
  \<comment> \<open>if the generator is going to sign with its root, the root is an authority in six months' time\<close>
  "root_good cr signs now g \<longleftrightarrow> (\<forall>k c. validCACert cr now g = Some (k, c) \<longrightarrow>
     signs c k (cr_AddDate cr now 0 6) \<and> cr_NotBefore cr c \<le> cr_AddDate cr now 0 6)"

lemma x509_lawsD:
  assumes "x509_laws cr signs now"
  shows "cr_ParseCertificate cr der = Some c \<Longrightarrow> cr_Raw cr c = der \<and> cr_pemDecode cr (EncodeCertPEM cr c) = Some der"
    and "parsed cr c \<Longrightarrow> cr_AppendCertsFromPEM cr (EncodeCertPEM cr c) = [c] \<and> cr_ParseCertsPEM cr (EncodeCertPEM cr c) = Some [c]"
    and "cr_ParseCertsPEM cr s = Some [c] \<Longrightarrow> parsed cr c"
    and "cr_ParsePrivateKeyPEM cr (EncodePrivateKeyPEM cr k) = Some (Some k)"
    and "cr_CreateCertificate cr tmpl ca k caKey = Some der \<Longrightarrow> cr_ParseCertificate cr der = Some c
      \<Longrightarrow> cr_X509KeyPair cr (EncodeCertPEM cr c) (EncodePrivateKeyPEM cr k)"
    and "cr_CreateCertificate cr tmpl ca k caKey = Some der \<Longrightarrow> cr_ParseCertificate cr der = Some c
      \<Longrightarrow> signs ca caKey t \<Longrightarrow> host_matches cr tmpl host \<Longrightarrow> ct_NotBefore tmpl \<le> t \<Longrightarrow> t + second \<le> ct_NotAfter tmpl
      \<Longrightarrow> cr_Verify cr c host [ca] t"
    and "cr_NewSelfSignedCACert cr now cn k = Some c \<Longrightarrow> parsed cr c \<and> cr_NotBefore cr c \<le> now"
    and "cr_NewSelfSignedCACert cr now cn k = Some c \<Longrightarrow> now \<le> t \<Longrightarrow> t + second \<le> now + tenYears \<Longrightarrow> signs c k t"
    and "now \<le> cr_AddDate cr now 0 6" and "cr_AddDate cr now 0 6 + second \<le> now + tenYears"
  using assms unfolding x509_laws_def by (elim conjE; (assumption | meson list.set_intros(1)))+

lemma validCACert_parsed:
  assumes "x509_laws cr signs now" and "validCACert cr now g = Some (k, c)"
  shows "parsed cr c"
  using assms(2) x509_lawsD(3) [OF assms(1)]
  by (auto simp: validCACert_def split: if_splits option.splits list.splits)

lemma signing_pair_signs:
  assumes "x509_laws cr signs now" and "root_good cr signs now g" and "signing_pair cr now rnd g = Inr (k, c)"
  shows "signs c k (cr_AddDate cr now 0 6)" "cr_NotBefore cr c \<le> cr_AddDate cr now 0 6" "parsed cr c"
proof -
  note laws = x509_lawsD [OF assms(1)]
  have "signs c k (cr_AddDate cr now 0 6) \<and> cr_NotBefore cr c \<le> cr_AddDate cr now 0 6 \<and> parsed cr c"
  proof (cases "validCACert cr now g")
    case None
    with assms(3) have n: "cr_NewSelfSignedCACert cr now ''webhook-cert-ca'' k = Some c"
      by (auto simp: signing_pair_def split: option.splits)
    show ?thesis using laws(7) [OF n] laws(8) [OF n, of "cr_AddDate cr now 0 6"] laws(9,10) by auto
  next
    case (Some p)
    with assms(3) have p: "validCACert cr now g = Some (k, c)" by (simp add: signing_pair_def)
    with assms(2) validCACert_parsed [OF assms(1) p] show ?thesis by (simp add: root_good_def)
  qed
  then show "signs c k (cr_AddDate cr now 0 6)" "cr_NotBefore cr c \<le> cr_AddDate cr now 0 6" "parsed cr c" by simp_all
qed

lemma Generate_parts:
  assumes "Generate cr now rnd g commonName = Inr a"
  obtains k c key sc where "signing_pair cr now rnd g = Inr (k, c)" "rn_key rnd = Some key"
    "NewSignedCert cr now (rn_serial rnd) commonName
      (''localhost'' # (case Option.bind (cr_ParseIP cr commonName) (cr_To4 cr) of Some _ \<Rightarrow> [] | None \<Rightarrow> [commonName]))
      (''127.0.0.1'' # (case Option.bind (cr_ParseIP cr commonName) (cr_To4 cr) of Some ip \<Rightarrow> [ip] | None \<Rightarrow> [])) key c k = Inr sc"
    "a = \<lparr>art_Key = Some (EncodePrivateKeyPEM cr key), art_Cert = Some (EncodeCertPEM cr sc),
      art_CAKey = Some (EncodePrivateKeyPEM cr k), art_CACert = Some (EncodeCertPEM cr c), art_ResourceVersion = []\<rparr>"
proof -
  obtain k c where sp: "signing_pair cr now rnd g = Inr (k, c)" using assms by (auto simp: Generate_def split: sum.splits)
  with assms that [OF sp] show thesis by (auto simp: Generate_def Let_def split: option.splits sum.splits)
qed

lemma NewSignedCert_template:
  assumes "NewSignedCert cr now serial commonName dnsNames ips key ca caKey = Inr sc"
  shows "\<exists>tmpl der. cr_CreateCertificate cr tmpl ca key caKey = Some der \<and> cr_ParseCertificate cr der = Some sc
    \<and> ct_DNSNames tmpl = dnsNames \<and> ct_IPAddresses tmpl = ips \<and> ct_NotBefore tmpl = cr_NotBefore cr ca \<and> ct_NotAfter tmpl = now + tenYears"
proof -
  obtain n where n: "serial = Some n" using assms by (cases serial) (simp_all add: NewSignedCert_def)
  let ?tmpl = "\<lparr>ct_CommonName = commonName, ct_DNSNames = dnsNames, ct_IPAddresses = ips, ct_SerialNumber = n,
    ct_NotBefore = cr_NotBefore cr ca, ct_NotAfter = now + tenYears\<rparr>"
  obtain der where "cr_CreateCertificate cr ?tmpl ca key caKey = Some der" "cr_ParseCertificate cr der = Some sc"
    using assms n by (auto simp: NewSignedCert_def Let_def split: if_splits option.splits)
  then show ?thesis by (intro exI [of _ ?tmpl] exI [of _ der]) simp
qed

lemma Generate_verifies:
  assumes laws: "x509_laws cr signs now" and "root_good cr signs now g" and "servable_host cr commonName"
    and gen: "Generate cr now rnd g commonName = Inr a"
  shows "\<exists>key cert caCert. art_Key a = Some key \<and> art_Cert a = Some cert \<and> art_CACert a = Some caCert
    \<and> verify_pem cr key cert caCert commonName (cr_AddDate cr now 0 6)"
proof -
  let ?t = "cr_AddDate cr now 0 6"
  note L = x509_lawsD [OF laws]
  obtain k c key sc where sp: "signing_pair cr now rnd g = Inr (k, c)"
    and sc: "NewSignedCert cr now (rn_serial rnd) commonName
      (''localhost'' # (case Option.bind (cr_ParseIP cr commonName) (cr_To4 cr) of Some _ \<Rightarrow> [] | None \<Rightarrow> [commonName]))
      (''127.0.0.1'' # (case Option.bind (cr_ParseIP cr commonName) (cr_To4 cr) of Some ip \<Rightarrow> [ip] | None \<Rightarrow> [])) key c k = Inr sc"
    and a: "a = \<lparr>art_Key = Some (EncodePrivateKeyPEM cr key), art_Cert = Some (EncodeCertPEM cr sc),
      art_CAKey = Some (EncodePrivateKeyPEM cr k), art_CACert = Some (EncodeCertPEM cr c), art_ResourceVersion = []\<rparr>"
    using Generate_parts [OF gen] by metis
  note s = signing_pair_signs [OF laws assms(2) sp]
  from NewSignedCert_template [OF sc] obtain tmpl der where t: "cr_CreateCertificate cr tmpl c key k = Some der"
      "cr_ParseCertificate cr der = Some sc" "ct_NotBefore tmpl = cr_NotBefore cr c" "ct_NotAfter tmpl = now + tenYears"
    and names: "ct_DNSNames tmpl = ''localhost'' # (case Option.bind (cr_ParseIP cr commonName) (cr_To4 cr) of Some _ \<Rightarrow> [] | None \<Rightarrow> [commonName])"
      "ct_IPAddresses tmpl = ''127.0.0.1'' # (case Option.bind (cr_ParseIP cr commonName) (cr_To4 cr) of Some ip \<Rightarrow> [ip] | None \<Rightarrow> [])"
    by blast
  have host: "host_matches cr tmpl commonName"
    using assms(3) names by (auto simp: host_matches_def servable_host_def split: option.splits)
  have "?t + second \<le> ct_NotAfter tmpl" using L(10) t(4) by simp
  moreover have "ct_NotBefore tmpl \<le> ?t" using s(2) t(3) by simp
  ultimately have "cr_Verify cr sc commonName [c] ?t" "cr_X509KeyPair cr (EncodeCertPEM cr sc) (EncodePrivateKeyPEM cr key)"
    using L(5) [OF t(1,2)] L(6) [OF t(1,2) s(1) host] by blast+
  moreover have "cr_AppendCertsFromPEM cr (EncodeCertPEM cr c) = [c]" using L(2) [OF s(3)] by simp
  moreover have "cr_pemDecode cr (EncodeCertPEM cr sc) = Some der" using L(1) [OF t(2)] by simp
  ultimately have "verify_pem cr (EncodePrivateKeyPEM cr key) (EncodeCertPEM cr sc) (EncodeCertPEM cr c) commonName ?t"
    using t(2) by (simp add: verify_pem_def)
  then show ?thesis by (simp add: a)
qed

text \<open>The root of generated certificates may sign the next ones.\<close>

lemma Generate_root_good:
  assumes laws: "x509_laws cr signs now" and "root_good cr signs now g" and gen: "Generate cr now rnd g commonName = Inr a"
    and "art_CAKey a = Some caKey" and "art_CACert a = Some caCert"
  shows "root_good cr signs now (SetCA caKey caCert g')"
proof -
  note L = x509_lawsD [OF laws]
  obtain k c where sp: "signing_pair cr now rnd g = Inr (k, c)" and a: "caKey = EncodePrivateKeyPEM cr k" "caCert = EncodeCertPEM cr c"
    using Generate_parts [OF gen] assms(4,5) by (metis Artifacts.select_convs(3,4) option.inject)
  note s = signing_pair_signs [OF laws assms(2) sp]
  have "cr_ParsePrivateKeyPEM cr caKey = Some (Some k)" "cr_ParseCertsPEM cr caCert = Some [c]"
    using L(4) [of k] L(2) [OF s(3)] by (simp_all add: a)
  then have "k' = k \<and> c' = c" if "validCACert cr now (SetCA caKey caCert g') = Some (k', c')" for k' c'
    using that by (auto simp: validCACert_def SetCA_def split: if_splits)
  with s show ?thesis unfolding root_good_def by blast
qed

lemma new_generator_good: "root_good cr signs now new_generator"
  by (simp add: root_good_def validCACert_def ValidCACert_def new_generator_def)

end
