(* ===== verification/File_System.thy ===== *)
theory File_System
  imports Prelude "HOL-Library.State_Monad"
begin

section \<open>A directory with symbolic links (\<^verbatim>\<open>os\<close>, \<^verbatim>\<open>io/ioutil\<close>)\<close>

text \<open>
  The part of the file system below one directory, as far as the certificate writer uses
  it. A path is the list of its components relative to that directory; the empty path is
  the directory itself. Link targets are relative. Resolving a path follows links, with
  the kernel's bound on their number.

  A program runs in the state monad over a \<open>world\<close>: the files and a schedule that says
  which of the following changing calls fail for an outside reason (full disk, lost
  permission). A crash is a schedule by which every call fails from some point on: what the
  program then still does has no effect. Reading calls fail only for reasons found in the
  file system. \<open>ensures\<close> is the Hoare triple of such programs; its first argument says
  whether outside failures are admitted.
\<close>

subsection \<open>Files and paths\<close>

type_synonym path = "string list"

datatype node = FileN string int | DirN | LinkN path

type_synonym fs = "(path, node) gomap"

datatype errno = ENOENT | ENOTDIR | EEXIST | EISDIR | EINVAL | ENOTEMPTY | ELOOP | EIO

definition maxLinks :: nat where
  "maxLinks = 40"

fun walk :: "nat \<Rightarrow> fs \<Rightarrow> path \<Rightarrow> path \<Rightarrow> errno + path" where
  \<comment> \<open>from the resolved directory \<open>cur\<close> on\<close>
  "walk n fs cur [] = Inr cur"
| "walk n fs cur (c # cs) =
     (case map_of fs cur of
        None \<Rightarrow> Inl ENOENT
      | Some DirN \<Rightarrow>
          (case map_of fs (cur @ [c]) of
             None \<Rightarrow> Inl ENOENT
           | Some (LinkN t) \<Rightarrow> (case n of 0 \<Rightarrow> Inl ELOOP | Suc m \<Rightarrow> walk m fs cur (t @ cs))
           | Some _ \<Rightarrow> walk n fs (cur @ [c]) cs)
      | Some _ \<Rightarrow> Inl ENOTDIR)"

definition locate :: "fs \<Rightarrow> path \<Rightarrow> errno + path" where
  \<comment> \<open>resolves all but the last component\<close>
  "locate fs p =
     (if p = [] then Inr []
      else (case walk maxLinks fs [] (butlast p) of
              Inl e \<Rightarrow> Inl e
            | Inr d \<Rightarrow> (case map_of fs d of
                          None \<Rightarrow> Inl ENOENT
                        | Some DirN \<Rightarrow> Inr (d @ [last p])
                        | Some _ \<Rightarrow> Inl ENOTDIR)))"

fun create_target :: "nat \<Rightarrow> fs \<Rightarrow> path \<Rightarrow> errno + path" where
  \<comment> \<open>the file that opening for writing creates or changes: links at the end are followed\<close>
  "create_target n fs p =
     (case locate fs p of
        Inl e \<Rightarrow> Inl e
      | Inr q \<Rightarrow> (case map_of fs q of
                    Some (LinkN t) \<Rightarrow> (case n of 0 \<Rightarrow> Inl ELOOP | Suc m \<Rightarrow> create_target m fs (butlast q @ t))
                  | _ \<Rightarrow> Inr q))"

declare create_target.simps [simp del]

definition node_at :: "fs \<Rightarrow> errno + path \<Rightarrow> errno + node" where
  "node_at fs r =
     (case r of Inl e \<Rightarrow> Inl e | Inr q \<Rightarrow> (case map_of fs q of None \<Rightarrow> Inl ENOENT | Some nd \<Rightarrow> Inr nd))"

subsection \<open>Calls\<close>

definition stat_f :: "path \<Rightarrow> fs \<Rightarrow> errno + node" where
  "stat_f p fs = node_at fs (walk maxLinks fs [] p)"

definition lstat_f :: "path \<Rightarrow> fs \<Rightarrow> errno + node" where
  "lstat_f p fs = node_at fs (locate fs p)"

definition readlink_f :: "path \<Rightarrow> fs \<Rightarrow> errno + path" where
  "readlink_f p fs =
     (case lstat_f p fs of Inl e \<Rightarrow> Inl e | Inr (LinkN t) \<Rightarrow> Inr t | Inr _ \<Rightarrow> Inl EINVAL)"

definition readFile_f :: "path \<Rightarrow> fs \<Rightarrow> errno + string" where
  "readFile_f p fs =
     (case stat_f p fs of Inl e \<Rightarrow> Inl e | Inr (FileN d m) \<Rightarrow> Inr d | Inr _ \<Rightarrow> Inl EISDIR)"

definition put_new :: "node \<Rightarrow> path \<Rightarrow> fs \<Rightarrow> errno + fs" where
  "put_new nd p fs =
     (case locate fs p of
        Inl e \<Rightarrow> Inl e
      | Inr q \<Rightarrow> if map_of fs q \<noteq> None then Inl EEXIST else Inr (AList.update q nd fs))"

definition mkdir_f :: "path \<Rightarrow> fs \<Rightarrow> errno + fs" where
  "mkdir_f = put_new DirN"

definition symlink_f :: "path \<Rightarrow> path \<Rightarrow> fs \<Rightarrow> errno + fs" where
  "symlink_f t = put_new (LinkN t)"

definition open_f :: "int \<Rightarrow> path \<Rightarrow> fs \<Rightarrow> errno + fs" where
  \<comment> \<open>create or truncate; \<open>mode\<close> is the mode of a new file\<close>
  "open_f mode p fs =
     (case create_target maxLinks fs p of
        Inl e \<Rightarrow> Inl e
      | Inr q \<Rightarrow> (case map_of fs q of
                    None \<Rightarrow> Inr (AList.update q (FileN '''' mode) fs)
                  | Some (FileN d m) \<Rightarrow> Inr (AList.update q (FileN '''' m) fs)
                  | Some _ \<Rightarrow> Inl EISDIR))"

definition write_f :: "string \<Rightarrow> path \<Rightarrow> fs \<Rightarrow> errno + fs" where
  \<comment> \<open>to the file just opened\<close>
  "write_f d p fs =
     (case create_target maxLinks fs p of
        Inl e \<Rightarrow> Inl e
      | Inr q \<Rightarrow> (case map_of fs q of
                    None \<Rightarrow> Inl ENOENT
                  | Some (FileN _ m) \<Rightarrow> Inr (AList.update q (FileN d m) fs)
                  | Some _ \<Rightarrow> Inl EISDIR))"

definition chmod_f :: "int \<Rightarrow> path \<Rightarrow> fs \<Rightarrow> errno + fs" where
  \<comment> \<open>modes of directories are not kept\<close>
  "chmod_f mode p fs =
     (case walk maxLinks fs [] p of
        Inl e \<Rightarrow> Inl e
      | Inr q \<Rightarrow> (case map_of fs q of
                    None \<Rightarrow> Inl ENOENT
                  | Some (FileN d m) \<Rightarrow> Inr (AList.update q (FileN d mode) fs)
                  | Some _ \<Rightarrow> Inr fs))"

definition rename_f :: "path \<Rightarrow> path \<Rightarrow> fs \<Rightarrow> errno + fs" where
  \<comment> \<open>of a file or link; directories are never renamed\<close>
  "rename_f p q fs =
     (case locate fs p of
        Inl e \<Rightarrow> Inl e
      | Inr p' \<Rightarrow>
          (case locate fs q of
             Inl e \<Rightarrow> Inl e
           | Inr q' \<Rightarrow>
               (case map_of fs p' of
                  None \<Rightarrow> Inl ENOENT
                | Some DirN \<Rightarrow> Inl EINVAL
                | Some nd \<Rightarrow> if map_of fs q' = Some DirN then Inl EISDIR
                              else if p' = q' then Inr fs
                              else Inr (AList.update q' nd (AList.delete p' fs)))))"

definition below :: "path \<Rightarrow> fs \<Rightarrow> path list" where
  \<comment> \<open>the entries at and below a path, parents first\<close>
  "below p fs = sort_key length (filter (prefix p) (remdups (map fst fs)))"

definition remove_f :: "path \<Rightarrow> fs \<Rightarrow> errno + fs" where
  "remove_f p fs =
     (case locate fs p of
        Inl e \<Rightarrow> Inl e
      | Inr q \<Rightarrow> (case map_of fs q of
                    None \<Rightarrow> Inl ENOENT
                  | Some DirN \<Rightarrow> if below q fs = [q] then Inr (AList.delete q fs) else Inl ENOTEMPTY
                  | Some _ \<Rightarrow> Inr (AList.delete q fs)))"

subsection \<open>Programs\<close>

record world =
  w_fs :: fs
  w_sched :: "nat \<Rightarrow> errno option"
  w_tick :: nat

definition reads :: "(fs \<Rightarrow> 'a) \<Rightarrow> ('z world_scheme, 'a) state" where
  "reads f = State (\<lambda>w. (f (w_fs w), w))"

definition writes :: "(fs \<Rightarrow> errno + fs) \<Rightarrow> ('z world_scheme, errno option) state" where
  "writes f = State (\<lambda>w.
     (let w' = w\<lparr>w_tick := Suc (w_tick w)\<rparr> in
      case w_sched w (w_tick w) of
        Some e \<Rightarrow> (Some e, w')
      | None \<Rightarrow> (case f (w_fs w) of Inl e \<Rightarrow> (Some e, w') | Inr fs \<Rightarrow> (None, w'\<lparr>w_fs := fs\<rparr>))))"

abbreviation ret :: "'a \<Rightarrow> ('s, 'a) state" where
  "ret \<equiv> State_Monad.return"

definition then_ok :: "('s, 'e option) state \<Rightarrow> ('s, 'e option) state \<Rightarrow> ('s, 'e option) state" where
  \<comment> \<open>\<^verbatim>\<open>if err != nil { return err }\<close>\<close>
  "then_ok m k = do { r \<leftarrow> m; (case r of Some e \<Rightarrow> ret (Some e) | None \<Rightarrow> k) }"

fun each :: "('a \<Rightarrow> ('s, 'e option) state) \<Rightarrow> 'a list \<Rightarrow> ('s, 'e option) state" where
  \<comment> \<open>a loop that returns at the first error\<close>
  "each f [] = ret None"
| "each f (x # xs) = then_ok (f x) (each f xs)"

fun each_all :: "('a \<Rightarrow> ('s, 'e option) state) \<Rightarrow> 'a list \<Rightarrow> 'e option \<Rightarrow> ('s, 'e option) state" where
  \<comment> \<open>a loop that goes on after errors and keeps the last one\<close>
  "each_all f [] lasterr = ret lasterr"
| "each_all f (x # xs) lasterr = do { r \<leftarrow> f x; each_all f xs (if r = None then lasterr else r) }"

fun MkdirAll_rev :: "path \<Rightarrow> ('z world_scheme, errno option) state" where
  \<comment> \<open>the path is given from its last component on\<close>
  "MkdirAll_rev [] = do {
     r \<leftarrow> reads (stat_f []);
     (case r of Inr DirN \<Rightarrow> ret None | Inr _ \<Rightarrow> ret (Some ENOTDIR) | Inl _ \<Rightarrow> writes (mkdir_f [])) }"
| "MkdirAll_rev (c # p) = do {
     r \<leftarrow> reads (stat_f (rev (c # p)));
     (case r of
        Inr DirN \<Rightarrow> ret None
      | Inr _ \<Rightarrow> ret (Some ENOTDIR)
      | Inl _ \<Rightarrow> then_ok (MkdirAll_rev p) (do {
          r \<leftarrow> writes (mkdir_f (rev (c # p)));
          l \<leftarrow> reads (lstat_f (rev (c # p)));
          ret (if r \<noteq> None \<and> l \<noteq> Inr DirN then r else None) })) }"

definition MkdirAll :: "path \<Rightarrow> ('z world_scheme, errno option) state" where
  "MkdirAll p = MkdirAll_rev (rev p)"

definition WriteFile :: "(int \<Rightarrow> int) \<Rightarrow> path \<Rightarrow> string \<Rightarrow> int \<Rightarrow> ('z world_scheme, errno option) state" where
  \<comment> \<open>\<open>masked\<close> applies the process's umask\<close>
  "WriteFile masked p d mode = then_ok (writes (open_f (masked mode) p)) (writes (write_f d p))"

definition RemoveAll :: "path \<Rightarrow> ('z world_scheme, errno option) state" where
  \<comment> \<open>children before parents; nothing to remove is no error\<close>
  "RemoveAll p = do { ps \<leftarrow> reads (below p); each_all (\<lambda>q. writes (remove_f q)) (rev ps) None }"

fun TempDir :: "string \<Rightarrow> string list \<Rightarrow> ('z world_scheme, errno + string) state" where
  \<comment> \<open>the list holds the random suffixes that are tried\<close>
  "TempDir pre [] = ret (Inl EEXIST)"
| "TempDir pre (x # xs) = do {
     r \<leftarrow> writes (mkdir_f [pre @ x]);
     (case r of None \<Rightarrow> ret (Inr (pre @ x)) | Some EEXIST \<Rightarrow> TempDir pre xs | Some e \<Rightarrow> ret (Inl e)) }"

subsection \<open>Triples\<close>

definition ensures :: "bool \<Rightarrow> (fs \<Rightarrow> bool) \<Rightarrow> ('z world_scheme, 'a) state \<Rightarrow> ('a \<Rightarrow> fs \<Rightarrow> bool) \<Rightarrow> bool" where
  "ensures faulty P m Q \<longleftrightarrow> (\<forall>w. (faulty \<or> w_sched w = (\<lambda>_. None)) \<and> P (w_fs w) \<longrightarrow>
     (case run_state m w of (x, w') \<Rightarrow> Q x (w_fs w') \<and> w_sched w' = w_sched w \<and> world.more w' = world.more w))"

lemma ensuresD:
  assumes "ensures faulty P m Q" and "run_state m w = (x, w')" and "P (w_fs w)" and "faulty \<or> w_sched w = (\<lambda>_. None)"
  shows "Q x (w_fs w')" "w_sched w' = w_sched w" "world.more w' = world.more w"
  using assms(1) [unfolded ensures_def, rule_format, OF conjI, OF assms(4,3)] by (auto simp: assms(2))

lemma ens_conseq:
  assumes "ensures faulty P m Q" and "\<And>fs. P' fs \<Longrightarrow> P fs" and "\<And>x fs. Q x fs \<Longrightarrow> Q' x fs"
  shows "ensures faulty P' m Q'"
  using assms unfolding ensures_def by (fastforce split: prod.splits)

lemma ens_ret: "(\<And>fs. P fs \<Longrightarrow> Q x fs) \<Longrightarrow> ensures faulty P (ret x) Q"
  by (simp add: ensures_def)

lemma ens_bind:
  fixes m :: "('z world_scheme, 'a) state"
  assumes "ensures faulty P m R" and "\<And>x. ensures faulty (R x) (f x) Q"
  shows "ensures faulty P (State_Monad.bind m f) Q"
  unfolding ensures_def
proof (intro allI impI)
  fix w :: "'z world_scheme"
  assume w: "(faulty \<or> w_sched w = (\<lambda>_. None)) \<and> P (w_fs w)"
  obtain x w1 where m: "run_state m w = (x, w1)" by (cases "run_state m w") auto
  obtain y w2 where f: "run_state (f x) w1 = (y, w2)" by (cases "run_state (f x) w1") auto
  note a = ensuresD [OF assms(1) m]
  have "Q y (w_fs w2) \<and> w_sched w2 = w_sched w1 \<and> world.more w2 = world.more w1"
    using ensuresD [OF assms(2) f] a w by simp
  with a w m f show "case run_state (State_Monad.bind m f) w of (x, w') \<Rightarrow> Q x (w_fs w') \<and> w_sched w' = w_sched w \<and> world.more w' = world.more w"
    by simp
qed

lemma ens_reads: "(\<And>fs. P fs \<Longrightarrow> Q (f fs) fs) \<Longrightarrow> ensures faulty P (reads f) Q"
  by (simp add: ensures_def reads_def)

lemma ens_reads_bind:
  assumes "\<And>x. ensures faulty (\<lambda>fs. P fs \<and> x = f fs) (g x) Q"
  shows "ensures faulty P (State_Monad.bind (reads f) g) Q"
  by (rule ens_bind [where R = "\<lambda>x fs. P fs \<and> x = f fs", OF ens_reads]) (simp_all add: assms)

lemma ens_writes:
  assumes "\<And>fs e. P fs \<Longrightarrow> f fs = Inl e \<Longrightarrow> Q (Some e) fs" and "\<And>fs fs'. P fs \<Longrightarrow> f fs = Inr fs' \<Longrightarrow> Q None fs'"
    and "\<And>fs e. P fs \<Longrightarrow> faulty \<Longrightarrow> Q (Some e) fs"
  shows "ensures faulty P (writes f) Q"
  using assms by (auto simp: ensures_def writes_def Let_def split: option.splits sum.splits)

lemma ens_then_ok:
  assumes "ensures faulty P m (\<lambda>r fs. case r of Some e \<Rightarrow> Q (Some e) fs | None \<Rightarrow> R fs)" and "ensures faulty R k Q"
  shows "ensures faulty P (then_ok m k) Q"
  unfolding then_ok_def
  by (rule ens_bind [OF assms(1)]) (auto split: option.split intro: ens_ret assms(2))

lemma ens_each:
  assumes "\<And>zs x xs. ys = zs @ x # xs \<Longrightarrow>
      ensures faulty (I (x # xs)) (f x) (\<lambda>r fs. case r of Some e \<Rightarrow> Q (Some e) fs | None \<Rightarrow> I xs fs)"
    and "\<And>fs. I [] fs \<Longrightarrow> Q None fs"
  shows "ensures faulty (I ys) (each f ys) Q"
proof -
  have "ys = zs @ xs \<Longrightarrow> ensures faulty (I xs) (each f xs) Q" for zs xs
  proof (induction xs arbitrary: zs)
    case Nil
    then show ?case by (simp add: ens_ret assms(2))
  next
    case (Cons x xs)
    show ?case unfolding each.simps
      by (rule ens_then_ok [OF assms(1) [OF Cons.prems] Cons.IH [of "zs @ [x]"]]) (simp add: Cons.prems)
  qed
  from this [of "[]"] show ?thesis by simp
qed

lemma ens_each_all:
  assumes "\<And>x r. x \<in> set ys \<Longrightarrow> ensures faulty I (f x) (\<lambda>r. I)"
  shows "ensures faulty I (each_all f ys r) (\<lambda>r. I)"
  using assms
proof (induction ys arbitrary: r)
  case Nil
  then show ?case by (simp add: ens_ret)
next
  case (Cons x xs)
  show ?case unfolding each_all.simps by (rule ens_bind [OF Cons.prems Cons.IH]) (simp_all add: Cons.prems)
qed

subsection \<open>Trees with links at the top only\<close>

definition tree_ok :: "fs \<Rightarrow> bool" where
  "tree_ok fs \<longleftrightarrow> map_of fs [] = Some DirN \<and> (\<forall>p c. map_of fs (p @ [c]) \<noteq> None \<longrightarrow> map_of fs p = Some DirN)
     \<and> (\<forall>p t. map_of fs p = Some (LinkN t) \<longrightarrow> length p = 1)"

lemma tree_root: "tree_ok fs \<Longrightarrow> map_of fs [] = Some DirN"
  by (simp add: tree_ok_def)

lemma tree_link: "tree_ok fs \<Longrightarrow> map_of fs p = Some (LinkN t) \<Longrightarrow> length p = 1"
  by (simp add: tree_ok_def)

lemma tree_snoc: "tree_ok fs \<Longrightarrow> map_of fs (p @ [c]) \<noteq> None \<Longrightarrow> map_of fs p = Some DirN"
  unfolding tree_ok_def by blast

lemma tree_parent:
  assumes "tree_ok fs" and "map_of fs (p @ q) \<noteq> None" and "q \<noteq> []"
  shows "map_of fs p = Some DirN"
  using assms(2,3)
proof (induction q rule: rev_induct)
  case (snoc c q)
  have "map_of fs (p @ q) = Some DirN"
    using tree_snoc [OF assms(1), of "p @ q" c] snoc.prems(1) by simp
  then show ?case using snoc.IH by (cases "q = []") auto
qed simp

lemma tree_okI:
  assumes "map_of fs [] = Some DirN" and "\<And>p c nd. map_of fs (p @ [c]) = Some nd \<Longrightarrow> map_of fs p = Some DirN"
    and "\<And>p t. map_of fs p = Some (LinkN t) \<Longrightarrow> length p = 1"
  shows "tree_ok fs"
  using assms unfolding tree_ok_def by blast

lemma tree_update:
  assumes "tree_ok fs" and "q = p @ [c]" and "map_of fs p = Some DirN" and "nd = DirN \<or> map_of fs q \<noteq> Some DirN"
    and "\<And>t. nd = LinkN t \<Longrightarrow> length q = 1"
  shows "tree_ok (AList.update q nd fs)"
proof (rule tree_okI)
  show "map_of (AList.update q nd fs) [] = Some DirN" using assms(1,2) by (simp add: update_conv' tree_root)
next
  fix r d x
  assume a: "map_of (AList.update q nd fs) (r @ [d]) = Some x"
  show "map_of (AList.update q nd fs) r = Some DirN"
  proof (cases "r @ [d] = q")
    case True
    then show ?thesis using assms(2,3) by (simp add: update_conv')
  next
    case False
    with a have "map_of fs (r @ [d]) \<noteq> None" by (simp add: update_conv')
    from tree_snoc [OF assms(1) this] assms(4) show ?thesis by (auto simp: update_conv')
  qed
next
  fix r t
  assume "map_of (AList.update q nd fs) r = Some (LinkN t)"
  then show "length r = 1" using assms(5) tree_link [OF assms(1), of r t] by (auto simp: update_conv' split: if_splits)
qed

lemma set_below: "set (below p fs) = {q. prefix p q \<and> map_of fs q \<noteq> None}"
  by (auto simp: below_def map_of_eq_None_iff)

lemma distinct_below: "distinct (below p fs)"
  by (simp add: below_def)

lemma below_single: "below q fs = [q] \<Longrightarrow> prefix q r \<Longrightarrow> map_of fs r \<noteq> None \<Longrightarrow> r = q"
  using set_below [of q fs] by auto

lemma tree_delete:
  assumes "tree_ok fs" and "q \<noteq> []" and "map_of fs q = Some DirN \<Longrightarrow> below q fs = [q]"
  shows "tree_ok (AList.delete q fs)"
proof -
  have leaf: "map_of fs (q @ [c]) = None" for c
  proof (rule ccontr)
    assume a: "map_of fs (q @ [c]) \<noteq> None"
    with tree_snoc [OF assms(1)] have "map_of fs q = Some DirN" by blast
    from below_single [OF assms(3) [OF this] _ a] show False by simp
  qed
  show ?thesis
  proof (rule tree_okI)
    show "map_of (AList.delete q fs) [] = Some DirN" using assms(1,2) by (simp add: delete_conv' tree_root)
  next
    fix r d x
    assume "map_of (AList.delete q fs) (r @ [d]) = Some x"
    then have "map_of fs (r @ [d]) \<noteq> None" by (simp add: delete_conv' split: if_splits)
    with tree_snoc [OF assms(1) this] leaf show "map_of (AList.delete q fs) r = Some DirN" by (auto simp: delete_conv')
  next
    fix r t
    assume "map_of (AList.delete q fs) r = Some (LinkN t)"
    then show "length r = 1" using tree_link [OF assms(1), of r t] by (simp add: delete_conv' split: if_splits)
  qed
qed

lemma walk_plain:
  assumes "tree_ok fs" and "cur \<noteq> []" and "map_of fs (cur @ p) \<noteq> None"
  shows "walk n fs cur p = Inr (cur @ p)"
  using assms(2,3)
proof (induction p arbitrary: cur)
  case (Cons c p)
  have d: "map_of fs cur = Some DirN" using tree_parent [OF assms(1) Cons.prems(2)] by simp
  obtain nd where nd: "map_of fs (cur @ [c]) = Some nd"
    using tree_parent [OF assms(1), of "cur @ [c]" p] Cons.prems(2) by (cases p) auto
  have "nd \<noteq> LinkN t" for t using tree_link [OF assms(1), of "cur @ [c]" t] nd Cons.prems(1) by auto
  then show ?case using Cons.IH [of "cur @ [c]"] Cons.prems d nd by (cases nd) auto
qed simp

lemma walk_plain_only:
  assumes "tree_ok fs" and "cur \<noteq> []" and "walk n fs cur p = Inr q"
  shows "q = cur @ p"
  using assms(2,3)
proof (induction p arbitrary: cur)
  case (Cons c p)
  have "map_of fs (cur @ [c]) \<noteq> Some (LinkN t)" for t
    using tree_link [OF assms(1), of "cur @ [c]" t] Cons.prems(1) by auto
  then show ?case using Cons.IH [of "cur @ [c]"] Cons.prems by (auto split: option.splits node.splits)
qed simp

lemma node_at_walk_plain:
  assumes "tree_ok fs" and "cur \<noteq> []"
  shows "(\<exists>e. node_at fs (walk n fs cur p) = Inl e \<and> map_of fs (cur @ p) = None)
    \<or> (\<exists>nd. node_at fs (walk n fs cur p) = Inr nd \<and> map_of fs (cur @ p) = Some nd)"
proof (cases "map_of fs (cur @ p)")
  case None
  then show ?thesis using walk_plain_only [OF assms, of n p]
    by (cases "walk n fs cur p") (auto simp: node_at_def)
next
  case (Some nd)
  then show ?thesis using walk_plain [OF assms, of p n] by (simp add: node_at_def)
qed

lemma walk_into_dir:
  assumes "tree_ok fs" and "map_of fs [t] = Some DirN"
  shows "walk n fs [] (t # p) = walk n fs [t] p"
  using assms by (simp add: tree_root)

lemma locate_top: "tree_ok fs \<Longrightarrow> locate fs [n] = Inr [n]"
  by (simp add: locate_def tree_root)

lemma locate_under:
  assumes "tree_ok fs" and "map_of fs [t] = Some DirN" and "locate fs (t # p) = Inr q"
  shows "q = t # p \<and> (p \<noteq> [] \<longrightarrow> map_of fs (t # butlast p) = Some DirN)"
proof (cases "p = []")
  case True
  then show ?thesis using assms locate_top [of fs t] by simp
next
  case False
  then have w: "walk maxLinks fs [] (butlast (t # p)) = walk maxLinks fs [t] (butlast p)"
    using walk_into_dir [OF assms(1,2)] by simp
  from assms(3) False obtain d where d: "walk maxLinks fs [t] (butlast p) = Inr d" "map_of fs d = Some DirN" "q = d @ [last p]"
    unfolding locate_def w by (auto split: sum.splits option.splits node.splits)
  have "d = t # butlast p" using walk_plain_only [OF assms(1) _ d(1)] by simp
  with d False show ?thesis by simp
qed

lemma locate_in:
  assumes "tree_ok fs" and "map_of fs [t] = Some DirN" and "p \<noteq> [] \<Longrightarrow> map_of fs (t # butlast p) = Some DirN"
  shows "locate fs (t # p) = Inr (t # p)"
proof (cases "p = []")
  case True
  then show ?thesis using locate_top [OF assms(1)] by simp
next
  case False
  then have "walk maxLinks fs [] (butlast (t # p)) = Inr (t # butlast p)"
    using walk_into_dir [OF assms(1,2)] walk_plain [OF assms(1), of "[t]" "butlast p"] assms(3) by simp
  then show ?thesis using False assms(3) by (simp add: locate_def)
qed

lemma create_target_under:
  assumes "tree_ok fs" and "map_of fs [t] = Some DirN"
  shows "create_target n fs (t # p) = locate fs (t # p)"
proof (cases "locate fs (t # p)")
  case (Inr q)
  have "map_of fs q \<noteq> Some (LinkN l)" for l
    using locate_under [OF assms Inr] tree_link [OF assms(1), of q l] assms(2) by (cases p) auto
  then show ?thesis using Inr by (simp add: create_target.simps split: option.splits node.splits)
qed (simp add: create_target.simps)

end
