(* ===== verification/Atomic_Writer.thy ===== *)
theory Atomic_Writer
  imports File_System
begin

section \<open>The atomic writer (\<^verbatim>\<open>webhook/util/writer/atomic/atomic_writer.go\<close>)\<close>

text \<open>
  The writer projects a set of files into a directory: the visible names are links into
  \<^verbatim>\<open>..data\<close>, which is a link to a time-stamped directory with the contents; an update
  writes a new time-stamped directory and renames the link. Paths are those of
  \<open>File_System\<close>, relative to the target directory; a clean path is the list of its
  components, and \<^verbatim>\<open>"."\<close> is the empty list. A \<^verbatim>\<open>range\<close> loop over the payload visits it
  in the order of the list.
\<close>

subsection \<open>Validation\<close>

record FileProjection =
  fp_Data :: string
  fp_Mode :: int

type_synonym payload = "(path, FileProjection) gomap"

definition maxFileNameLength :: nat where
  "maxFileNameLength = 255"

definition maxPathLength :: nat where
  "maxPathLength = 4096"

definition dataDirName :: string where
  "dataDirName = ''..data''"

definition newDataDirName :: string where
  "newDataDirName = ''..data_tmp''"

datatype path_error = PathEmpty | PathAbsolute | PathTooLong | PathDotDot | NameTooLong | PathReserved

definition validateItem :: "string \<Rightarrow> path_error option" where
  "validateItem item =
     (if item = ''..'' then Some PathDotDot
      else if length item > maxFileNameLength then Some NameTooLong else None)"

definition validatePath :: "string \<Rightarrow> path_error option" where
  "validatePath targetPath =
     (if targetPath = '''' then Some PathEmpty
      else if hasPrefix targetPath ''/'' then Some PathAbsolute
      else if length targetPath > maxPathLength then Some PathTooLong
      else (let items = split_on CHR ''/'' targetPath in
            case first_error validateItem items of
              Some e \<Rightarrow> Some e
            | None \<Rightarrow> if hasPrefix (hd items) ''..'' \<and> length (hd items) > 2 then Some PathReserved else None))"

definition clean_path :: "string \<Rightarrow> path" where
  \<comment> \<open>\<^verbatim>\<open>filepath.Clean\<close> of a relative path without \<^verbatim>\<open>..\<close> components\<close>
  "clean_path s = filter (\<lambda>c. c \<noteq> '''' \<and> c \<noteq> ''.'') (split_on CHR ''/'' s)"

fun validatePayload_loop :: "(string, FileProjection) gomap \<Rightarrow> payload \<Rightarrow> path_error + payload" where
  "validatePayload_loop [] cleanPayload = Inr cleanPayload"
| "validatePayload_loop ((k, content) # kvs) cleanPayload =
     (case validatePath k of
        Some e \<Rightarrow> Inl e
      | None \<Rightarrow> validatePayload_loop kvs (AList.update (clean_path k) content cleanPayload))"

definition validatePayload :: "(string, FileProjection) gomap \<Rightarrow> path_error + payload" where
  "validatePayload payload = validatePayload_loop payload []"

subsection \<open>Is an update needed?\<close>

definition shouldWriteFile :: "path \<Rightarrow> string \<Rightarrow> fs \<Rightarrow> errno + bool" where
  "shouldWriteFile p content fs =
     (if lstat_f p fs = Inl ENOENT then Inr True
      else (case readFile_f p fs of
              Inl e \<Rightarrow> Inl e
            | Inr contentOnFs \<Rightarrow> Inr (content \<noteq> contentOnFs)))"

fun shouldWritePayload :: "payload \<Rightarrow> path \<Rightarrow> fs \<Rightarrow> errno + bool" where
  "shouldWritePayload [] oldTsDir fs = Inr False"
| "shouldWritePayload ((userVisiblePath, fileProjection) # ps) oldTsDir fs =
     (case shouldWriteFile (oldTsDir @ userVisiblePath) (fp_Data fileProjection) fs of
        Inl e \<Rightarrow> Inl e
      | Inr shouldWrite \<Rightarrow> if shouldWrite then Inr True else shouldWritePayload ps oldTsDir fs)"

definition subPaths :: "path \<Rightarrow> path list" where
  \<comment> \<open>a path and its parents\<close>
  "subPaths file = rev (tl (prefixes file))"

definition pathsToRemove :: "payload \<Rightarrow> path \<Rightarrow> fs \<Rightarrow> path list" where
  \<comment> \<open>the visitor ignores errors, so the walk never fails\<close>
  "pathsToRemove payload oldTsDir fs =
     (let paths = filter (\<lambda>q. q \<noteq> []) (map (drop (length oldTsDir)) (below oldTsDir fs));
          newPaths = concat (map (subPaths \<circ> fst) payload) in
      filter (\<lambda>q. q \<notin> set newPaths) paths)"

subsection \<open>The steps of an update\<close>

definition newTimestampDir :: "string \<Rightarrow> string list \<Rightarrow> ('z world_scheme, errno + string) state" where
  \<comment> \<open>\<open>stamp\<close> is the formatted time, \<open>rnd\<close> the random suffixes of \<^verbatim>\<open>TempDir\<close>\<close>
  "newTimestampDir stamp rnd = do {
     r \<leftarrow> TempDir (''..'' @ stamp @ ''.'') rnd;
     (case r of
        Inl e \<Rightarrow> ret (Inl e)
      | Inr tsDir \<Rightarrow> do {
          c \<leftarrow> writes (chmod_f 493 [tsDir]);
          ret (case c of Some e \<Rightarrow> Inl e | None \<Rightarrow> Inr tsDir) }) }"

definition writeProjection ::
    "(int \<Rightarrow> int) \<Rightarrow> path \<Rightarrow> path \<times> FileProjection \<Rightarrow> ('z world_scheme, errno option) state" where
  \<comment> \<open>an error of \<^verbatim>\<open>Chmod\<close> is only logged\<close>
  "writeProjection masked dir pf =
     (case pf of (userVisiblePath, fileProjection) \<Rightarrow>
        let fullPath = dir @ userVisiblePath in
        then_ok (MkdirAll (butlast fullPath))
          (then_ok (WriteFile masked fullPath (fp_Data fileProjection) (fp_Mode fileProjection))
             (do { _ \<leftarrow> writes (chmod_f (fp_Mode fileProjection) fullPath); ret None })))"

definition writePayloadToDir :: "(int \<Rightarrow> int) \<Rightarrow> payload \<Rightarrow> path \<Rightarrow> ('z world_scheme, errno option) state" where
  "writePayloadToDir masked payload dir = each (writeProjection masked dir) payload"

definition createUserVisibleFile :: "path \<times> FileProjection \<Rightarrow> ('z world_scheme, errno option) state" where
  \<comment> \<open>for the path \<^verbatim>\<open>"."\<close> the link name is the directory itself, which is no link\<close>
  "createUserVisibleFile pf =
     (case fst pf of
        [] \<Rightarrow> ret None
      | linkname # _ \<Rightarrow> do {
          l \<leftarrow> reads (readlink_f [linkname]);
          (if l = Inl ENOENT then writes (symlink_f [dataDirName, linkname] [linkname]) else ret None) })"

definition createUserVisibleFiles :: "payload \<Rightarrow> ('z world_scheme, errno option) state" where
  "createUserVisibleFiles payload = each createUserVisibleFile payload"

definition removeUserVisiblePaths :: "path list \<Rightarrow> ('z world_scheme, errno option) state" where
  "removeUserVisiblePaths paths =
     each_all (\<lambda>p. if length p > 1 then ret None else writes (remove_f p)) paths None"

definition swapDataDir :: "bool \<Rightarrow> string \<Rightarrow> ('z world_scheme, errno option) state" where
  "swapDataDir windows tsDirName =
     (if windows then do {
        _ \<leftarrow> writes (remove_f [dataDirName]);
        err \<leftarrow> writes (symlink_f [tsDirName] [dataDirName]);
        _ \<leftarrow> writes (remove_f [newDataDirName]);
        ret err }
      else writes (rename_f [newDataDirName] [dataDirName]))"

definition Write_finish :: "path option \<Rightarrow> path list \<Rightarrow> ('z world_scheme, errno option) state" where
  \<comment> \<open>(10) and (11)\<close>
  "Write_finish oldTs toRemove =
     then_ok (removeUserVisiblePaths toRemove)
       (case oldTs of None \<Rightarrow> ret None | Some oldTsPath \<Rightarrow> RemoveAll oldTsPath)"

definition Write_swap :: "bool \<Rightarrow> string \<Rightarrow> path option \<Rightarrow> path list \<Rightarrow> ('z world_scheme, errno option) state" where
  \<comment> \<open>(8) and (9), then the rest\<close>
  "Write_swap windows tsDirName oldTs toRemove = do {
     r \<leftarrow> writes (symlink_f [tsDirName] [newDataDirName]);
     (case r of
        Some e \<Rightarrow> do { _ \<leftarrow> RemoveAll [tsDirName]; ret (Some e) }
      | None \<Rightarrow> do {
          r \<leftarrow> swapDataDir windows tsDirName;
          (case r of
             Some e \<Rightarrow> do { _ \<leftarrow> writes (remove_f [newDataDirName]); _ \<leftarrow> RemoveAll [tsDirName]; ret (Some e) }
           | None \<Rightarrow> Write_finish oldTs toRemove) }) }"

definition Write_install ::
    "bool \<Rightarrow> (int \<Rightarrow> int) \<Rightarrow> string \<Rightarrow> string list \<Rightarrow> payload \<Rightarrow> path option \<Rightarrow> path list \<Rightarrow> ('z world_scheme, errno option) state" where
  \<comment> \<open>(5) to (11)\<close>
  "Write_install windows masked stamp rnd cleanPayload oldTs toRemove = do {
     t \<leftarrow> newTimestampDir stamp rnd;
     (case t of
        Inl e \<Rightarrow> ret (Some e)
      | Inr tsDirName \<Rightarrow>
          then_ok (writePayloadToDir masked cleanPayload [tsDirName])
            (then_ok (createUserVisibleFiles cleanPayload)
               (Write_swap windows tsDirName oldTs toRemove))) }"

datatype write_error = BadPath path_error | SysError errno

definition Write_clean ::
    "bool \<Rightarrow> (int \<Rightarrow> int) \<Rightarrow> string \<Rightarrow> string list \<Rightarrow> payload \<Rightarrow> ('z world_scheme, errno option) state" where
  \<comment> \<open>from (2) on\<close>
  "Write_clean windows masked stamp rnd cleanPayload = do {
     l \<leftarrow> reads (readlink_f [dataDirName]);
     (case l of
        Inl e \<Rightarrow> if e \<noteq> ENOENT then ret (Some e)
                 else Write_install windows masked stamp rnd cleanPayload None []
      | Inr oldTsDir \<Rightarrow> do {
          toRemove \<leftarrow> reads (pathsToRemove cleanPayload oldTsDir);
          should \<leftarrow> reads (shouldWritePayload cleanPayload oldTsDir);
          (case should of
             Inl e \<Rightarrow> ret (Some e)
           | Inr should \<Rightarrow>
               if \<not> should \<and> toRemove = [] then ret None
               else Write_install windows masked stamp rnd cleanPayload (Some oldTsDir) toRemove) }) }"

definition Write ::
    "bool \<Rightarrow> (int \<Rightarrow> int) \<Rightarrow> string \<Rightarrow> string list \<Rightarrow> (string, FileProjection) gomap \<Rightarrow> ('z world_scheme, write_error option) state" where
  "Write windows masked stamp rnd payload =
     (case validatePayload payload of
        Inl e \<Rightarrow> ret (Some (BadPath e))
      | Inr cleanPayload \<Rightarrow> do {
          r \<leftarrow> Write_clean windows masked stamp rnd cleanPayload;
          ret (map_option SysError r) })"

subsection \<open>What a reader of the directory sees\<close>

definition view :: "fs \<Rightarrow> path \<Rightarrow> string option" where
  "view fs p = (case readFile_f p fs of Inr d \<Rightarrow> Some d | Inl _ \<Rightarrow> None)"

definition reserved :: "string \<Rightarrow> bool" where
  "reserved n \<longleftrightarrow> hasPrefix n ''..''"

definition visible :: "path \<Rightarrow> bool" where
  "visible p \<longleftrightarrow> p \<noteq> [] \<and> \<not> reserved (hd p)"

definition ts_name :: "string \<Rightarrow> bool" where
  "ts_name n \<longleftrightarrow> reserved n \<and> n \<noteq> dataDirName \<and> n \<noteq> newDataDirName"

definition current :: "fs \<Rightarrow> string option" where
  "current fs = (case map_of fs [dataDirName] of Some (LinkN [ts]) \<Rightarrow> Some ts | _ \<Rightarrow> None)"

definition file_at :: "fs \<Rightarrow> path \<Rightarrow> string option" where
  "file_at fs q = (case map_of fs q of Some (FileN d m) \<Rightarrow> Some d | _ \<Rightarrow> None)"

definition data_at :: "fs \<Rightarrow> path \<Rightarrow> string option" where
  "data_at fs p = (case current fs of None \<Rightarrow> None | Some ts \<Rightarrow> file_at fs (ts # p))"

text \<open>
  The state the writer keeps at every moment, whatever fails: visible entries are links
  into the data directory, the data directory is a link to a time-stamped directory, and
  whatever that contains has its visible link. Old time-stamped directories, dangling
  links and a temporary link may be left over.
\<close>

definition dir_ok :: "fs \<Rightarrow> bool" where
  "dir_ok fs \<longleftrightarrow> tree_ok fs
     \<and> (\<forall>n nd. \<not> reserved n \<and> map_of fs [n] = Some nd \<longrightarrow> nd = LinkN [dataDirName, n])
     \<and> (\<forall>n t. ts_name n \<longrightarrow> map_of fs [n] \<noteq> Some (LinkN t))
     \<and> (map_of fs [dataDirName] \<noteq> None \<longrightarrow>
          (\<exists>ts. map_of fs [dataDirName] = Some (LinkN [ts]) \<and> ts_name ts \<and> map_of fs [ts] = Some DirN
             \<and> (\<forall>n. map_of fs [ts, n] \<noteq> None \<longrightarrow> \<not> reserved n \<and> map_of fs [n] \<noteq> None)))"

lemma reserved_names [simp]:
  "reserved dataDirName" "reserved newDataDirName" "dataDirName \<noteq> newDataDirName" "newDataDirName \<noteq> dataDirName"
  by (simp_all add: reserved_def dataDirName_def newDataDirName_def hasPrefix_def)

lemma ts_nameD: "ts_name n \<Longrightarrow> reserved n" "ts_name n \<Longrightarrow> n \<noteq> dataDirName" "ts_name n \<Longrightarrow> n \<noteq> newDataDirName"
  by (simp_all add: ts_name_def)

lemma dir_tree: "dir_ok fs \<Longrightarrow> tree_ok fs"
  by (simp add: dir_ok_def)

lemma dir_link: "dir_ok fs \<Longrightarrow> \<not> reserved n \<Longrightarrow> map_of fs [n] = Some nd \<Longrightarrow> nd = LinkN [dataDirName, n]"
  unfolding dir_ok_def by blast

lemma dir_no_link: "dir_ok fs \<Longrightarrow> ts_name n \<Longrightarrow> map_of fs [n] \<noteq> Some (LinkN t)"
  unfolding dir_ok_def by blast

lemma dir_current:
  assumes "dir_ok fs"
  shows "(current fs = None \<and> map_of fs [dataDirName] = None) \<or>
    (\<exists>ts. current fs = Some ts \<and> map_of fs [dataDirName] = Some (LinkN [ts]) \<and> ts_name ts \<and> map_of fs [ts] = Some DirN)"
proof (cases "map_of fs [dataDirName]")
  case None
  then show ?thesis by (simp add: current_def)
next
  case (Some nd)
  with assms obtain ts where "map_of fs [dataDirName] = Some (LinkN [ts])" "ts_name ts" "map_of fs [ts] = Some DirN"
    unfolding dir_ok_def by blast
  then show ?thesis by (simp add: current_def)
qed

lemma currentD:
  assumes "dir_ok fs" and "current fs = Some ts"
  shows "map_of fs [dataDirName] = Some (LinkN [ts])" "ts_name ts" "map_of fs [ts] = Some DirN"
  using dir_current [OF assms(1)] assms(2) by auto

lemma dir_covered:
  assumes "dir_ok fs" and "current fs = Some ts" and "map_of fs [ts, n] \<noteq> None"
  shows "\<not> reserved n" "map_of fs [n] = Some (LinkN [dataDirName, n])"
proof -
  have c: "map_of fs [dataDirName] = Some (LinkN [ts])" using currentD [OF assms(1,2)] by simp
  with assms(1,3) have r: "\<not> reserved n \<and> map_of fs [n] \<noteq> None"
    unfolding dir_ok_def by auto
  then show "\<not> reserved n" by simp
  from r dir_link [OF assms(1)] show "map_of fs [n] = Some (LinkN [dataDirName, n])" by auto
qed

lemma dir_okI:
  assumes "tree_ok fs" and "\<And>n nd. \<not> reserved n \<Longrightarrow> map_of fs [n] = Some nd \<Longrightarrow> nd = LinkN [dataDirName, n]"
    and "\<And>n t. ts_name n \<Longrightarrow> map_of fs [n] \<noteq> Some (LinkN t)"
    and "map_of fs [dataDirName] = None \<or> (\<exists>ts. map_of fs [dataDirName] = Some (LinkN [ts]) \<and> ts_name ts
      \<and> map_of fs [ts] = Some DirN \<and> (\<forall>n. map_of fs [ts, n] \<noteq> None \<longrightarrow> \<not> reserved n \<and> map_of fs [n] \<noteq> None))"
  shows "dir_ok fs"
  using assms unfolding dir_ok_def by auto

lemma maxLinks_unfold: "maxLinks = Suc (Suc 38)"
  by (simp add: maxLinks_def)

lemma view_data_at:
  assumes "dir_ok fs" and "visible p"
  shows "view fs p = data_at fs p"
proof -
  from assms(2) obtain n r where p: "p = n # r" "\<not> reserved n" by (cases p) (auto simp: visible_def)
  note T = dir_tree [OF assms(1)] and root = tree_root [OF dir_tree [OF assms(1)]]
  have gone: "file_at fs (ts # p) = None" if "map_of fs [ts, n] = None" for ts
  proof -
    have "map_of fs ([ts, n] @ r) = None"
      using tree_parent [OF T, of "[ts, n]" r] that by (cases "map_of fs ([ts, n] @ r)"; cases "r = []") auto
    then show ?thesis by (simp add: p file_at_def)
  qed
  show ?thesis
  proof (cases "map_of fs [n]")
    case None
    have "view fs p = None" using None root by (simp add: view_def readFile_f_def stat_f_def node_at_def p)
    moreover have "data_at fs p = None"
    proof (cases "current fs")
      case (Some ts)
      have "map_of fs [ts, n] = None" using dir_covered(2) [OF assms(1) Some, of n] None by fastforce
      from gone [OF this] show ?thesis by (simp add: data_at_def Some)
    qed (simp add: data_at_def)
    ultimately show ?thesis by simp
  next
    case (Some nd)
    then have l: "map_of fs [n] = Some (LinkN [dataDirName, n])" using dir_link [OF assms(1) p(2)] by simp
    show ?thesis
    proof (cases "current fs")
      case None
      with dir_current [OF assms(1)] have "map_of fs [dataDirName] = None" by simp
      then show ?thesis
        using l root None by (simp add: view_def readFile_f_def stat_f_def node_at_def p data_at_def maxLinks_unfold)
    next
      case cur: (Some ts)
      note c = currentD [OF assms(1) cur]
      have "walk maxLinks fs [] p = walk 38 fs [ts] p" using l root c by (simp add: p maxLinks_unfold)
      then show ?thesis
        using node_at_walk_plain [OF T, of "[ts]" 38 p] cur
        by (auto simp: view_def readFile_f_def stat_f_def data_at_def file_at_def split: node.splits)
    qed
  qed
qed

subsection \<open>While a new directory is written\<close>

definition staged :: "fs \<Rightarrow> string \<Rightarrow> (path \<Rightarrow> string option) \<Rightarrow> string set \<Rightarrow> fs \<Rightarrow> bool" where
  \<comment> \<open>since \<open>fs0\<close> only the directory \<open>ts\<close>, visible links and the temporary link were touched; \<open>ts\<close> holds the files \<open>cont\<close>\<close>
  "staged fs0 ts cont names fs \<longleftrightarrow> tree_ok fs \<and> map_of fs [ts] = Some DirN
     \<and> (\<forall>q. \<not> prefix [ts] q \<and> q \<noteq> [newDataDirName] \<and> \<not> (\<exists>n. q = [n] \<and> \<not> reserved n) \<longrightarrow> map_of fs q = map_of fs0 q)
     \<and> (\<forall>n. \<not> reserved n \<longrightarrow>
          map_of fs [n] = map_of fs0 [n] \<or> map_of fs0 [n] = None \<and> map_of fs [n] = Some (LinkN [dataDirName, n]))
     \<and> (\<forall>q. file_at fs (ts # q) = cont q) \<and> (\<forall>n. map_of fs [ts, n] \<noteq> None \<longrightarrow> n \<in> names)
     \<and> (map_of fs0 [newDataDirName] \<noteq> None \<longrightarrow> map_of fs [newDataDirName] = map_of fs0 [newDataDirName])"

definition unchanged :: "fs \<Rightarrow> fs \<Rightarrow> bool" where
  "unchanged fs0 fs \<longleftrightarrow> dir_ok fs \<and> (\<forall>p. data_at fs p = data_at fs0 p)"

lemma stagedD:
  assumes "staged fs0 ts cont names fs"
  shows "tree_ok fs" "map_of fs [ts] = Some DirN" "file_at fs (ts # q) = cont q"
    "map_of fs [ts, n] \<noteq> None \<Longrightarrow> n \<in> names"
    "\<not> prefix [ts] q \<Longrightarrow> q \<noteq> [newDataDirName] \<Longrightarrow> (\<And>n. q = [n] \<Longrightarrow> reserved n) \<Longrightarrow> map_of fs q = map_of fs0 q"
    "\<not> reserved n \<Longrightarrow> map_of fs [n] = map_of fs0 [n] \<or> map_of fs0 [n] = None \<and> map_of fs [n] = Some (LinkN [dataDirName, n])"
    "map_of fs0 [newDataDirName] \<noteq> None \<Longrightarrow> map_of fs [newDataDirName] = map_of fs0 [newDataDirName]"
  using assms unfolding staged_def by blast+

lemma staged_other:
  assumes "staged fs0 ts cont names fs" and "reserved t" and "t \<noteq> ts" and "t \<noteq> newDataDirName"
  shows "map_of fs (t # q) = map_of fs0 (t # q)"
  using stagedD(5) [OF assms(1), of "t # q"] assms(2-4) by auto

lemma staged_current:
  assumes "ts_name ts" and "staged fs0 ts cont names fs"
  shows "map_of fs [dataDirName] = map_of fs0 [dataDirName]" "current fs = current fs0"
proof -
  show "map_of fs [dataDirName] = map_of fs0 [dataDirName]"
    using staged_other [OF assms(2), of dataDirName "[]"] ts_nameD(2) [OF assms(1)] by (simp add: eq_commute)
  then show "current fs = current fs0" by (simp add: current_def)
qed

lemma staged_unchanged:
  assumes "dir_ok fs0" and "ts_name ts" and "map_of fs0 [ts] = None" and "staged fs0 ts cont names fs"
  shows "unchanged fs0 fs" "current fs \<noteq> Some ts"
proof -
  note cur = staged_current [OF assms(2,4)]
  have same: "map_of fs (t # q) = map_of fs0 (t # q)" "ts_name t" "t \<noteq> ts" if "current fs0 = Some t" for t q
  proof -
    note t = currentD [OF assms(1) that]
    with assms(3) show "t \<noteq> ts" "ts_name t" by auto
    with staged_other [OF assms(4)] ts_nameD show "map_of fs (t # q) = map_of fs0 (t # q)" by simp
  qed
  have "data_at fs p = data_at fs0 p" for p
    using same(1) by (auto simp: data_at_def cur(2) file_at_def split: option.splits)
  moreover have "dir_ok fs"
  proof (rule dir_okI [OF stagedD(1) [OF assms(4)]])
    fix n nd
    assume "\<not> reserved n" "map_of fs [n] = Some nd"
    with stagedD(6) [OF assms(4), of n] dir_link [OF assms(1), of n nd] show "nd = LinkN [dataDirName, n]" by auto
  next
    fix n t
    assume n: "ts_name n"
    show "map_of fs [n] \<noteq> Some (LinkN t)"
      using staged_other [OF assms(4), of n "[]"] stagedD(2) [OF assms(4)] dir_no_link [OF assms(1) n, of t] ts_nameD [OF n]
      by (cases "n = ts") auto
  next
    show "map_of fs [dataDirName] = None \<or> (\<exists>t. map_of fs [dataDirName] = Some (LinkN [t]) \<and> ts_name t
      \<and> map_of fs [t] = Some DirN \<and> (\<forall>n. map_of fs [t, n] \<noteq> None \<longrightarrow> \<not> reserved n \<and> map_of fs [n] \<noteq> None))"
    proof (cases "current fs0")
      case None
      with dir_current [OF assms(1)] show ?thesis by (simp add: cur(1))
    next
      case (Some t)
      note t = currentD [OF assms(1) Some] and s = same(1) [OF Some]
      have "\<not> reserved n \<and> map_of fs [n] \<noteq> None" if "map_of fs [t, n] \<noteq> None" for n
        using dir_covered [OF assms(1) Some, of n] that s [of "[n]"] stagedD(6) [OF assms(4), of n] by auto
      with t s [of "[]"] show ?thesis by (simp add: cur(1))
    qed
  qed
  ultimately show "unchanged fs0 fs" by (simp add: unchanged_def)
  show "current fs \<noteq> Some ts" using same(3) cur(2) by auto
qed

lemma staged_start:
  assumes "dir_ok fs0" and "ts_name ts" and "mkdir_f [ts] fs0 = Inr fs"
  shows "map_of fs0 [ts] = None \<and> staged fs0 ts (\<lambda>_. None) {} fs"
proof -
  note T = dir_tree [OF assms(1)]
  have new: "map_of fs0 [ts] = None" "fs = AList.update [ts] DirN fs0"
    using assms(3) locate_top [OF T, of ts] by (auto simp: mkdir_f_def put_new_def split: if_splits)
  have deep: "map_of fs0 (ts # q) = None" for q
    using tree_parent [OF T, of "[ts]" q] new(1) by (cases "map_of fs0 (ts # q)"; cases "q = []") auto
  have "tree_ok fs" using tree_update [OF T, of "[ts]" "[]" ts DirN] tree_root [OF T] new(2) by simp
  then show ?thesis
    using new deep ts_nameD(1) [OF assms(2)] by (auto simp: staged_def update_conv' file_at_def)
qed

lemma staged_update:
  assumes st: "staged fs0 ts cont names fs" and r: "r \<noteq> []" "map_of fs (ts # butlast r) = Some DirN" "hd r \<in> names"
    and n: "map_of fs (ts # r) \<noteq> Some DirN" "\<And>t. nd \<noteq> LinkN t"
  shows "staged fs0 ts (cont(r := (case nd of FileN d m \<Rightarrow> Some d | _ \<Rightarrow> None))) names (AList.update (ts # r) nd fs)"
proof -
  have "ts # r = (ts # butlast r) @ [last r]" using r(1) by simp
  from tree_update [OF stagedD(1) [OF st] this r(2)] n have T: "tree_ok (AList.update (ts # r) nd fs)" by auto
  have h: "m \<in> names" if "map_of (AList.update (ts # r) nd fs) [ts, m] \<noteq> None" for m
    using that stagedD(4) [OF st, of m] r(3) by (auto simp: update_conv' split: if_splits)
  have c: "file_at (AList.update (ts # r) nd fs) (ts # q) = (cont(r := (case nd of FileN d m \<Rightarrow> Some d | _ \<Rightarrow> None))) q" for q
    using stagedD(3) [OF st, of q] by (auto simp: file_at_def update_conv' split: node.splits)
  have o: "map_of (AList.update (ts # r) nd fs) q = map_of fs q" if "\<not> prefix [ts] q \<or> length q = 1" for q
    using that r(1) by (auto simp: update_conv')
  show ?thesis
    unfolding staged_def
  proof (intro conjI allI impI)
    fix q
    assume "\<not> prefix [ts] q \<and> q \<noteq> [newDataDirName] \<and> \<not> (\<exists>n. q = [n] \<and> \<not> reserved n)"
    with stagedD(5) [OF st, of q] o [of q] show "map_of (AList.update (ts # r) nd fs) q = map_of fs0 q" by auto
  next
    fix m
    assume "\<not> reserved m"
    with stagedD(6) [OF st, of m] o [of "[m]"]
    show "map_of (AList.update (ts # r) nd fs) [m] = map_of fs0 [m] \<or> map_of fs0 [m] = None \<and>
      map_of (AList.update (ts # r) nd fs) [m] = Some (LinkN [dataDirName, m])" by simp
  next
    assume "map_of fs0 [newDataDirName] \<noteq> None"
    with stagedD(7) [OF st] o [of "[newDataDirName]"]
    show "map_of (AList.update (ts # r) nd fs) [newDataDirName] = map_of fs0 [newDataDirName]" by simp
  qed (use T h c o [of "[ts]"] stagedD(2) [OF st] in simp_all)
qed

lemma staged_mkdir:
  assumes st: "staged fs0 ts cont names fs" and "r \<noteq> []" "hd r \<in> names" and mk: "mkdir_f (ts # r) fs = Inr fs'"
  shows "staged fs0 ts cont names fs' \<and> map_of fs' (ts # r) = Some DirN"
proof -
  note T = stagedD(1,2) [OF st]
  from mk obtain q where q: "locate fs (ts # r) = Inr q" "map_of fs q = None" "fs' = AList.update q DirN fs"
    by (auto simp: mkdir_f_def put_new_def split: sum.splits if_splits)
  from locate_under [OF T q(1)] assms(2) have l: "q = ts # r" "map_of fs (ts # butlast r) = Some DirN" by auto
  have "cont r = None" using stagedD(3) [OF st, of r] q(2) l(1) by (simp add: file_at_def)
  then have "cont(r := None) = cont" by auto
  with staged_update [OF st assms(2) l(2) assms(3), of DirN] q l show ?thesis by (simp add: update_conv')
qed

lemma stat_staged:
  assumes "staged fs0 ts cont names fs" and "stat_f (ts # r) fs = Inr nd"
  shows "map_of fs (ts # r) = Some nd"
proof -
  note T = stagedD(1,2) [OF assms(1)]
  show ?thesis
    using node_at_walk_plain [OF T(1), of "[ts]" maxLinks r] walk_into_dir [OF T, of maxLinks r] assms(2)
    by (auto simp: stat_f_def)
qed

lemma MkdirAll_rev_staged:
  assumes "s \<noteq> [] \<Longrightarrow> last s \<in> names"
  shows "ensures faulty (staged fs0 ts cont names) (MkdirAll_rev (s @ [ts]) :: ('z world_scheme, errno option) state)
    (\<lambda>e fs. staged fs0 ts cont names fs \<and> (e = None \<longrightarrow> map_of fs (ts # rev s) = Some DirN))"
  using assms
proof (induction s)
  case Nil
  have "stat_f [ts] fs = Inr DirN" if "staged fs0 ts cont names fs" for fs
    using walk_into_dir [OF stagedD(1,2) [OF that], of maxLinks "[]"] stagedD(2) [OF that] by (simp add: stat_f_def node_at_def)
  then show ?case
    by (simp, intro ens_reads_bind) (auto split: sum.split node.split intro!: ens_ret ens_conseq [OF ens_ret] simp: ensures_def stagedD(2))
next
  case (Cons c s)
  let ?P = "staged fs0 ts cont names" and ?r = "rev s @ [c]"
  let ?Q = "\<lambda>p e fs. ?P fs \<and> (e = None \<longrightarrow> map_of fs (ts # p) = Some DirN)"
  let ?rec = "MkdirAll_rev (s @ [ts]) :: ('z world_scheme, errno option) state"
  let ?look = "\<lambda>e. do { l \<leftarrow> reads (lstat_f (ts # ?r)); ret (if e \<noteq> None \<and> l \<noteq> Inr DirN then e else None) } :: ('z world_scheme, errno option) state"
  let ?mk = "State_Monad.bind (writes (mkdir_f (ts # ?r))) ?look"
  have r: "?r \<noteq> []" "hd ?r \<in> names" using Cons.prems by (auto simp: hd_append hd_rev)
  have "s \<noteq> [] \<Longrightarrow> last s \<in> names" using Cons.prems by simp
  note IH = Cons.IH [OF this]
  have mk: "ensures faulty ?P ?mk (?Q ?r)"
  proof (rule ens_bind [where R = "?Q ?r"])
    show "ensures faulty ?P (writes (mkdir_f (ts # ?r)) :: ('z world_scheme, errno option) state) (?Q ?r)"
      by (rule ens_writes) (use staged_mkdir [OF _ r] in auto)
    fix e
    have "map_of fs (ts # ?r) = Some DirN" if "?P fs" "lstat_f (ts # ?r) fs = Inr DirN" for fs
      using that locate_under [OF stagedD(1,2) [OF that(1)], of ?r]
      by (auto simp: lstat_f_def node_at_def split: sum.splits option.splits)
    then show "ensures faulty (?Q ?r e) (?look e) (?Q ?r)"
      by (intro ens_reads_bind ens_ret) (auto split: if_splits)
  qed
  have "ensures faulty (\<lambda>fs. ?P fs \<and> x = stat_f (ts # ?r) fs)
     (case x of Inr DirN \<Rightarrow> ret None | Inr _ \<Rightarrow> ret (Some ENOTDIR) | Inl _ \<Rightarrow> then_ok ?rec ?mk) (?Q ?r)" for x
  proof (cases x)
    case (Inl y)
    show ?thesis unfolding Inl sum.case
      by (rule ens_then_ok [OF ens_conseq [OF IH] mk]) (auto split: option.splits)
  next
    case (Inr nd)
    show ?thesis unfolding Inr sum.case using stat_staged by (cases nd) (auto intro!: ens_ret)
  qed
  from ens_reads_bind [OF this] show ?case by (simp del: not_None_eq)
qed

lemma MkdirAll_staged:
  assumes "r \<noteq> [] \<Longrightarrow> hd r \<in> names"
  shows "ensures faulty (staged fs0 ts cont names) (MkdirAll (ts # r))
    (\<lambda>e fs. staged fs0 ts cont names fs \<and> (e = None \<longrightarrow> map_of fs (ts # r) = Some DirN))"
  using MkdirAll_rev_staged [of "rev r" names faulty fs0 ts cont] assms by (simp add: MkdirAll_def last_rev)

lemma staged_file:
  assumes st: "staged fs0 ts cont names fs" and names: "r \<noteq> [] \<Longrightarrow> hd r \<in> names"
    and q: "locate fs (ts # r) = Inr q" "map_of fs q \<noteq> Some DirN" and fs': "fs' = AList.update q (FileN d m) fs"
  shows "staged fs0 ts (cont(r := Some d)) names fs'"
proof -
  from locate_under [OF stagedD(1,2) [OF st] q(1)]
  have l: "q = ts # r" "r \<noteq> [] \<Longrightarrow> map_of fs (ts # butlast r) = Some DirN" by auto
  have "r \<noteq> []" using l(1) q(2) stagedD(2) [OF st] by auto
  with staged_update [OF st this l(2) names, of "FileN d m"] l(1) q(2) fs' show ?thesis by simp
qed

lemma staged_open:
  assumes st: "staged fs0 ts cont names fs" and names: "r \<noteq> [] \<Longrightarrow> hd r \<in> names" and op: "open_f m (ts # r) fs = Inr fs'"
  shows "staged fs0 ts (cont(r := Some '''')) names fs'"
proof -
  have "create_target maxLinks fs (ts # r) = locate fs (ts # r)" by (rule create_target_under [OF stagedD(1,2) [OF st]])
  with op obtain q m' where "locate fs (ts # r) = Inr q" "map_of fs q \<noteq> Some DirN" "fs' = AList.update q (FileN '''' m') fs"
    by (auto simp: open_f_def split: sum.splits option.splits node.splits)
  from staged_file [OF st names this] show ?thesis .
qed

lemma staged_write:
  assumes st: "staged fs0 ts cont names fs" and names: "r \<noteq> [] \<Longrightarrow> hd r \<in> names" and wr: "write_f d (ts # r) fs = Inr fs'"
  shows "staged fs0 ts (cont(r := Some d)) names fs'"
proof -
  have "create_target maxLinks fs (ts # r) = locate fs (ts # r)" by (rule create_target_under [OF stagedD(1,2) [OF st]])
  with wr obtain q m' where "locate fs (ts # r) = Inr q" "map_of fs q \<noteq> Some DirN" "fs' = AList.update q (FileN d m') fs"
    by (auto simp: write_f_def split: sum.splits option.splits node.splits)
  from staged_file [OF st names this] show ?thesis .
qed

lemma staged_chmod:
  assumes st: "staged fs0 ts cont names fs" and names: "r \<noteq> [] \<Longrightarrow> hd r \<in> names" and ch: "chmod_f m (ts # r) fs = Inr fs'"
  shows "staged fs0 ts cont names fs'"
proof -
  note T = stagedD(1,2) [OF st]
  have w: "walk maxLinks fs [] (ts # r) = walk maxLinks fs [ts] r" by (rule walk_into_dir [OF T])
  obtain q where "walk maxLinks fs [ts] r = Inr q"
    using ch by (cases "walk maxLinks fs [ts] r") (simp_all add: chmod_f_def w del: walk.simps)
  moreover from this obtain nd where "map_of fs q = Some nd"
    using ch by (cases "map_of fs q") (simp_all add: chmod_f_def w del: walk.simps)
  ultimately have q: "walk maxLinks fs [ts] r = Inr q" "map_of fs q = Some nd"
    and fs': "fs' = (case nd of FileN d _ \<Rightarrow> AList.update q (FileN d m) fs | _ \<Rightarrow> fs)"
    using ch by (cases nd; simp add: chmod_f_def w del: walk.simps)+
  have l: "q = ts # r" using walk_plain_only [OF T(1) _ q(1)] by simp
  show ?thesis
  proof (cases nd)
    case (FileN d m')
    then have "r \<noteq> []" using q(2) l T(2) by auto
    have "map_of fs ((ts # butlast r) @ [last r]) \<noteq> None" using q(2) l \<open>r \<noteq> []\<close> by simp
    from tree_snoc [OF T(1) this] locate_in [OF T] have "locate fs (ts # r) = Inr (ts # r)" by simp
    moreover have "cont(r := Some d) = cont" using stagedD(3) [OF st, of r] q(2) l FileN by (auto simp: file_at_def)
    ultimately show ?thesis using staged_file [OF st names, of "ts # r" fs' d m] q(2) fs' l FileN by simp
  qed (use fs' st in simp_all)
qed

definition staged_some :: "fs \<Rightarrow> string \<Rightarrow> string set \<Rightarrow> fs \<Rightarrow> bool" where
  "staged_some fs0 ts names fs \<longleftrightarrow> (\<exists>cont. staged fs0 ts cont names fs)"

lemma staged_someI [intro]: "staged fs0 ts cont names fs \<Longrightarrow> staged_some fs0 ts names fs"
  by (auto simp: staged_some_def)

abbreviation on_ok :: "(fs \<Rightarrow> bool) \<Rightarrow> (fs \<Rightarrow> bool) \<Rightarrow> 'e option \<Rightarrow> fs \<Rightarrow> bool" where
  \<comment> \<open>what holds after an error and after success\<close>
  "on_ok E R r fs \<equiv> (case r of Some _ \<Rightarrow> E fs | None \<Rightarrow> R fs)"

lemma ens_seq:
  assumes "ensures faulty P m (on_ok E R)" and "ensures faulty R k (on_ok E Q)"
  shows "ensures faulty P (then_ok m k) (on_ok E Q)"
  by (rule ens_then_ok [OF ens_conseq [OF assms(1)] assms(2)]) (auto split: option.splits)

lemma writeProjection_staged:
  assumes names: "p \<noteq> [] \<Longrightarrow> hd p \<in> names"
  shows "ensures faulty (staged fs0 ts cont names) (writeProjection masked [ts] (p, f) :: ('z world_scheme, errno option) state)
    (on_ok (staged_some fs0 ts names) (staged fs0 ts (cont(p := Some (fp_Data f))) names))"
proof -
  let ?P = "staged fs0 ts cont names" and ?E = "staged_some fs0 ts names"
  let ?R = "staged fs0 ts (cont(p := Some (fp_Data f))) names"
  have mk: "ensures faulty ?P (MkdirAll (butlast ([ts] @ p)) :: ('z world_scheme, errno option) state) (on_ok ?E ?P)"
  proof (cases "p = []")
    case True
    have "stat_f [] fs = Inr DirN" if "?P fs" for fs
      using tree_root [OF stagedD(1) [OF that]] by (simp add: stat_f_def node_at_def)
    then show ?thesis
      by (simp add: True MkdirAll_def, intro ens_reads_bind) (auto split: sum.split node.split intro!: ens_ret simp: ensures_def)
  next
    case False
    then have b: "butlast ([ts] @ p) = ts # butlast p" "butlast p \<noteq> [] \<Longrightarrow> hd (butlast p) \<in> names"
      using names by (auto simp: butlast_append) (auto simp: neq_Nil_conv split: if_splits)
    show ?thesis
      unfolding b(1) by (rule ens_conseq [OF MkdirAll_staged [OF b(2)]]) (auto split: option.splits)
  qed
  have op: "ensures faulty ?P (writes (open_f (masked (fp_Mode f)) ([ts] @ p)) :: ('z world_scheme, errno option) state)
    (on_ok ?E (staged fs0 ts (cont(p := Some '''')) names))"
    by (rule ens_writes) (auto intro: staged_open names)
  have wr: "ensures faulty (staged fs0 ts (cont(p := Some '''')) names) (writes (write_f (fp_Data f) ([ts] @ p)) :: ('z world_scheme, errno option) state)
    (on_ok ?E ?R)"
    by (rule ens_writes) (auto dest: staged_write [OF _ names])
  have ch: "ensures faulty ?R (do { _ \<leftarrow> writes (chmod_f (fp_Mode f) ([ts] @ p)); ret None } :: ('z world_scheme, errno option) state) (on_ok ?E ?R)"
    by (rule ens_bind [where R = "\<lambda>_. ?R"], rule ens_writes) (auto intro!: ens_ret intro: staged_chmod names)
  show ?thesis
    unfolding writeProjection_def WriteFile_def Let_def prod.case
    by (rule ens_seq [OF mk ens_seq [OF ens_seq [OF op wr] ch]])
qed

definition names_of :: "payload \<Rightarrow> string set" where
  "names_of cp = {n. \<exists>p\<in>fst ` set cp. p \<noteq> [] \<and> hd p = n}"

definition pdata :: "payload \<Rightarrow> path \<Rightarrow> string option" where
  "pdata cp q = map_option fp_Data (map_of cp q)"

lemma staged_mono: "staged fs0 ts cont names fs \<Longrightarrow> names \<subseteq> names' \<Longrightarrow> staged fs0 ts cont names' fs"
  unfolding staged_def by blast

lemma writePayloadToDir_staged:
  assumes "gomap_ok cp"
  shows "ensures faulty (staged fs0 ts (\<lambda>_. None) (names_of cp)) (writePayloadToDir masked cp [ts])
    (on_ok (staged_some fs0 ts (names_of cp)) (staged fs0 ts (pdata cp) (names_of cp)))"
proof -
  let ?c = "\<lambda>xs q. if q \<in> fst ` set xs then None else pdata cp q"
  let ?I = "\<lambda>xs. staged fs0 ts (?c xs) (names_of cp)"
  have start: "?c cp = (\<lambda>_. None)" by (auto simp: pdata_def fun_eq_iff map_of_eq_None_iff)
  have step: "ensures faulty (?I (x # xs)) (writeProjection masked [ts] x)
      (\<lambda>r fs. case r of Some e \<Rightarrow> on_ok (staged_some fs0 ts (names_of cp)) (staged fs0 ts (pdata cp) (names_of cp)) (Some e) fs | None \<Rightarrow> ?I xs fs)"
    if cp: "cp = zs @ x # xs" for zs x xs
  proof -
    obtain p f where x: "x = (p, f)" by (cases x)
    have dm: "distinct (map fst cp)" "(p, f) \<in> set cp" using assms cp x by (simp_all add: gomap_ok_def)
    have d: "map_of cp p = Some f" by (rule map_of_is_SomeI [OF dm])
    have n: "p \<notin> fst ` set xs" using dm(1) by (simp add: cp x)
    have "p \<noteq> [] \<Longrightarrow> hd p \<in> names_of cp" using cp x by (auto simp: names_of_def)
    note w = writeProjection_staged [OF this, of faulty fs0 ts "?c (x # xs)" masked f]
    have "(?c (x # xs))(p := Some (fp_Data f)) = ?c xs" using d n by (auto simp: fun_eq_iff x pdata_def)
    note w' = w [unfolded this]
    show ?thesis unfolding x by (rule ens_conseq [OF w']) (simp_all add: x split: option.splits)
  qed
  have "ensures faulty (?I cp) (each (writeProjection masked [ts]) cp)
      (on_ok (staged_some fs0 ts (names_of cp)) (staged fs0 ts (pdata cp) (names_of cp)))"
    by (rule ens_each [OF step]) simp_all
  then show ?thesis by (simp add: start writePayloadToDir_def)
qed

lemma readlink_top:
  assumes "tree_ok fs"
  shows "readlink_f [n] fs = (case map_of fs [n] of None \<Rightarrow> Inl ENOENT | Some (LinkN t) \<Rightarrow> Inr t | _ \<Rightarrow> Inl EINVAL)"
  using locate_top [OF assms] by (auto simp: readlink_f_def lstat_f_def node_at_def split: option.splits node.splits)

lemma put_new_top: "tree_ok fs \<Longrightarrow> put_new nd [n] fs = (if map_of fs [n] = None then Inr (AList.update [n] nd fs) else Inl EEXIST)"
  by (simp add: put_new_def locate_top)

lemma tree_update_top:
  assumes "tree_ok fs" and "map_of fs [n] = None"
  shows "tree_ok (AList.update [n] nd fs)"
  using tree_update [OF assms(1), of "[n]" "[]" n nd] tree_root [OF assms(1)] assms(2) by simp

lemma staged_link:
  assumes st: "staged fs0 ts cont names fs" and "ts_name ts" and n: "\<not> reserved n" "map_of fs [n] = None"
  shows "staged fs0 ts cont names (AList.update [n] (LinkN [dataDirName, n]) fs)"
proof -
  have "map_of fs0 [n] = None" using stagedD(6) [OF st n(1)] n(2) by auto
  moreover have "ts \<noteq> n" using n(1) ts_nameD(1) [OF assms(2)] by auto
  moreover have "file_at (AList.update [n] (LinkN [dataDirName, n]) fs) (ts # q) = cont q" for q
    using stagedD(3) [OF st, of q] \<open>ts \<noteq> n\<close> by (simp add: file_at_def update_conv')
  ultimately show ?thesis
    using st n tree_update_top [OF stagedD(1) [OF st] n(2)] unfolding staged_def update_conv' by auto
qed

lemma createUserVisibleFile_staged:
  assumes "ts_name ts" and "fst pf \<noteq> [] \<Longrightarrow> \<not> reserved (hd (fst pf))"
  shows "ensures faulty (\<lambda>fs. staged fs0 ts cont names fs \<and> (\<forall>n\<in>L. map_of fs [n] \<noteq> None)) (createUserVisibleFile pf)
    (on_ok (staged_some fs0 ts names)
       (\<lambda>fs. staged fs0 ts cont names fs \<and> (\<forall>n\<in>L. map_of fs [n] \<noteq> None) \<and> (fst pf \<noteq> [] \<longrightarrow> map_of fs [hd (fst pf)] \<noteq> None)))"
proof (cases "fst pf")
  case Nil
  then show ?thesis by (auto simp: createUserVisibleFile_def intro!: ens_ret)
next
  case (Cons n r)
  let ?P = "\<lambda>fs. staged fs0 ts cont names fs \<and> (\<forall>n\<in>L. map_of fs [n] \<noteq> None)"
  have n: "\<not> reserved n" using assms(2) Cons by simp
  have link: "staged fs0 ts cont names fs' \<and> (\<forall>n\<in>L. map_of fs' [n] \<noteq> None) \<and> map_of fs' [n] \<noteq> None"
    if "?P fs" "symlink_f [dataDirName, n] [n] fs = Inr fs'" for fs fs'
  proof -
    have T: "tree_ok fs" using that(1) stagedD(1) by blast
    from that(2) have u: "map_of fs [n] = None" "fs' = AList.update [n] (LinkN [dataDirName, n]) fs"
      unfolding symlink_f_def put_new_top [OF T] by (auto split: if_splits)
    with that(1) staged_link [OF _ assms(1) n] show ?thesis by (simp add: update_conv')
  qed
  show ?thesis
    unfolding createUserVisibleFile_def Cons list.case
  proof (rule ens_reads_bind)
    fix l
    show "ensures faulty (\<lambda>fs. ?P fs \<and> l = readlink_f [n] fs)
        (if l = Inl ENOENT then writes (symlink_f [dataDirName, n] [n]) else ret None)
        (on_ok (staged_some fs0 ts names) (\<lambda>fs. staged fs0 ts cont names fs \<and> (\<forall>n\<in>L. map_of fs [n] \<noteq> None) \<and>
           (n # r \<noteq> [] \<longrightarrow> map_of fs [hd (n # r)] \<noteq> None)))"
    proof (cases "l = Inl ENOENT")
      case True
      have E: "staged_some fs0 ts names fs" if "?P fs" for fs using that by blast
      show ?thesis
        unfolding if_P [OF True]
      proof (rule ens_writes, goal_cases)
        case (1 fs e)
        then show ?case using E [of fs] by simp
      next
        case (2 fs fs')
        from link [OF conjunct1 [OF 2(1)] 2(2)] show ?case by simp
      next
        case (3 fs e)
        then show ?case using E [of fs] by simp
      qed
    next
      case False
      have "map_of fs [n] \<noteq> None" if "?P fs" "l = readlink_f [n] fs" for fs
        using that(2) False readlink_top [OF stagedD(1) [OF conjunct1 [OF that(1)]], of n]
        by (cases "map_of fs [n]") simp_all
      then show ?thesis unfolding if_not_P [OF False] by (intro ens_ret) simp
    qed
  qed
qed

lemma ball_extend: "B \<subseteq> A \<union> {x. c \<and> x = y} \<Longrightarrow> \<forall>x\<in>A. P x \<Longrightarrow> (c \<Longrightarrow> P y) \<Longrightarrow> \<forall>x\<in>B. P x"
  by blast

lemma createUserVisibleFiles_staged:
  assumes "ts_name ts" and "\<forall>n\<in>names_of cp. \<not> reserved n"
  shows "ensures faulty (staged fs0 ts cont names) (createUserVisibleFiles cp)
    (on_ok (staged_some fs0 ts names) (\<lambda>fs. staged fs0 ts cont names fs \<and> (\<forall>n\<in>names_of cp. map_of fs [n] \<noteq> None)))"
proof -
  let ?L = "\<lambda>xs. {n. \<exists>p \<in> fst ` set cp - fst ` set xs. p \<noteq> [] \<and> hd p = n}"
  let ?I = "\<lambda>xs fs. staged fs0 ts cont names fs \<and> (\<forall>n\<in>?L xs. map_of fs [n] \<noteq> None)"
  let ?Q = "on_ok (staged_some fs0 ts names) (\<lambda>fs. staged fs0 ts cont names fs \<and> (\<forall>n\<in>names_of cp. map_of fs [n] \<noteq> None))"
  have step: "ensures faulty (?I (x # xs)) (createUserVisibleFile x) (\<lambda>r fs. case r of Some e \<Rightarrow> ?Q (Some e) fs | None \<Rightarrow> ?I xs fs)"
    if cp: "cp = zs @ x # xs" for zs x xs
  proof -
    have "fst x \<noteq> [] \<Longrightarrow> \<not> reserved (hd (fst x))" using assms(2) cp by (auto simp: names_of_def)
    note c = createUserVisibleFile_staged [OF assms(1) this, of faulty fs0 cont names "?L (x # xs)"]
    have sub: "?L xs \<subseteq> ?L (x # xs) \<union> {n. fst x \<noteq> [] \<and> n = hd (fst x)}" by auto
    show ?thesis
    proof (rule ens_conseq [OF c])
      fix r :: "errno option" and fs
      assume "on_ok (staged_some fs0 ts names) (\<lambda>fs. staged fs0 ts cont names fs \<and> (\<forall>n\<in>?L (x # xs). map_of fs [n] \<noteq> None)
        \<and> (fst x \<noteq> [] \<longrightarrow> map_of fs [hd (fst x)] \<noteq> None)) r fs"
      then show "case r of Some e \<Rightarrow> ?Q (Some e) fs | None \<Rightarrow> ?I xs fs"
        by (cases r; simp only: option.case) (intro conjI ball_extend [OF sub], simp_all)
    qed
  qed
  have "ensures faulty (?I cp) (each createUserVisibleFile cp) ?Q"
    by (rule ens_each [OF step]) (auto simp: names_of_def)
  then show ?thesis by (simp add: createUserVisibleFiles_def)
qed

end
