(* ===== verification/Atomic_Update.thy ===== *)
theory Atomic_Update
  imports Atomic_Writer
begin

section \<open>Updates of the certificate directory are atomic\<close>

text \<open>
  The second half of an update of \<open>Atomic_Writer\<close>, from the swap of the data directory on,
  and the theorems about the whole.
\<close>

subsection \<open>Installing the new directory\<close>

definition installed :: "string \<Rightarrow> (path \<Rightarrow> string option) \<Rightarrow> string set \<Rightarrow> fs \<Rightarrow> bool" where
  "installed ts cont names fs \<longleftrightarrow> dir_ok fs \<and> current fs = Some ts \<and> (\<forall>p. data_at fs p = cont p)
     \<and> (\<forall>n. map_of fs [ts, n] \<noteq> None \<longrightarrow> n \<in> names)"

lemma staged_tmp:
  assumes st: "staged fs0 ts cont names fs" and "ts_name ts" and sy: "symlink_f [ts] [newDataDirName] fs = Inr fs'"
  shows "staged fs0 ts cont names fs' \<and> map_of fs' [newDataDirName] = Some (LinkN [ts])
    \<and> (\<forall>n. \<not> reserved n \<longrightarrow> map_of fs' [n] = map_of fs [n])"
proof -
  note T = stagedD(1) [OF st]
  from sy have u: "map_of fs [newDataDirName] = None" "fs' = AList.update [newDataDirName] (LinkN [ts]) fs"
    unfolding symlink_f_def put_new_top [OF T] by (auto split: if_splits)
  have same: "map_of fs' q = map_of fs q" if "q \<noteq> [newDataDirName]" for q using that u(2) by (simp add: update_conv')
  have ts: "map_of fs' (ts # q) = map_of fs (ts # q)" for q
    using same [of "ts # q"] ts_nameD(3) [OF assms(2)] by simp
  have nr: "n \<noteq> newDataDirName" if "\<not> reserved n" for n using that by auto
  have "staged fs0 ts cont names fs'"
    unfolding staged_def
  proof (intro conjI allI impI)
    show "tree_ok fs'" using tree_update_top [OF T u(1)] u(2) by simp
  next
    assume "map_of fs0 [newDataDirName] \<noteq> None"
    with stagedD(7) [OF st] u(1) show "map_of fs' [newDataDirName] = map_of fs0 [newDataDirName]" by simp
  qed (use st same nr ts [of "[]"] ts [of "[_]"] in \<open>auto simp: staged_def file_at_def ts\<close>)
  then show ?thesis using u nr by (auto simp: update_conv')
qed

lemma staged_rename:
  assumes st: "staged fs0 ts cont names fs" and "ts_name ts" and tmp: "map_of fs [newDataDirName] = Some (LinkN [ts])"
    and ok: "dir_ok fs" and cov: "\<forall>n\<in>names. \<not> reserved n \<and> map_of fs [n] \<noteq> None"
    and re: "rename_f [newDataDirName] [dataDirName] fs = Inr fs'"
  shows "installed ts cont names fs'"
proof -
  note T = dir_tree [OF ok] and ts = ts_nameD [OF assms(2)]
  have nd: "map_of fs [dataDirName] \<noteq> Some DirN" using dir_current [OF ok] by auto
  have fs': "fs' = AList.update [dataDirName] (LinkN [ts]) (AList.delete [newDataDirName] fs)"
    using re nd tmp by (simp add: rename_f_def locate_top [OF T])
  have look: "map_of fs' q = (if q = [dataDirName] then Some (LinkN [ts]) else if q = [newDataDirName] then None else map_of fs q)" for q
    by (simp add: fs' update_conv' delete_conv')
  have same: "map_of fs' (ts # q) = map_of fs (ts # q)" for q using ts by (simp add: look)
  have "tree_ok (AList.delete [newDataDirName] fs)" using tree_delete [OF T, of "[newDataDirName]"] tmp by simp
  from tree_update [OF this, of "[dataDirName]" "[]" dataDirName "LinkN [ts]"] tree_root [OF this] nd
  have T': "tree_ok fs'" unfolding fs' by (simp add: delete_conv')
  have "dir_ok fs'"
  proof (rule dir_okI [OF T'])
    fix n nd
    assume "\<not> reserved n" "map_of fs' [n] = Some nd"
    with dir_link [OF ok, of n nd] show "nd = LinkN [dataDirName, n]" by (auto simp: look split: if_splits)
  next
    fix n t
    assume "ts_name n"
    with dir_no_link [OF ok this] ts_nameD [OF this] show "map_of fs' [n] \<noteq> Some (LinkN t)" by (simp add: look)
  next
    have "\<not> reserved n \<and> map_of fs' [n] \<noteq> None" if "map_of fs' [ts, n] \<noteq> None" for n
    proof -
      have "n \<in> names" using stagedD(4) [OF st, of n] that same [of "[n]"] by simp
      with cov show ?thesis by (auto simp: look)
    qed
    with assms(2) stagedD(2) [OF st] same [of "[]"]
    show "map_of fs' [dataDirName] = None \<or> (\<exists>t. map_of fs' [dataDirName] = Some (LinkN [t]) \<and> ts_name t
      \<and> map_of fs' [t] = Some DirN \<and> (\<forall>n. map_of fs' [t, n] \<noteq> None \<longrightarrow> \<not> reserved n \<and> map_of fs' [n] \<noteq> None))"
      by (simp add: look [of "[dataDirName]"])
  qed
  moreover have "current fs' = Some ts" by (simp add: current_def look)
  ultimately show ?thesis
    using stagedD(3,4) [OF st] same [of "[_]"] by (simp add: installed_def data_at_def file_at_def same)
qed

lemma remove_leaf:
  assumes "dir_ok fs" and "locate fs q = Inr q'" and "remove_f q fs = Inr fs'"
  shows "fs' = AList.delete q' fs \<and> (q' \<noteq> [] \<longrightarrow> tree_ok fs')"
proof -
  from assms(2,3) obtain nd where nd: "map_of fs q' = Some nd" "fs' = AList.delete q' fs" "nd = DirN \<Longrightarrow> below q' fs = [q']"
    by (auto simp: remove_f_def split: option.splits node.splits if_splits)
  with tree_delete [OF dir_tree [OF assms(1)], of q'] show ?thesis by auto
qed

lemma remove_hidden:
  assumes ok: "dir_ok fs" and x: "ts_name x \<or> x = newDataDirName \<and> r = []" "current fs \<noteq> Some x"
    and re: "remove_f (x # r) fs = Inr fs'"
  shows "dir_ok fs' \<and> (\<forall>t. t \<noteq> x \<longrightarrow> (\<forall>q. map_of fs' (t # q) = map_of fs (t # q)))"
proof -
  note T = dir_tree [OF ok]
  have x': "reserved x" "x \<noteq> dataDirName" using x(1) ts_nameD by auto
  obtain q' where l: "locate fs (x # r) = Inr q'" using re by (auto simp: remove_f_def split: sum.splits)
  have q': "q' = x # r"
  proof (cases "r = []")
    case True
    then show ?thesis using l locate_top [OF T] by simp
  next
    case False
    then obtain ys y where r: "r = ys @ [y]" by (cases r rule: rev_cases) auto
    with l obtain d where d: "walk maxLinks fs [] (x # ys) = Inr d" "map_of fs d = Some DirN"
      by (auto simp: locate_def butlast_append simp del: walk.simps split: option.splits node.splits sum.splits)
    have "walk maxLinks fs [x] ys = Inr d"
      using d(1) tree_root [OF T] dir_no_link [OF ok, of x] x(1) False by (auto split: option.splits node.splits)
    from walk_plain_only [OF T _ this] d(2) tree_parent [OF T, of "[x]" ys] have "map_of fs [x] = Some DirN"
      by (cases "ys = []") auto
    from locate_under [OF T this l] show ?thesis by simp
  qed
  from remove_leaf [OF ok l re] q' have fs': "fs' = AList.delete (x # r) fs" and T': "tree_ok fs'" by auto
  have same: "map_of fs' (t # q) = map_of fs (t # q)" if "t \<noteq> x" for t q using that by (simp add: fs' delete_conv')
  have "dir_ok fs'"
  proof (rule dir_okI [OF T'])
    fix n nd
    assume n: "\<not> reserved n" "map_of fs' [n] = Some nd"
    with x' have "n \<noteq> x" by auto
    with n dir_link [OF ok, of n nd] same [of n "[]"] show "nd = LinkN [dataDirName, n]" by simp
  next
    fix n t
    assume "ts_name n"
    with dir_no_link [OF ok this] show "map_of fs' [n] \<noteq> Some (LinkN t)" by (simp add: fs' delete_conv')
  next
    show "map_of fs' [dataDirName] = None \<or> (\<exists>t. map_of fs' [dataDirName] = Some (LinkN [t]) \<and> ts_name t
      \<and> map_of fs' [t] = Some DirN \<and> (\<forall>n. map_of fs' [t, n] \<noteq> None \<longrightarrow> \<not> reserved n \<and> map_of fs' [n] \<noteq> None))"
    proof (cases "current fs")
      case None
      with dir_current [OF ok] same [of dataDirName "[]"] x' show ?thesis by auto
    next
      case (Some t)
      with x(2) have t: "t \<noteq> x" by simp
      have "\<not> reserved n \<and> map_of fs' [n] \<noteq> None" if "map_of fs' [t, n] \<noteq> None" for n
      proof -
        have "\<not> reserved n" "map_of fs [n] \<noteq> None" using dir_covered [OF ok Some, of n] that same [OF t, of "[n]"] by auto
        moreover from this x' have "n \<noteq> x" by auto
        ultimately show ?thesis using same [of n "[]"] by simp
      qed
      with currentD [OF ok Some] same [OF t] same [of dataDirName "[]"] x' show ?thesis by auto
    qed
  qed
  with same show ?thesis by blast
qed

lemma ens_fact: "(c \<Longrightarrow> ensures faulty P m Q) \<Longrightarrow> ensures faulty (\<lambda>fs. P fs \<and> c) m Q"
  by (cases c) (simp_all add: ensures_def)

lemma ens_fix:
  fixes m :: "('z world_scheme, 'a) state"
  assumes "\<And>fs1. P fs1 \<Longrightarrow> ensures faulty (\<lambda>fs. fs = fs1) m Q"
  shows "ensures faulty P m Q"
  unfolding ensures_def
proof (intro allI impI)
  fix w :: "'z world_scheme"
  assume a: "(faulty \<or> w_sched w = (\<lambda>_. None)) \<and> P (w_fs w)"
  from assms [OF conjunct2 [OF a], unfolded ensures_def, rule_format, of w] a
  show "case run_state m w of (x, w') \<Rightarrow> Q x (w_fs w') \<and> w_sched w' = w_sched w \<and> world.more w' = world.more w" by simp
qed

definition kept :: "string \<Rightarrow> fs \<Rightarrow> fs \<Rightarrow> bool" where
  "kept x fs1 fs \<longleftrightarrow> dir_ok fs \<and> (\<forall>t q. t \<noteq> x \<longrightarrow> map_of fs (t # q) = map_of fs1 (t # q))"

lemma kept_current:
  assumes "kept x fs1 fs" and "x \<noteq> dataDirName"
  shows "current fs = current fs1"
  using assms(1) [unfolded kept_def, THEN conjunct2, rule_format, of dataDirName "[]"] assms(2) by (simp add: current_def eq_commute)

lemma kept_data:
  assumes "kept x fs1 fs" and "x \<noteq> dataDirName" and "current fs1 \<noteq> Some x"
  shows "data_at fs p = data_at fs1 p"
proof (cases "current fs1")
  case (Some t)
  with assms(1,3) have "map_of fs (t # p) = map_of fs1 (t # p)" by (simp add: kept_def)
  then show ?thesis by (simp add: data_at_def kept_current [OF assms(1,2)] Some file_at_def)
qed (simp add: data_at_def kept_current [OF assms(1,2)])

lemma kept_remove:
  assumes "ts_name x \<or> x = newDataDirName \<and> r = []" and "current fs1 \<noteq> Some x"
  shows "ensures faulty (kept x fs1) (writes (remove_f (x # r))) (\<lambda>_. kept x fs1)"
proof (rule ens_writes)
  fix fs fs'
  assume a: "kept x fs1 fs" "remove_f (x # r) fs = Inr fs'"
  have "x \<noteq> dataDirName" using assms(1) ts_nameD by auto
  with a(1) assms(2) have "dir_ok fs" "current fs \<noteq> Some x" using kept_current [OF a(1)] by (auto simp: kept_def)
  from remove_hidden [OF this(1) assms(1) this(2) a(2)] a(1) show "kept x fs1 fs'" by (simp add: kept_def)
qed

lemma RemoveAll_kept:
  assumes "ts_name x" and "current fs1 \<noteq> Some x"
  shows "ensures faulty (kept x fs1) (RemoveAll [x]) (\<lambda>_. kept x fs1)"
  unfolding RemoveAll_def
proof (rule ens_bind [where R = "\<lambda>ps fs. kept x fs1 fs \<and> (\<forall>q\<in>set ps. prefix [x] q)"])
  show "ensures faulty (kept x fs1) (reads (below [x])) (\<lambda>ps fs. kept x fs1 fs \<and> (\<forall>q\<in>set ps. prefix [x] q))"
    by (rule ens_reads) (auto simp: set_below)
  fix ps
  show "ensures faulty (\<lambda>fs. kept x fs1 fs \<and> (\<forall>q\<in>set ps. prefix [x] q))
      (each_all (\<lambda>q. writes (remove_f q)) (rev ps) None) (\<lambda>_. kept x fs1)"
  proof (intro ens_fact ens_each_all)
    fix q
    assume "\<forall>q\<in>set ps. prefix [x] q" "q \<in> set (rev ps)"
    then have "prefix [x] q" by simp
    then obtain r where "q = x # r" by (auto simp: prefix_def)
    with kept_remove [of x r fs1] assms show "ensures faulty (kept x fs1) (writes (remove_f q)) (\<lambda>_. kept x fs1)" by simp
  qed
qed

lemma installed_kept: "installed ts cont names fs1 \<Longrightarrow> kept x fs1 fs \<Longrightarrow> x \<noteq> dataDirName \<Longrightarrow> x \<noteq> ts \<Longrightarrow> installed ts cont names fs"
  using kept_current [of x fs1 fs] kept_data [of x fs1 fs] by (simp add: installed_def kept_def)

lemma installed_remove_link:
  assumes i: "installed ts cont names fs" and n: "\<not> reserved n" "n \<notin> names" and re: "remove_f [n] fs = Inr fs'"
  shows "installed ts cont names fs'"
proof -
  have ok: "dir_ok fs" and cur: "current fs = Some ts" using i by (auto simp: installed_def)
  note T = dir_tree [OF ok] and ts = currentD [OF ok cur]
  from remove_leaf [OF ok locate_top [OF T] re] have fs': "fs' = AList.delete [n] fs" and T': "tree_ok fs'" by auto
  have no: "n \<noteq> dataDirName" "n \<noteq> ts" using n(1) ts_nameD(1) [OF ts(2)] by auto
  then have same: "map_of fs' (t # q) = map_of fs (t # q)" if "t \<noteq> n" for t q using that by (simp add: fs' delete_conv')
  have le: "map_of fs' q = Some nd \<Longrightarrow> map_of fs q = Some nd" for q nd by (simp add: fs' delete_conv' split: if_splits)
  have cov: "\<not> reserved m \<and> map_of fs' [m] \<noteq> None" if "map_of fs' [ts, m] \<noteq> None" for m
  proof -
    have m: "map_of fs [ts, m] \<noteq> None" using that same [of ts "[m]"] no by simp
    with i n(2) have "m \<noteq> n" by (auto simp: installed_def)
    with dir_covered [OF ok cur m] same [of m "[]"] show ?thesis by simp
  qed
  have "dir_ok fs'"
  proof (rule dir_okI [OF T'])
    show "nd = LinkN [dataDirName, m]" if "\<not> reserved m" "map_of fs' [m] = Some nd" for m nd
      using dir_link [OF ok that(1) le [OF that(2)]] .
    show "map_of fs' [m] \<noteq> Some (LinkN t)" if "ts_name m" for m t
      using dir_no_link [OF ok that] le by blast
    show "map_of fs' [dataDirName] = None \<or> (\<exists>t. map_of fs' [dataDirName] = Some (LinkN [t]) \<and> ts_name t
      \<and> map_of fs' [t] = Some DirN \<and> (\<forall>n. map_of fs' [t, n] \<noteq> None \<longrightarrow> \<not> reserved n \<and> map_of fs' [n] \<noteq> None))"
      using ts same [of dataDirName "[]"] same [of ts "[]"] no cov by auto
  qed
  moreover have "current fs' = Some ts" using cur same [of dataDirName "[]"] no by (simp add: current_def)
  ultimately show ?thesis
    using i same [of ts] no cur by (auto simp: installed_def data_at_def file_at_def)
qed

lemma Write_finish_installed:
  assumes "\<And>p. p \<in> set toRemove \<Longrightarrow> length p \<le> 1 \<Longrightarrow> \<exists>n. p = [n] \<and> \<not> reserved n \<and> n \<notin> names"
    and "\<And>q. oldTs = Some q \<Longrightarrow> \<exists>x. q = [x] \<and> ts_name x \<and> x \<noteq> ts"
  shows "ensures faulty (installed ts cont names) (Write_finish oldTs toRemove) (\<lambda>_. installed ts cont names)"
proof -
  have rm: "ensures faulty (installed ts cont names) (removeUserVisiblePaths toRemove) (\<lambda>_. installed ts cont names)"
    unfolding removeUserVisiblePaths_def
  proof (rule ens_each_all)
    fix p
    assume p: "p \<in> set toRemove"
    show "ensures faulty (installed ts cont names) (if length p > 1 then ret None else writes (remove_f p)) (\<lambda>_. installed ts cont names)"
    proof (cases "length p > 1")
      case True
      then show ?thesis by (simp add: ens_ret)
    next
      case False
      then obtain n where n: "p = [n]" "\<not> reserved n" "n \<notin> names" using assms(1) [OF p] by auto
      show ?thesis
        unfolding n(1) by (simp, rule ens_writes) (use installed_remove_link [OF _ n(2,3)] in blast)+
    qed
  qed
  have old: "ensures faulty (installed ts cont names) (case oldTs of None \<Rightarrow> ret None | Some q \<Rightarrow> RemoveAll q) (\<lambda>_. installed ts cont names)"
  proof (cases oldTs)
    case (Some q)
    then obtain x where x: "q = [x]" "ts_name x" "x \<noteq> ts" using assms(2) by auto
    show ?thesis
    proof (rule ens_fix)
      fix fs1
      assume i: "installed ts cont names fs1"
      then have "current fs1 \<noteq> Some x" "kept x fs1 fs1" using x(3) by (auto simp: installed_def kept_def)
      then show "ensures faulty (\<lambda>fs. fs = fs1) (case oldTs of None \<Rightarrow> ret None | Some q \<Rightarrow> RemoveAll q) (\<lambda>_. installed ts cont names)"
        unfolding Some x(1) option.case
        by (intro ens_conseq [OF RemoveAll_kept [OF x(2), of fs1 faulty]] installed_kept [OF i _ ts_nameD(2) [OF x(2)] x(3)]) simp_all
    qed
  qed (simp add: ens_ret)
  show ?thesis
    unfolding Write_finish_def
    by (rule ens_then_ok [OF ens_conseq [OF rm] old]) (auto split: option.splits)
qed

definition old_or_new :: "fs \<Rightarrow> (path \<Rightarrow> string option) \<Rightarrow> fs \<Rightarrow> bool" where
  "old_or_new fs0 cont fs \<longleftrightarrow> dir_ok fs \<and> ((\<forall>p. data_at fs p = data_at fs0 p) \<or> (\<forall>p. data_at fs p = cont p))"

definition calm :: "fs \<Rightarrow> string \<Rightarrow> fs \<Rightarrow> bool" where
  "calm fs0 ts fs \<longleftrightarrow> unchanged fs0 fs \<and> current fs \<noteq> Some ts"

lemma old_or_newI:
  "unchanged fs0 fs \<Longrightarrow> old_or_new fs0 cont fs" "installed ts cont names fs \<Longrightarrow> old_or_new fs0 cont fs"
  by (auto simp: old_or_new_def unchanged_def installed_def)

lemma calm_kept:
  assumes "calm fs0 ts fs1" and "x \<noteq> dataDirName" and "current fs1 \<noteq> Some x" and "kept x fs1 fs"
  shows "calm fs0 ts fs"
  using assms(1) kept_current [OF assms(4,2)] kept_data [OF assms(4,2,3)] assms(4)
  by (simp add: calm_def unchanged_def kept_def)

lemma kept_refl: "dir_ok fs \<Longrightarrow> kept x fs fs"
  by (simp add: kept_def)

lemma calm_cleanup:
  assumes "ts_name ts"
  shows "ensures faulty (calm fs0 ts) (RemoveAll [ts]) (\<lambda>_. calm fs0 ts)"
    and "ensures faulty (calm fs0 ts) (writes (remove_f [newDataDirName])) (\<lambda>_. calm fs0 ts)"
proof -
  show "ensures faulty (calm fs0 ts) (RemoveAll [ts]) (\<lambda>_. calm fs0 ts)"
  proof (rule ens_fix)
    fix fs1
    assume c: "calm fs0 ts fs1"
    then have "current fs1 \<noteq> Some ts" "dir_ok fs1" by (simp_all add: calm_def unchanged_def)
    then show "ensures faulty (\<lambda>fs. fs = fs1) (RemoveAll [ts]) (\<lambda>_. calm fs0 ts)"
      by (intro ens_conseq [OF RemoveAll_kept [OF assms, of fs1 faulty]] calm_kept [OF c ts_nameD(2) [OF assms]])
        (simp_all add: kept_refl)
  qed
  show "ensures faulty (calm fs0 ts) (writes (remove_f [newDataDirName])) (\<lambda>_. calm fs0 ts)"
  proof (rule ens_fix)
    fix fs1
    assume c: "calm fs0 ts fs1"
    then have ok: "dir_ok fs1" by (simp add: calm_def unchanged_def)
    then have n: "current fs1 \<noteq> Some newDataDirName" using currentD(2) ts_nameD(3) by blast
    show "ensures faulty (\<lambda>fs. fs = fs1) (writes (remove_f [newDataDirName])) (\<lambda>_. calm fs0 ts)"
      by (intro ens_conseq [OF kept_remove [of newDataDirName "[]" fs1 faulty]] calm_kept [OF c _ n])
        (simp_all add: kept_refl ok n)
  qed
qed

lemma staged_calm:
  "dir_ok fs0 \<Longrightarrow> ts_name ts \<Longrightarrow> map_of fs0 [ts] = None \<Longrightarrow> staged fs0 ts cont names fs \<Longrightarrow> calm fs0 ts fs"
  using staged_unchanged [of fs0 ts cont names fs] by (simp add: calm_def)

lemma Write_swap_installed:
  assumes ts: "dir_ok fs0" "ts_name ts" "map_of fs0 [ts] = None" and names: "\<forall>n\<in>names. \<not> reserved n"
    and fin: "\<And>p. p \<in> set toRemove \<Longrightarrow> length p \<le> 1 \<Longrightarrow> \<exists>n. p = [n] \<and> \<not> reserved n \<and> n \<notin> names"
      "\<And>q. oldTs = Some q \<Longrightarrow> \<exists>x. q = [x] \<and> ts_name x \<and> x \<noteq> ts"
  shows "ensures faulty (\<lambda>fs. staged fs0 ts cont names fs \<and> (\<forall>n\<in>names. map_of fs [n] \<noteq> None)) (Write_swap False ts oldTs toRemove)
    (on_ok (old_or_new fs0 cont) (installed ts cont names))"
proof -
  let ?S = "\<lambda>fs. staged fs0 ts cont names fs \<and> (\<forall>n\<in>names. map_of fs [n] \<noteq> None)"
  let ?L = "\<lambda>fs. ?S fs \<and> map_of fs [newDataDirName] = Some (LinkN [ts])"
  let ?Q = "on_ok (old_or_new fs0 cont) (installed ts cont names)"
  have calm: "calm fs0 ts fs" if "?S fs" for fs using that staged_calm [OF ts] by blast
  have old: "old_or_new fs0 cont fs" if "calm fs0 ts fs" for fs using that old_or_newI(1) by (simp add: calm_def)
  have link: "ensures faulty ?S (writes (symlink_f [ts] [newDataDirName])) (on_ok (calm fs0 ts) ?L)"
  proof (rule ens_writes, goal_cases)
    case (2 fs fs')
    from staged_tmp [OF conjunct1 [OF 2(1)] ts(2) 2(2)] 2(1) names show ?case by simp
  qed (use calm in simp_all)
  have swap: "ensures faulty ?L (swapDataDir False ts) (on_ok (calm fs0 ts) (installed ts cont names))"
    unfolding swapDataDir_def if_False
  proof (rule ens_writes, goal_cases)
    case (2 fs fs')
    have "dir_ok fs" using calm 2(1) by (simp add: calm_def unchanged_def)
    moreover have "\<forall>n\<in>names. \<not> reserved n \<and> map_of fs [n] \<noteq> None" using 2(1) names by simp
    ultimately have "installed ts cont names fs'" using staged_rename [of fs0 ts cont names fs fs'] 2 ts(2) by blast
    then show ?case by simp
  qed (use calm in simp_all)
  have fail1: "ensures faulty (calm fs0 ts) (do { _ \<leftarrow> RemoveAll [ts]; ret (Some e) }) ?Q" for e :: errno
    by (rule ens_bind [OF calm_cleanup(1) [OF ts(2)] ens_ret]) (simp add: old)
  have fail2: "ensures faulty (calm fs0 ts) (do { _ \<leftarrow> writes (remove_f [newDataDirName]); _ \<leftarrow> RemoveAll [ts]; ret (Some e) }) ?Q" for e :: errno
    by (rule ens_bind [OF calm_cleanup(2) [OF ts(2)] fail1])
  have fin': "ensures faulty (installed ts cont names) (Write_finish oldTs toRemove) ?Q"
    by (rule ens_conseq [OF Write_finish_installed [OF fin]]) (auto split: option.split intro: old_or_newI)
  have rest: "ensures faulty (on_ok (calm fs0 ts) (installed ts cont names) r) (case r of
      Some e \<Rightarrow> do { _ \<leftarrow> writes (remove_f [newDataDirName]); _ \<leftarrow> RemoveAll [ts]; ret (Some e) }
    | None \<Rightarrow> Write_finish oldTs toRemove) ?Q" for r :: "errno option"
    using fail2 fin' by (cases r) simp_all
  have "ensures faulty (on_ok (calm fs0 ts) ?L r) (case r of Some e \<Rightarrow> do { _ \<leftarrow> RemoveAll [ts]; ret (Some e) }
     | None \<Rightarrow> do { r \<leftarrow> swapDataDir False ts; (case r of
      Some e \<Rightarrow> do { _ \<leftarrow> writes (remove_f [newDataDirName]); _ \<leftarrow> RemoveAll [ts]; ret (Some e) }
    | None \<Rightarrow> Write_finish oldTs toRemove) }) ?Q" for r :: "errno option"
    using fail1 ens_bind [OF swap rest] by (cases r) simp_all
  then show ?thesis unfolding Write_swap_def by (rule ens_bind [OF link])
qed

definition stamp_ok :: "string \<Rightarrow> bool" where
  \<comment> \<open>the formatted time begins with a digit\<close>
  "stamp_ok stamp \<longleftrightarrow> stamp \<noteq> [] \<and> hd stamp \<in> set ''0123456789''"

lemma stamp_ts_name: "stamp_ok stamp \<Longrightarrow> ts_name ((''..'' @ stamp @ ''.'') @ x)"
  by (cases stamp) (auto simp: stamp_ok_def ts_name_def reserved_def hasPrefix_def dataDirName_def newDataDirName_def)

lemma TempDir_ens:
  "ensures faulty (\<lambda>fs. fs = fs0) (TempDir pre rnd :: ('z world_scheme, errno + string) state)
     (\<lambda>t fs. case t of Inl _ \<Rightarrow> fs = fs0 | Inr ts \<Rightarrow> mkdir_f [ts] fs0 = Inr fs \<and> (\<exists>x. ts = pre @ x))"
proof (induction rnd)
  case Nil
  then show ?case by (simp add: ens_ret)
next
  case (Cons x xs)
  let ?Q = "\<lambda>t fs. case t of Inl _ \<Rightarrow> fs = fs0 | Inr ts \<Rightarrow> mkdir_f [ts] fs0 = Inr fs \<and> (\<exists>x. ts = pre @ x)"
  show ?case
    unfolding TempDir.simps
  proof (rule ens_bind [where R = "on_ok (\<lambda>fs. fs = fs0) (\<lambda>fs. mkdir_f [pre @ x] fs0 = Inr fs)"])
    show "ensures faulty (\<lambda>fs. fs = fs0) (writes (mkdir_f [pre @ x])) (on_ok (\<lambda>fs. fs = fs0) (\<lambda>fs. mkdir_f [pre @ x] fs0 = Inr fs))"
      by (rule ens_writes) auto
    fix r
    show "ensures faulty (on_ok (\<lambda>fs. fs = fs0) (\<lambda>fs. mkdir_f [pre @ x] fs0 = Inr fs) r)
      ((case r of None \<Rightarrow> ret (Inr (pre @ x)) | Some EEXIST \<Rightarrow> TempDir pre xs
        | Some e \<Rightarrow> ret (Inl e)) :: ('z world_scheme, errno + string) state) ?Q"
    proof (cases r)
      case (Some e)
      show ?thesis unfolding Some by (cases e) (simp_all add: Cons.IH ens_ret)
    qed (simp add: ens_ret)
  qed
qed

lemma newTimestampDir_ens:
  assumes "dir_ok fs0" and "stamp_ok stamp"
  shows "ensures faulty (\<lambda>fs. fs = fs0) (newTimestampDir stamp rnd)
     (\<lambda>t fs. case t of Inl _ \<Rightarrow> fs = fs0 \<or> (\<exists>ts. ts_name ts \<and> map_of fs0 [ts] = None \<and> staged_some fs0 ts {} fs)
       | Inr ts \<Rightarrow> staged fs0 ts (\<lambda>_. None) {} fs \<and> ts_name ts \<and> map_of fs0 [ts] = None)"
  unfolding newTimestampDir_def
proof (rule ens_bind [OF TempDir_ens])
  let ?Q = "\<lambda>t fs. case t of Inl _ \<Rightarrow> fs = fs0 \<or> (\<exists>ts. ts_name ts \<and> map_of fs0 [ts] = None \<and> staged_some fs0 ts {} fs)
       | Inr ts \<Rightarrow> staged fs0 ts (\<lambda>_. None) {} fs \<and> ts_name ts \<and> map_of fs0 [ts] = None"
  fix t
  show "ensures faulty (\<lambda>fs. case t of Inl _ \<Rightarrow> fs = fs0 | Inr ts \<Rightarrow> mkdir_f [ts] fs0 = Inr fs \<and> (\<exists>x. ts = (''..'' @ stamp @ ''.'') @ x))
     (case t of Inl e \<Rightarrow> ret (Inl e) | Inr tsDir \<Rightarrow> do {
          c \<leftarrow> writes (chmod_f 493 [tsDir]); ret (case c of Some e \<Rightarrow> Inl e | None \<Rightarrow> Inr tsDir) }) ?Q"
  proof (cases t)
    case (Inl e)
    then show ?thesis by (simp, intro ens_ret) simp
  next
    case (Inr ts)
    have "ensures faulty (\<lambda>fs. mkdir_f [ts] fs0 = Inr fs) (do {
          c \<leftarrow> writes (chmod_f 493 [ts]); ret (case c of Some e \<Rightarrow> Inl e | None \<Rightarrow> Inr ts) }) ?Q" if n: "ts_name ts"
    proof (rule ens_bind [where R = "\<lambda>_ fs. staged fs0 ts (\<lambda>_. None) {} fs \<and> map_of fs0 [ts] = None"])
      show "ensures faulty (\<lambda>fs. mkdir_f [ts] fs0 = Inr fs) (writes (chmod_f 493 [ts]))
          (\<lambda>_ fs. staged fs0 ts (\<lambda>_. None) {} fs \<and> map_of fs0 [ts] = None)"
      proof (rule ens_writes, goal_cases)
        case (2 fs fs')
        from staged_start [OF assms(1) n 2(1)] staged_chmod [of fs0 ts _ "{}" fs "[]" 493 fs'] 2(2) show ?case by simp
      qed (use staged_start [OF assms(1) n] in blast)+
      fix c :: "errno option"
      show "ensures faulty (\<lambda>fs. staged fs0 ts (\<lambda>_. None) {} fs \<and> map_of fs0 [ts] = None)
          (ret (case c of Some e \<Rightarrow> Inl e | None \<Rightarrow> Inr ts)) ?Q"
        by (rule ens_ret) (use n in \<open>auto split: option.splits\<close>)
    qed
    with stamp_ts_name [OF assms(2)] show ?thesis unfolding Inr sum.case by (intro ens_fact) auto
  qed
qed

text \<open>
  What holds after an update follows from what holds after the swap: \<open>E\<close> is the claim for
  failed updates and \<open>R\<close> for successful ones.
\<close>

lemma Write_install_gen:
  assumes ok: "dir_ok fs0" "stamp_ok stamp" and cp: "gomap_ok cp" "\<forall>n\<in>names_of cp. \<not> reserved n"
    and E: "E fs0" "\<And>ts fs. ts_name ts \<Longrightarrow> map_of fs0 [ts] = None \<Longrightarrow> staged_some fs0 ts (names_of cp) fs \<Longrightarrow> E fs"
    and swap: "\<And>ts. ts_name ts \<Longrightarrow> map_of fs0 [ts] = None \<Longrightarrow>
      ensures faulty (\<lambda>fs. staged fs0 ts (pdata cp) (names_of cp) fs \<and> (\<forall>n\<in>names_of cp. map_of fs [n] \<noteq> None))
        (Write_swap False ts oldTs toRemove :: ('z world_scheme, errno option) state) (on_ok E R)"
  shows "ensures faulty (\<lambda>fs. fs = fs0)
    (Write_install False masked stamp rnd cp oldTs toRemove :: ('z world_scheme, errno option) state) (on_ok E R)"
  unfolding Write_install_def
proof (rule ens_bind [OF newTimestampDir_ens [OF ok]])
  let ?N = "names_of cp"
  fix t
  show "ensures faulty (\<lambda>fs. case t of Inl _ \<Rightarrow> fs = fs0 \<or> (\<exists>ts. ts_name ts \<and> map_of fs0 [ts] = None \<and> staged_some fs0 ts {} fs)
       | Inr ts \<Rightarrow> staged fs0 ts (\<lambda>_. None) {} fs \<and> ts_name ts \<and> map_of fs0 [ts] = None)
     ((case t of Inl e \<Rightarrow> ret (Some e) | Inr ts \<Rightarrow> then_ok (writePayloadToDir masked cp [ts])
            (then_ok (createUserVisibleFiles cp) (Write_swap False ts oldTs toRemove))) :: ('z world_scheme, errno option) state) (on_ok E R)"
  proof (cases t)
    case (Inl e)
    have "E fs" if "fs = fs0 \<or> (\<exists>ts. ts_name ts \<and> map_of fs0 [ts] = None \<and> staged_some fs0 ts {} fs)" for fs
      using that E staged_mono [OF _ empty_subsetI, of fs0 _ _ fs ?N] unfolding staged_some_def by blast
    with Inl show ?thesis by (simp, intro ens_ret) simp
  next
    case (Inr ts)
    have "ensures faulty (staged fs0 ts (\<lambda>_. None) {}) (then_ok (writePayloadToDir masked cp [ts])
            (then_ok (createUserVisibleFiles cp) (Write_swap False ts oldTs toRemove)) :: ('z world_scheme, errno option) state) (on_ok E R)"
      if ts: "ts_name ts" "map_of fs0 [ts] = None"
    proof -
      note old = E(2) [OF ts]
      have w: "ensures faulty (staged fs0 ts (\<lambda>_. None) {}) (writePayloadToDir masked cp [ts] :: ('z world_scheme, errno option) state)
          (on_ok E (staged fs0 ts (pdata cp) ?N))"
      proof (rule ens_conseq [OF writePayloadToDir_staged [OF cp(1), where ?fs0.0 = fs0 and ts = ts]], goal_cases)
        case (1 fs)
        then show ?case by (rule staged_mono) simp
      next
        case (2 r fs)
        then show ?case using old [of fs] by (cases r) simp_all
      qed
      have c: "ensures faulty (staged fs0 ts (pdata cp) ?N) (createUserVisibleFiles cp :: ('z world_scheme, errno option) state)
          (on_ok E (\<lambda>fs. staged fs0 ts (pdata cp) ?N fs \<and> (\<forall>n\<in>?N. map_of fs [n] \<noteq> None)))"
      proof (rule ens_conseq [OF createUserVisibleFiles_staged [OF ts(1) cp(2), where ?fs0.0 = fs0 and cont = "pdata cp" and names = ?N]], goal_cases)
        case (2 r fs)
        then show ?case using old [of fs] by (cases r) simp_all
      qed
      show ?thesis by (rule ens_seq [OF w ens_seq [OF c swap [OF ts]]])
    qed
    then show ?thesis unfolding Inr sum.case by (intro ens_fact) auto
  qed
qed

lemma Write_install_ens:
  assumes ok: "dir_ok fs0" "stamp_ok stamp" and cp: "gomap_ok cp" "\<forall>n\<in>names_of cp. \<not> reserved n"
    and fin: "\<And>p. p \<in> set toRemove \<Longrightarrow> length p \<le> 1 \<Longrightarrow> \<exists>n. p = [n] \<and> \<not> reserved n \<and> n \<notin> names_of cp"
      "\<And>q. oldTs = Some q \<Longrightarrow> \<exists>x. q = [x] \<and> ts_name x \<and> map_of fs0 [x] \<noteq> None"
  shows "ensures faulty (\<lambda>fs. fs = fs0) (Write_install False masked stamp rnd cp oldTs toRemove)
    (on_ok (old_or_new fs0 (pdata cp)) (\<lambda>fs. dir_ok fs \<and> (\<forall>p. data_at fs p = pdata cp p)))"
proof (rule Write_install_gen [OF ok cp])
  show "old_or_new fs0 (pdata cp) fs0" using ok(1) by (simp add: old_or_new_def)
  show "old_or_new fs0 (pdata cp) fs" if "ts_name ts" "map_of fs0 [ts] = None" "staged_some fs0 ts (names_of cp) fs" for ts fs
    using that(3) staged_unchanged(1) [OF ok(1) that(1,2)] old_or_newI(1) unfolding staged_some_def by blast
  fix ts
  assume ts: "ts_name ts" "map_of fs0 [ts] = None"
  have o: "\<exists>x. q = [x] \<and> ts_name x \<and> x \<noteq> ts" if "oldTs = Some q" for q
  proof -
    from fin(2) [OF that] obtain x where "q = [x]" "ts_name x" "map_of fs0 [x] \<noteq> None" by blast
    moreover from this ts(2) have "x \<noteq> ts" by fastforce
    ultimately show ?thesis by blast
  qed
  have "ensures faulty (\<lambda>fs. staged fs0 ts (pdata cp) (names_of cp) fs \<and> (\<forall>n\<in>names_of cp. map_of fs [n] \<noteq> None))
      (Write_swap False ts oldTs toRemove) (on_ok (old_or_new fs0 (pdata cp)) (installed ts (pdata cp) (names_of cp)))"
    by (rule Write_swap_installed [OF ok(1) ts cp(2)]) (fact fin(1) o)+
  then show "ensures faulty (\<lambda>fs. staged fs0 ts (pdata cp) (names_of cp) fs \<and> (\<forall>n\<in>names_of cp. map_of fs [n] \<noteq> None))
      (Write_swap False ts oldTs toRemove) (on_ok (old_or_new fs0 (pdata cp)) (\<lambda>fs. dir_ok fs \<and> (\<forall>p. data_at fs p = pdata cp p)))"
  proof (rule ens_conseq, goal_cases)
    case (2 r fs)
    then show ?case by (cases r) (simp_all add: installed_def)
  qed
qed

subsection \<open>The whole update\<close>

lemma set_subPaths: "set (subPaths k) = {q. prefix q k \<and> q \<noteq> []}"
proof (cases k)
  case (Cons x xs)
  have "set (prefixes xs) = {q. prefix q xs}" by (auto simp: in_set_prefixes)
  with Cons show ?thesis by (auto simp: subPaths_def image_iff prefix_Cons)
qed (simp add: subPaths_def)

lemma set_pathsToRemove:
  "set (pathsToRemove cp [ts] fs) = {q. q \<noteq> [] \<and> map_of fs (ts # q) \<noteq> None \<and> (\<forall>k\<in>fst ` set cp. \<not> prefix q k)}"
proof -
  have "set (map (drop (length [ts])) (below [ts] fs)) = {q. map_of fs (ts # q) \<noteq> None}"
    by (force simp: set_below image_iff prefix_def)
  then show ?thesis by (auto simp: pathsToRemove_def set_subPaths)
qed

lemma shouldWritePayload_False:
  "shouldWritePayload cp old fs = Inr False \<longleftrightarrow> (\<forall>(p, f)\<in>set cp. shouldWriteFile (old @ p) (fp_Data f) fs = Inr False)"
  by (induction cp) (auto split: sum.splits if_splits)

lemma shouldWriteFile_False:
  assumes "dir_ok fs" and "current fs = Some ts" and "shouldWriteFile (ts # p) d fs = Inr False"
  shows "file_at fs (ts # p) = Some d"
proof -
  note T = dir_tree [OF assms(1)]
  have "readFile_f (ts # p) fs = Inr d"
    using assms(3) by (auto simp: shouldWriteFile_def split: if_splits sum.splits)
  then show ?thesis
    using node_at_walk_plain [OF T, of "[ts]" maxLinks p] walk_into_dir [OF T currentD(3) [OF assms(1,2)], of maxLinks p]
    by (auto simp: readFile_f_def stat_f_def file_at_def simp del: walk.simps split: sum.splits node.splits)
qed

lemma up_to_date:
  assumes ok: "dir_ok fs" "current fs = Some ts" and "gomap_ok cp"
    and should: "shouldWritePayload cp [ts] fs = Inr False" and "pathsToRemove cp [ts] fs = []"
  shows "data_at fs q = pdata cp q"
proof -
  have there: "file_at fs (ts # p) = Some (fp_Data f)" if "(p, f) \<in> set cp" for p f
    using should that shouldWriteFile_False [OF ok] by (auto simp: shouldWritePayload_False)
  have d: "data_at fs q = file_at fs (ts # q)" by (simp add: data_at_def ok)
  show ?thesis
  proof (cases "map_of cp q")
    case (Some f)
    then show ?thesis using there [OF map_of_SomeD [OF Some]] by (simp add: d pdata_def)
  next
    case None
    have "file_at fs (ts # q) = None"
    proof (rule ccontr)
      assume "file_at fs (ts # q) \<noteq> None"
      then obtain x m where f: "map_of fs (ts # q) = Some (FileN x m)" by (auto simp: file_at_def split: option.splits node.splits)
      then have "q \<noteq> []" using currentD(3) [OF ok] by auto
      moreover have "q \<notin> set (pathsToRemove cp [ts] fs)" using assms(5) by simp
      ultimately obtain k g where k: "(k, g) \<in> set cp" "prefix q k" using f unfolding set_pathsToRemove by auto
      from None k(1) have "q \<noteq> k" by (force simp: map_of_eq_None_iff)
      with k(2) obtain r where r: "k = q @ r" "r \<noteq> []" by (auto simp: prefix_def)
      have "map_of fs ((ts # q) @ r) \<noteq> None" using there [OF k(1)] r(1) by (auto simp: file_at_def split: option.splits)
      from tree_parent [OF dir_tree [OF ok(1)] this r(2)] f show False by simp
    qed
    then show ?thesis by (simp add: d pdata_def None)
  qed
qed

lemma ens_reads_at:
  assumes "ensures faulty (\<lambda>fs. fs = fs0) (g (f fs0)) Q"
  shows "ensures faulty (\<lambda>fs. fs = fs0) (State_Monad.bind (reads f) g) Q"
  using assms by (simp add: ensures_def reads_def)

lemma Write_clean_gen:
  assumes ok: "dir_ok fs0" and cp: "gomap_ok cp" and "E fs0" and up: "(\<forall>p. data_at fs0 p = pdata cp p) \<Longrightarrow> R fs0"
    and ins: "\<And>oldTs toRemove.
      (\<And>p. p \<in> set toRemove \<Longrightarrow> length p \<le> 1 \<Longrightarrow> \<exists>n. p = [n] \<and> \<not> reserved n \<and> n \<notin> names_of cp) \<Longrightarrow>
      (\<And>q. oldTs = Some q \<Longrightarrow> \<exists>x. q = [x] \<and> ts_name x \<and> map_of fs0 [x] \<noteq> None) \<Longrightarrow>
      ensures faulty (\<lambda>fs. fs = fs0) (Write_install False masked stamp rnd cp oldTs toRemove :: ('z world_scheme, errno option) state) (on_ok E R)"
  shows "ensures faulty (\<lambda>fs. fs = fs0) (Write_clean False masked stamp rnd cp :: ('z world_scheme, errno option) state) (on_ok E R)"
proof (cases "current fs0")
  case None
  with dir_current [OF ok] have l: "readlink_f [dataDirName] fs0 = Inl ENOENT" by (simp add: readlink_top [OF dir_tree [OF ok]])
  have "ensures faulty (\<lambda>fs. fs = fs0) (Write_install False masked stamp rnd cp None [] :: ('z world_scheme, errno option) state) (on_ok E R)"
    by (rule ins) simp_all
  then show ?thesis unfolding Write_clean_def by (intro ens_reads_at) (simp add: l)
next
  case (Some ts)
  note c = currentD [OF ok Some]
  have l: "readlink_f [dataDirName] fs0 = Inr [ts]" using c(1) by (simp add: readlink_top [OF dir_tree [OF ok]])
  let ?rm = "pathsToRemove cp [ts] fs0"
  have i: "ensures faulty (\<lambda>fs. fs = fs0) (Write_install False masked stamp rnd cp (Some [ts]) ?rm :: ('z world_scheme, errno option) state) (on_ok E R)"
  proof (rule ins)
    fix p
    assume p: "p \<in> set ?rm" "length p \<le> 1"
    then have r: "p \<noteq> []" "map_of fs0 (ts # p) \<noteq> None" "\<forall>k\<in>fst ` set cp. \<not> prefix p k" unfolding set_pathsToRemove by auto
    with p(2) obtain n where n: "p = [n]" "map_of fs0 [ts, n] \<noteq> None" "\<forall>k\<in>fst ` set cp. \<not> prefix [n] k"
      by (cases p) auto
    have "n \<notin> names_of cp" using n(3) by (auto simp: names_of_def prefix_def neq_Nil_conv)
    with n dir_covered(1) [OF ok Some n(2)] show "\<exists>n. p = [n] \<and> \<not> reserved n \<and> n \<notin> names_of cp" by blast
  qed (use c in auto)
  have "ensures faulty (\<lambda>fs. fs = fs0) ((case shouldWritePayload cp [ts] fs0 of Inl e \<Rightarrow> ret (Some e)
         | Inr should \<Rightarrow> if \<not> should \<and> ?rm = [] then ret None
             else Write_install False masked stamp rnd cp (Some [ts]) ?rm) :: ('z world_scheme, errno option) state) (on_ok E R)"
  proof (cases "shouldWritePayload cp [ts] fs0")
    case (Inl e)
    show ?thesis unfolding Inl sum.case by (rule ens_ret) (simp add: assms(3))
  next
    case (Inr should)
    show ?thesis
    proof (cases "\<not> should \<and> ?rm = []")
      case True
      with up_to_date [OF ok Some cp] Inr up have "R fs0" by simp
      then show ?thesis unfolding Inr sum.case if_P [OF True] by (intro ens_ret) simp
    next
      case False
      show ?thesis unfolding Inr sum.case if_not_P [OF False] by (rule i)
    qed
  qed
  then show ?thesis
    unfolding Write_clean_def by (intro ens_reads_at) (unfold l sum.case, intro ens_reads_at)
qed

lemma Write_clean_ens:
  assumes ok: "dir_ok fs0" "stamp_ok stamp" and cp: "gomap_ok cp" "\<forall>n\<in>names_of cp. \<not> reserved n"
  shows "ensures faulty (\<lambda>fs. fs = fs0) (Write_clean False masked stamp rnd cp)
    (on_ok (old_or_new fs0 (pdata cp)) (\<lambda>fs. dir_ok fs \<and> (\<forall>p. data_at fs p = pdata cp p)))"
  by (rule Write_clean_gen [OF ok(1) cp(1) _ _ Write_install_ens [OF ok cp]]) (simp_all add: old_or_new_def ok(1))

subsection \<open>Payloads\<close>

definition projected :: "(string, FileProjection) gomap \<Rightarrow> path \<Rightarrow> string option" where
  \<comment> \<open>the file contents a payload asks for; of two spellings of a path the later one counts\<close>
  "projected payload p = map_option fp_Data (map_of (rev (map (\<lambda>(k, f). (clean_path k, f)) payload)) p)"

definition unreserved :: "(string, FileProjection) gomap \<Rightarrow> bool" where
  "unreserved payload \<longleftrightarrow> (\<forall>k\<in>fst ` set payload. clean_path k \<noteq> [] \<longrightarrow> \<not> reserved (hd (clean_path k)))"

lemma validatePayload_loop_ok:
  "validatePayload_loop payload acc = Inr cp \<Longrightarrow> gomap_ok acc \<Longrightarrow>
   gomap_ok cp \<and> map_of cp = map_of acc ++ map_of (rev (map (\<lambda>(k, f). (clean_path k, f)) payload))
   \<and> fst ` set cp = fst ` set acc \<union> clean_path ` fst ` set payload"
proof (induction payload acc rule: validatePayload_loop.induct)
  case (2 k content kvs acc)
  from 2(2) have v: "validatePath k = None" "validatePayload_loop kvs (AList.update (clean_path k) content acc) = Inr cp"
    by (simp_all split: option.splits)
  have "gomap_ok (AList.update (clean_path k) content acc)" using 2(3) by (simp add: gomap_ok_def distinct_update)
  note IH = 2(1) [OF v(1) v(2) this]
  have "map_of cp = map_of acc ++ map_of (rev (map (\<lambda>(k, f). (clean_path k, f)) ((k, content) # kvs)))"
  proof -
    have "map_of (AList.update (clean_path k) content acc) = map_of acc ++ [clean_path k \<mapsto> content]"
      by (simp add: update_conv')
    moreover have "map_of (rev (map (\<lambda>(k, f). (clean_path k, f)) ((k, content) # kvs)))
        = [clean_path k \<mapsto> content] ++ map_of (rev (map (\<lambda>(k, f). (clean_path k, f)) kvs))" by simp
    ultimately show ?thesis using IH by (simp only: map_add_assoc)
  qed
  moreover have "fst ` set cp = fst ` set acc \<union> clean_path ` fst ` set ((k, content) # kvs)"
    using IH by (simp add: dom_update)
  ultimately show ?case using IH by blast
qed simp

lemma validatePayload_ok:
  assumes "validatePayload payload = Inr cp" and "unreserved payload"
  shows "gomap_ok cp" "pdata cp = projected payload" "\<forall>n\<in>names_of cp. \<not> reserved n"
  using validatePayload_loop_ok [of payload "[]" cp] assms
  by (auto simp: validatePayload_def gomap_ok_def pdata_def projected_def fun_eq_iff names_of_def unreserved_def)

text \<open>
  A payload whose keys have no directory part and pass the validation is unreserved. With a
  leading \<^verbatim>\<open>./\<close> a reserved name passes: the check looks at the path before it is cleaned.
\<close>

lemma validated_names_unreserved:
  assumes "\<forall>k\<in>fst ` set payload. CHR ''/'' \<notin> set k \<and> validatePath k = None"
  shows "unreserved payload"
proof -
  have "\<not> reserved (hd (clean_path k))" if "k \<in> fst ` set payload" "clean_path k \<noteq> []" for k
  proof -
    have s: "split_on CHR ''/'' k = [k]" using assms that(1) by (auto intro: split_on_no_sep)
    then have "clean_path k = [k]" using that(2) by (auto simp: clean_path_def split: if_splits)
    moreover have "\<not> hasPrefix k ''..''"
      using assms that(1) s by (fastforce simp: validatePath_def validateItem_def hasPrefix_iff split: if_splits option.splits)
    ultimately show ?thesis by (simp add: reserved_def)
  qed
  then show ?thesis by (simp add: unreserved_def)
qed

lemma reserved_name_passes: "validatePath ''./..data'' = None \<and> clean_path ''./..data'' = [dataDirName]"
  by code_simp

subsection \<open>Theorems\<close>

lemma Write_ens:
  assumes "validatePayload payload = Inr cp"
    and "ensures faulty P (Write_clean windows masked stamp rnd cp :: ('z world_scheme, errno option) state) (\<lambda>r. Q (map_option SysError r))"
  shows "ensures faulty P (Write windows masked stamp rnd payload :: ('z world_scheme, write_error option) state) Q"
  unfolding Write_def assms(1) sum.case by (rule ens_bind [OF assms(2) ens_ret])

lemma Write_invalid: "validatePayload payload = Inl e \<Longrightarrow> run_state (Write windows masked stamp rnd payload) w = (Some (BadPath e), w)"
  by (simp add: Write_def)

lemma Write_triple:
  fixes payload :: "(string, FileProjection) gomap"
  assumes "dir_ok fs0" and "stamp_ok stamp" and "unreserved payload"
  shows "ensures True (\<lambda>fs. fs = fs0) (Write False masked stamp rnd payload) (\<lambda>err fs. dir_ok fs
    \<and> ((\<forall>p. visible p \<longrightarrow> view fs p = view fs0 p) \<or> (\<forall>p. visible p \<longrightarrow> view fs p = projected payload p))
    \<and> (err = None \<longrightarrow> (\<forall>p. visible p \<longrightarrow> view fs p = projected payload p)))" (is "ensures _ _ _ ?Q")
proof (cases "validatePayload payload")
  case (Inl e)
  show ?thesis unfolding Write_def Inl sum.case by (rule ens_ret) (use assms(1) in simp)
next
  case (Inr cp)
  note cp = validatePayload_ok [OF Inr assms(3)]
  let ?E = "old_or_new fs0 (pdata cp)" and ?R = "\<lambda>fs. dir_ok fs \<and> (\<forall>p. data_at fs p = pdata cp p)"
  have "ensures True (\<lambda>fs. fs = fs0) (Write False masked stamp rnd payload) (on_ok ?E ?R)"
    by (rule Write_ens [OF Inr], rule ens_conseq [OF Write_clean_ens [OF assms(1,2) cp(1,3)]]) (simp_all split: option.splits)
  then show ?thesis
  proof (rule ens_conseq)
    fix err :: "write_error option" and fs
    assume q: "on_ok ?E ?R err fs"
    then have "?E fs" by (cases err) (auto simp: old_or_new_def)
    moreover have "\<forall>p. visible p \<longrightarrow> view fs p = projected payload p" if "err = None"
      using q that by (simp add: view_data_at cp(2))
    ultimately show "?Q err fs"
      using assms(1) by (auto simp: old_or_new_def view_data_at cp(2))
  qed
qed

lemma Write_outcome:
  assumes "dir_ok (w_fs w)" and "stamp_ok stamp" and "unreserved payload"
    and "run_state (Write False masked stamp rnd payload) w = (err, w')"
  shows "dir_ok (w_fs w')
    \<and> ((\<forall>p. visible p \<longrightarrow> view (w_fs w') p = view (w_fs w) p) \<or> (\<forall>p. visible p \<longrightarrow> view (w_fs w') p = projected payload p))
    \<and> (err = None \<longrightarrow> (\<forall>p. visible p \<longrightarrow> view (w_fs w') p = projected payload p))"
  using ensuresD(1) [OF Write_triple [OF assms(1-3)] assms(4)] by simp

text \<open>
  C7. Updates of the certificate directory are atomic. Whatever calls fail, and if the
  process is killed at any point, a reader of the directory sees for all files together
  either the contents from before or exactly the payload, and never a mixture; a successful
  update has the payload visible. The directory stays well-formed, so this holds for any
  sequence of updates.
\<close>

theorem Write_atomic:
  assumes "dir_ok (w_fs w)" and "stamp_ok stamp" and "unreserved payload"
    and "run_state (Write False masked stamp rnd payload) w = (err, w')"
  shows "dir_ok (w_fs w')
    \<and> ((\<forall>p. visible p \<longrightarrow> view (w_fs w') p = view (w_fs w) p) \<or> (\<forall>p. visible p \<longrightarrow> view (w_fs w') p = projected payload p))
    \<and> (err = None \<longrightarrow> (\<forall>p. visible p \<longrightarrow> view (w_fs w') p = projected payload p))"
  using assms by (rule Write_outcome)

lemma Write_swap_blocked:
  assumes ts: "dir_ok fs0" "ts_name ts" "map_of fs0 [ts] = None" and tmp: "map_of fs0 [newDataDirName] \<noteq> None"
  shows "ensures faulty (staged fs0 ts cont names) (Write_swap False ts oldTs toRemove)
    (on_ok (\<lambda>fs. unchanged fs0 fs \<and> map_of fs [newDataDirName] \<noteq> None) (\<lambda>_. False))"
proof -
  let ?Q = "on_ok (\<lambda>fs. unchanged fs0 fs \<and> map_of fs [newDataDirName] \<noteq> None) (\<lambda>_. False)"
  let ?P = "staged fs0 ts cont names"
  have blocked: "symlink_f [ts] [newDataDirName] fs = Inl EEXIST" if "?P fs" for fs
    using stagedD(7) [OF that tmp] tmp by (simp add: symlink_f_def put_new_top [OF stagedD(1) [OF that]])
  have link: "ensures faulty ?P (writes (symlink_f [ts] [newDataDirName])) (on_ok ?P (\<lambda>_. False))"
    by (rule ens_writes) (simp_all add: blocked)
  have rm: "ensures faulty ?P (do { _ \<leftarrow> RemoveAll [ts]; ret (Some e) }) ?Q" for e :: errno
  proof (rule ens_fix)
    fix fs1
    assume st: "?P fs1"
    note c = staged_unchanged [OF ts st]
    have k: "unchanged fs0 fs \<and> map_of fs [newDataDirName] \<noteq> None" if "kept ts fs1 fs" for fs
    proof -
      have "map_of fs [newDataDirName] = map_of fs1 [newDataDirName]"
        using that ts_nameD(3) [OF ts(2)] by (simp add: kept_def eq_commute)
      with c(1) kept_data [OF that ts_nameD(2) [OF ts(2)] c(2)] that stagedD(7) [OF st tmp] tmp show ?thesis
        by (simp add: unchanged_def kept_def)
    qed
    have "ensures faulty (\<lambda>fs. fs = fs1) (RemoveAll [ts]) (\<lambda>_. kept ts fs1)"
      by (rule ens_conseq [OF RemoveAll_kept [OF ts(2) c(2)]]) (use c(1) in \<open>auto simp: kept_def unchanged_def\<close>)
    then show "ensures faulty (\<lambda>fs. fs = fs1) (do { _ \<leftarrow> RemoveAll [ts]; ret (Some e) }) ?Q"
      by (rule ens_bind [OF _ ens_ret]) (simp add: k)
  qed
  have "ensures faulty (on_ok ?P (\<lambda>_. False) r) (case r of Some e \<Rightarrow> do { _ \<leftarrow> RemoveAll [ts]; ret (Some e) } | None \<Rightarrow> m) ?Q"
    for r :: "errno option" and m
    using rm by (cases r) (simp_all add: ensures_def)
  then show ?thesis unfolding Write_swap_def by (rule ens_bind [OF link])
qed

definition example_dir :: fs where
  "example_dir =
     [([], DirN), ([''..a''], DirN), ([''..a'', ''cert''], FileN ''c0'' 438), ([''..a'', ''key''], FileN ''k0'' 438),
      ([''..data''], LinkN [''..a'']), ([''cert''], LinkN [''..data'', ''cert'']), ([''key''], LinkN [''..data'', ''key''])]"

definition example_payload :: "(string, FileProjection) gomap" where
  "example_payload = [(''cert'', \<lparr>fp_Data = ''c1'', fp_Mode = 438\<rparr>), (''key'', \<lparr>fp_Data = ''k1'', fp_Mode = 438\<rparr>)]"

definition crash_at :: "nat \<Rightarrow> fs \<Rightarrow> world" where
  "crash_at k fs = \<lparr>w_fs = fs, w_sched = (\<lambda>n. if k \<le> n then Some EIO else None), w_tick = 0\<rparr>"

definition no_faults_world :: "fs \<Rightarrow> world" where
  "no_faults_world fs = \<lparr>w_fs = fs, w_sched = (\<lambda>_. None), w_tick = 0\<rparr>"

lemma example_dir_ok: "dir_ok example_dir"
proof -
  have "tree_ok example_dir"
    by (rule tree_okI) (auto simp: example_dir_def append_eq_Cons_conv split: if_splits)
  then show ?thesis
  proof (rule dir_okI)
    show "nd = LinkN [dataDirName, n]" if "\<not> reserved n" "map_of example_dir [n] = Some nd" for n nd
      using that by (auto simp: example_dir_def dataDirName_def reserved_def hasPrefix_def split: if_splits)
    show "map_of example_dir [n] \<noteq> Some (LinkN t)" if "ts_name n" for n t
      using that by (auto simp: example_dir_def dataDirName_def ts_name_def reserved_def hasPrefix_def)
    have "\<not> reserved n \<and> map_of example_dir [n] \<noteq> None" if "map_of example_dir [''..a'', n] \<noteq> None" for n
      using that by (auto simp: example_dir_def reserved_def hasPrefix_def split: if_splits)
    moreover have "map_of example_dir [dataDirName] = Some (LinkN [''..a''])" "ts_name ''..a''" "map_of example_dir [''..a''] = Some DirN"
      by (simp_all add: example_dir_def dataDirName_def newDataDirName_def ts_name_def reserved_def hasPrefix_def)
    ultimately show "map_of example_dir [dataDirName] = None \<or> (\<exists>ts. map_of example_dir [dataDirName] = Some (LinkN [ts]) \<and> ts_name ts
      \<and> map_of example_dir [ts] = Some DirN \<and> (\<forall>n. map_of example_dir [ts, n] \<noteq> None \<longrightarrow> \<not> reserved n \<and> map_of example_dir [n] \<noteq> None))"
      by blast
  qed
qed

lemma example_payload_ok: "unreserved example_payload" "stamp_ok ''1''"
  by (code_simp, simp add: stamp_ok_def)

theorem Write_atomic_witness:
  "\<exists>err w'. run_state (Write False id ''1'' [''x''] example_payload) (crash_at 9 example_dir) = (err, w') \<and> err \<noteq> None
     \<and> dir_ok (w_fs w') \<and> view (w_fs w') [''cert''] = Some ''c0'' \<and> view (w_fs w') [''key''] = Some ''k0''"
proof -
  let ?w = "crash_at 9 example_dir"
  obtain err w' where run: "run_state (Write False id ''1'' [''x''] example_payload) ?w = (err, w')"
    by (cases "run_state (Write False id ''1'' [''x''] example_payload) ?w") blast
  have ok: "dir_ok (w_fs ?w)" by (simp add: crash_at_def example_dir_ok)
  note t = Write_atomic [OF ok example_payload_ok(2,1) run]
  have "fst (run_state (Write False id ''1'' [''x''] example_payload) ?w) \<noteq> None
    \<and> view (w_fs (snd (run_state (Write False id ''1'' [''x''] example_payload) ?w))) [''cert''] = Some ''c0''
    \<and> view (w_fs (snd (run_state (Write False id ''1'' [''x''] example_payload) ?w))) [''key''] = Some ''k0''" by code_simp
  with t run show ?thesis by simp
qed

text \<open>
  C38. A killed update can block all later ones. If the temporary link is left over, which is
  so after a crash between its creation and the rename, every update that has to change
  something fails, whatever else happens; the old files stay visible and the link stays,
  so the next update fails as well.
\<close>

theorem leftover_link_blocks_updates:
  fixes w :: "'z world_scheme"
  assumes "dir_ok (w_fs w)" and "stamp_ok stamp" and "unreserved payload"
    and "map_of (w_fs w) [newDataDirName] \<noteq> None" and "visible p" and "view (w_fs w) p \<noteq> projected payload p"
    and "run_state (Write False masked stamp rnd payload) w = (err, w')"
  shows "err \<noteq> None \<and> dir_ok (w_fs w') \<and> map_of (w_fs w') [newDataDirName] \<noteq> None
    \<and> (\<forall>p. visible p \<longrightarrow> view (w_fs w') p = view (w_fs w) p)"
proof (cases "validatePayload payload")
  case (Inl e)
  have "err = Some (BadPath e)" "w' = w" using assms(7) Write_invalid [OF Inl, of False masked stamp rnd w] by simp_all
  with assms(1,4) show ?thesis by simp
next
  case (Inr cp)
  note cp = validatePayload_ok [OF Inr assms(3)]
  let ?E = "\<lambda>fs. unchanged (w_fs w) fs \<and> map_of fs [newDataDirName] \<noteq> None"
  have needed: "\<not> (\<forall>p. data_at (w_fs w) p = pdata cp p)"
    using assms(6) view_data_at [OF assms(1,5)] cp(2) by auto
  have E0: "?E (w_fs w)" using assms(1,4) by (simp add: unchanged_def)
  have staged: "?E fs" if "ts_name ts" "map_of (w_fs w) [ts] = None" "staged_some (w_fs w) ts (names_of cp) fs" for ts fs
  proof -
    from that(3) obtain cont where st: "staged (w_fs w) ts cont (names_of cp) fs" by (auto simp: staged_some_def)
    show ?thesis using staged_unchanged(1) [OF assms(1) that(1,2) st] stagedD(7) [OF st assms(4)] assms(4) by simp
  qed
  have clean: "ensures True (\<lambda>fs. fs = w_fs w) (Write_clean False masked stamp rnd cp :: ('z world_scheme, errno option) state)
    (on_ok ?E (\<lambda>_. False))"
  proof (rule Write_clean_gen [where E = ?E, OF assms(1) cp(1) E0], goal_cases)
    case 1
    with needed show ?case by simp
  next
    case (2 oldTs toRemove)
    show ?case
    proof (rule Write_install_gen [where E = ?E, OF assms(1,2) cp(1,3) E0 staged], goal_cases)
      case (4 ts)
      show ?case by (rule ens_conseq [OF Write_swap_blocked [OF assms(1) 4 assms(4)]]) auto
    qed
  qed
  have "ensures True (\<lambda>fs. fs = w_fs w) (Write False masked stamp rnd payload :: ('z world_scheme, write_error option) state)
    (on_ok ?E (\<lambda>_. False))"
    by (rule Write_ens [OF Inr], rule ens_conseq [OF clean]) (simp_all split: option.splits)
  from ensuresD(1) [OF this assms(7)] have "on_ok ?E (\<lambda>_. False) err (w_fs w')" by simp
  then have "err \<noteq> None" "?E (w_fs w')" by (cases err; simp)+
  with assms(1) show ?thesis by (simp add: unchanged_def view_data_at)
qed

theorem leftover_link_blocks_updates_witness:
  "\<exists>w err w'. w = snd (run_state (Write False id ''1'' [''x''] example_payload) (crash_at 9 example_dir))
     \<and> run_state (Write False id ''2'' [''y''] example_payload) (no_faults_world (w_fs w)) = (err, w')
     \<and> err \<noteq> None \<and> view (w_fs w') [''cert''] = Some ''c0'' \<and> map_of (w_fs w') [newDataDirName] \<noteq> None"
proof -
  let ?w = "snd (run_state (Write False id ''1'' [''x''] example_payload) (crash_at 9 example_dir)) :: world"
  let ?n = "no_faults_world (w_fs ?w)"
  obtain err w' where run: "run_state (Write False id ''2'' [''y''] example_payload) ?n = (err, w')"
    by (cases "run_state (Write False id ''2'' [''y''] example_payload) ?n") blast
  have "dir_ok (w_fs ?w)"
    using Write_outcome [OF _ example_payload_ok(2,1) surjective_pairing, of "crash_at 9 example_dir" id "[''x'']"] example_dir_ok
    by (simp add: crash_at_def)
  then have ok: "dir_ok (w_fs ?n)" by (simp add: no_faults_world_def)
  have s: "stamp_ok ''2''" by (simp add: stamp_ok_def)
  have e: "map_of (w_fs ?n) [newDataDirName] \<noteq> None \<and> view (w_fs ?n) [''cert''] = Some ''c0''
    \<and> view (w_fs ?n) [''cert''] \<noteq> projected example_payload [''cert'']" by code_simp
  have v: "visible [''cert'']" by (simp add: visible_def reserved_def hasPrefix_def)
  from leftover_link_blocks_updates [OF ok s example_payload_ok(1) _ v _ run] e v run show ?thesis by auto
qed

end
