(* ===== verification/Cert_Writer.thy ===== *)
theory Cert_Writer
  imports Cert_Generator Atomic_Update Kube_Types
begin

section \<open>Certificate writers (\<^verbatim>\<open>webhook/util/writer\<close>)\<close>

text \<open>
  Certificates are kept in a directory or in a Secret of the cluster. Both stores are
  behind the interface \<^verbatim>\<open>certReadWriter\<close>, here the locale \<open>cert_store\<close>, in which the
  common code (\<^verbatim>\<open>handleCommon\<close>) is proved once; it is interpreted for both.

  The world of \<^theory_text>\<open>File_System\<close> is extended by the Secret of the writer, by the results of
  the random source and of the clock's stamps, one per use, and by what happens around the
  requests to the API server: before each request another process may have changed the
  Secret (\<open>kw_env\<close>), and a request may be rejected, or be carried out and yet reported as
  failed (\<open>kw_fate\<close>). Every change of the Secret gives it a new version. \<open>kw_writes\<close>
  records what the requests of this process replaced, and by what.
\<close>

subsection \<open>World\<close>

record secret =
  secr_Namespace :: string
  secr_Name :: string
  secr_Data :: "(string, string option) gomap option"
  secr_ResourceVersion :: string

datatype api_fate = Executed | Rejected api_error | Unreported api_error

record 'k cert_world = world +
  kw_secret :: "secret option"
  kw_revision :: nat
  kw_env :: "nat \<Rightarrow> secret option option"
  kw_fate :: "nat \<Rightarrow> api_fate"
  kw_calls :: nat
  kw_writes :: "(secret option \<times> secret) list"
  kw_gen :: SelfSignedCertGenerator
  kw_rnd :: "nat \<Rightarrow> 'k randoms"
  kw_rnds :: nat
  kw_stamp :: "nat \<Rightarrow> string \<times> string list"
  kw_stamps :: nat

datatype cert_error =
    NotFoundErr
  | AlreadyExistErr
  | EmptyDNSName
  | PathNotSet
  | GenerateFailed gen_error
  | ApiFailed api_error
  | FileFailed errno
  | CantCreateDir
  | WriteFailed write_error

definition CAKeyName :: string where
  "CAKeyName = ''ca-key.pem''"

definition CACertName :: string where
  "CACertName = ''ca-cert.pem''"

definition ServerKeyName :: string where
  "ServerKeyName = ''key.pem''"

definition ServerKeyName2 :: string where
  "ServerKeyName2 = ''tls.key''"

definition ServerCertName :: string where
  "ServerCertName = ''cert.pem''"

definition ServerCertName2 :: string where
  "ServerCertName2 = ''tls.crt''"

definition filenames :: "string list" where
  "filenames = [CAKeyName, CACertName, ServerCertName, ServerCertName2, ServerKeyName, ServerKeyName2]"

definition interfere :: "('k, 'z) cert_world_scheme \<Rightarrow> ('k, 'z) cert_world_scheme" where
  "interfere w =
     (let w1 = w\<lparr>kw_calls := Suc (kw_calls w)\<rparr> in
      case kw_env w (kw_calls w) of
        None \<Rightarrow> w1
      | Some sec \<Rightarrow> w1\<lparr>kw_revision := Suc (kw_revision w),
                       kw_secret := map_option (secr_ResourceVersion_update (\<lambda>_. utoa (Suc (kw_revision w)))) sec\<rparr>)"

definition request ::
    "(('k, 'z) cert_world_scheme \<Rightarrow> (api_error + secret) \<times> ('k, 'z) cert_world_scheme)
      \<Rightarrow> (('k, 'z) cert_world_scheme, api_error + secret) state" where
  "request f = State (\<lambda>w.
     (let w1 = interfere w in
      case kw_fate w (kw_calls w) of
        Rejected e \<Rightarrow> (Inl e, w1)
      | Unreported e \<Rightarrow> (Inl e, snd (f w1))
      | Executed \<Rightarrow> f w1))"

definition store_secret :: "secret \<Rightarrow> ('k, 'z) cert_world_scheme \<Rightarrow> (api_error + secret) \<times> ('k, 'z) cert_world_scheme" where
  "store_secret s w =
     (let s' = s\<lparr>secr_ResourceVersion := utoa (Suc (kw_revision w))\<rparr> in
      (Inr s', w\<lparr>kw_revision := Suc (kw_revision w), kw_secret := Some s', kw_writes := kw_writes w @ [(kw_secret w, s')]\<rparr>))"

definition get_secret :: "(('k, 'z) cert_world_scheme, api_error + secret) state" where
  "get_secret = request (\<lambda>w. (case kw_secret w of None \<Rightarrow> (Inl NotFound, w) | Some s \<Rightarrow> (Inr s, w)))"

definition create_secret :: "secret \<Rightarrow> (('k, 'z) cert_world_scheme, api_error + secret) state" where
  "create_secret s = request (\<lambda>w. (case kw_secret w of None \<Rightarrow> store_secret s w | Some _ \<Rightarrow> (Inl AlreadyExists, w)))"

definition update_secret :: "secret \<Rightarrow> (('k, 'z) cert_world_scheme, api_error + secret) state" where
  "update_secret s = request (\<lambda>w.
     (case kw_secret w of
        None \<Rightarrow> (Inl NotFound, w)
      | Some old \<Rightarrow>
          if secr_ResourceVersion s \<noteq> '''' \<and> secr_ResourceVersion s \<noteq> secr_ResourceVersion old then (Inl Conflict, w)
          else store_secret s w))"

definition generate ::
    "('k, 'c) crypto \<Rightarrow> int \<Rightarrow> string \<Rightarrow> (('k, 'z) cert_world_scheme, gen_error + Artifacts) state" where
  "generate cr now dnsName = State (\<lambda>w.
     (Generate cr now (kw_rnd w (kw_rnds w)) (kw_gen w) dnsName, w\<lparr>kw_rnds := Suc (kw_rnds w)\<rparr>))"

subsection \<open>Common code (\<^verbatim>\<open>certwriter.go\<close>)\<close>

record 's certReadWriter =
  rw_read :: "('s, cert_error + Artifacts) state"
  rw_write :: "('s, cert_error + Artifacts) state"
  rw_overwrite :: "string \<Rightarrow> ('s, cert_error + Artifacts) state"

definition validCert :: "('k, 'c) crypto \<Rightarrow> int \<Rightarrow> Artifacts \<Rightarrow> string \<Rightarrow> bool" where
  "validCert cr now certs dnsName =
     (case (art_Cert certs, art_Key certs, art_CACert certs) of
        (Some cert, Some key, Some caCert) \<Rightarrow> verify_pem cr key cert caCert dnsName (cr_AddDate cr now 0 6)
      | _ \<Rightarrow> False)"

definition createIfNotExists :: "('s, 'y) certReadWriter_scheme \<Rightarrow> ('s, (cert_error + Artifacts) \<times> bool) state" where
  "createIfNotExists ch = do {
     r \<leftarrow> rw_read ch;
     (if r = Inl NotFoundErr then do {
        r1 \<leftarrow> rw_write ch;
        (if r1 = Inl AlreadyExistErr then do { r2 \<leftarrow> rw_read ch; ret (r2, True) }
         else ret (r1, True)) }
      else ret (r, False)) }"

definition handleCommon ::
    "('k, 'c) crypto \<Rightarrow> int \<Rightarrow> string \<Rightarrow> ('s, 'y) certReadWriter_scheme \<Rightarrow> ('s, (cert_error + Artifacts) \<times> bool) state" where
  \<comment> \<open>the writer is never nil\<close>
  "handleCommon cr now dnsName ch =
     (if length dnsName = 0 then ret (Inl EmptyDNSName, False)
      else do {
        x \<leftarrow> createIfNotExists ch;
        (case x of
           (Inl e, changed) \<Rightarrow> ret (Inl e, changed)
         | (Inr certs, changed) \<Rightarrow>
             if \<not> validCert cr now certs dnsName then do {
               r \<leftarrow> rw_overwrite ch (art_ResourceVersion certs);
               (case r of Inl e \<Rightarrow> ret (Inl e, False) | Inr certs' \<Rightarrow> ret (Inr certs', True)) }
             else ret (Inr certs, changed)) })"

subsection \<open>Secrets (\<^verbatim>\<open>secret.go\<close>)\<close>

definition secretToCerts :: "secret \<Rightarrow> Artifacts" where
  "secretToCerts s =
     (case secr_Data s of
        None \<Rightarrow> \<lparr>art_Key = None, art_Cert = None, art_CAKey = None, art_CACert = None, art_ResourceVersion = secr_ResourceVersion s\<rparr>
      | Some d \<Rightarrow> \<lparr>art_Key = Option.bind (map_of d ServerKeyName) id, art_Cert = Option.bind (map_of d ServerCertName) id,
                   art_CAKey = Option.bind (map_of d CAKeyName) id, art_CACert = Option.bind (map_of d CACertName) id,
                   art_ResourceVersion = secr_ResourceVersion s\<rparr>)"

definition certsToSecret :: "Artifacts \<Rightarrow> string \<Rightarrow> string \<Rightarrow> secret" where
  "certsToSecret certs ns n =
     \<lparr>secr_Namespace = ns, secr_Name = n,
      secr_Data = Some [(CAKeyName, art_CAKey certs), (CACertName, art_CACert certs), (ServerKeyName, art_Key certs),
        (ServerKeyName2, art_Key certs), (ServerCertName, art_Cert certs), (ServerCertName2, art_Cert certs)],
      secr_ResourceVersion = ''''\<rparr>"

definition buildSecret ::
    "('k, 'c) crypto \<Rightarrow> int \<Rightarrow> string \<Rightarrow> string \<Rightarrow> string \<Rightarrow> (('k, 'z) cert_world_scheme, cert_error + secret \<times> Artifacts) state" where
  "buildSecret cr now ns n dnsName = do {
     r \<leftarrow> generate cr now dnsName;
     ret (case r of Inl e \<Rightarrow> Inl (GenerateFailed e) | Inr certs \<Rightarrow> Inr (certsToSecret certs ns n, certs)) }"

definition secret_write ::
    "('k, 'c) crypto \<Rightarrow> int \<Rightarrow> string \<Rightarrow> string \<Rightarrow> string \<Rightarrow> (('k, 'z) cert_world_scheme, cert_error + Artifacts) state" where
  "secret_write cr now ns n dnsName = do {
     b \<leftarrow> buildSecret cr now ns n dnsName;
     (case b of
        Inl e \<Rightarrow> ret (Inl e)
      | Inr (secret, certs) \<Rightarrow> do {
          r \<leftarrow> create_secret secret;
          ret (case r of
                 Inl AlreadyExists \<Rightarrow> Inl AlreadyExistErr
               | Inl e \<Rightarrow> Inl (ApiFailed e)
               | Inr _ \<Rightarrow> Inr certs) }) }"

definition secret_overwrite ::
    "('k, 'c) crypto \<Rightarrow> int \<Rightarrow> string \<Rightarrow> string \<Rightarrow> string \<Rightarrow> string \<Rightarrow> (('k, 'z) cert_world_scheme, cert_error + Artifacts) state" where
  "secret_overwrite cr now ns n dnsName resourceVersion = do {
     b \<leftarrow> buildSecret cr now ns n dnsName;
     (case b of
        Inl e \<Rightarrow> ret (Inl e)
      | Inr (secret, certs) \<Rightarrow> do {
          r \<leftarrow> update_secret (secret\<lparr>secr_ResourceVersion := resourceVersion\<rparr>);
          ret (case r of Inl e \<Rightarrow> Inl (ApiFailed e) | Inr _ \<Rightarrow> Inr certs) }) }"

definition secret_read :: "(('k, 'z) cert_world_scheme, cert_error + Artifacts) state" where
  "secret_read = do {
     r \<leftarrow> get_secret;
     (case r of
        Inl NotFound \<Rightarrow> ret (Inl NotFoundErr)
      | Inl e \<Rightarrow> ret (Inl (ApiFailed e))
      | Inr secret \<Rightarrow>
          (let certs = secretToCerts secret in
           case (art_CAKey certs, art_CACert certs) of
             (Some caKey, Some caCert) \<Rightarrow> do { _ \<leftarrow> State (\<lambda>w. ((), w\<lparr>kw_gen := SetCA caKey caCert (kw_gen w)\<rparr>)); ret (Inr certs) }
           | _ \<Rightarrow> ret (Inr certs))) }"

definition secretCertWriter ::
    "('k, 'c) crypto \<Rightarrow> int \<Rightarrow> string \<Rightarrow> string \<Rightarrow> string \<Rightarrow> ('k, 'z) cert_world_scheme certReadWriter" where
  "secretCertWriter cr now ns n dnsName =
     \<lparr>rw_read = secret_read, rw_write = secret_write cr now ns n dnsName, rw_overwrite = secret_overwrite cr now ns n dnsName\<rparr>"

subsection \<open>Directories (\<^verbatim>\<open>fs.go\<close>)\<close>

definition NewFSCertWriter :: "string \<Rightarrow> cert_error option" where
  "NewFSCertWriter path = (if length path = 0 then Some PathNotSet else None)"

definition nil_bytes :: "string option \<Rightarrow> string" where
  "nil_bytes b = (case b of None \<Rightarrow> '''' | Some s \<Rightarrow> s)"

definition certToProjectionMap :: "Artifacts \<Rightarrow> (string, FileProjection) gomap" where
  "certToProjectionMap c =
     [(CAKeyName, \<lparr>fp_Data = nil_bytes (art_CAKey c), fp_Mode = 438\<rparr>), (CACertName, \<lparr>fp_Data = nil_bytes (art_CACert c), fp_Mode = 438\<rparr>),
      (ServerCertName, \<lparr>fp_Data = nil_bytes (art_Cert c), fp_Mode = 438\<rparr>), (ServerCertName2, \<lparr>fp_Data = nil_bytes (art_Cert c), fp_Mode = 438\<rparr>),
      (ServerKeyName, \<lparr>fp_Data = nil_bytes (art_Key c), fp_Mode = 438\<rparr>), (ServerKeyName2, \<lparr>fp_Data = nil_bytes (art_Key c), fp_Mode = 438\<rparr>)]"

definition prepare_file :: "string \<Rightarrow> ('z world_scheme, cert_error option) state" where
  "prepare_file f = do {
     st \<leftarrow> reads (stat_f [f]);
     (if st = Inl ENOENT then ret None
      else do {
        l \<leftarrow> reads (readlink_f [f]);
        (case l of
           Inl _ \<Rightarrow> do { _ \<leftarrow> writes (remove_f [f]); ret None }
         | Inr _ \<Rightarrow> ret None) }) }"

definition prepareToWrite :: "('z world_scheme, cert_error option) state" where
  "prepareToWrite = do {
     st \<leftarrow> reads (stat_f []);
     (case st of
        Inl ENOENT \<Rightarrow> do {
          r \<leftarrow> MkdirAll [];
          (case r of Some _ \<Rightarrow> ret (Some CantCreateDir) | None \<Rightarrow> each prepare_file filenames) }
      | Inl e \<Rightarrow> ret (Some (FileFailed e))
      | Inr _ \<Rightarrow> each prepare_file filenames) }"

definition next_stamp :: "(('k, 'z) cert_world_scheme, string \<times> string list) state" where
  "next_stamp = State (\<lambda>w. (kw_stamp w (kw_stamps w), w\<lparr>kw_stamps := Suc (kw_stamps w)\<rparr>))"

definition WriteCertsToDir :: "(int \<Rightarrow> int) \<Rightarrow> Artifacts \<Rightarrow> (('k, 'z) cert_world_scheme, cert_error option) state" where
  \<comment> \<open>\<^verbatim>\<open>NewAtomicWriter\<close> only checks that the directory exists\<close>
  "WriteCertsToDir masked certs = then_ok prepareToWrite (do {
     st \<leftarrow> reads (stat_f []);
     (case st of
        Inl e \<Rightarrow> ret (Some (FileFailed e))
      | Inr _ \<Rightarrow> do {
          (stamp, rnd) \<leftarrow> next_stamp;
          r \<leftarrow> Write False masked stamp rnd (certToProjectionMap certs);
          ret (map_option WriteFailed r) }) })"

definition doWrite ::
    "('k, 'c) crypto \<Rightarrow> int \<Rightarrow> (int \<Rightarrow> int) \<Rightarrow> string \<Rightarrow> (('k, 'z) cert_world_scheme, cert_error + Artifacts) state" where
  "doWrite cr now masked dnsName = do {
     r \<leftarrow> generate cr now dnsName;
     (case r of
        Inl e \<Rightarrow> ret (Inl (GenerateFailed e))
      | Inr certs \<Rightarrow> do {
          e \<leftarrow> WriteCertsToDir masked certs;
          ret (case e of Some e \<Rightarrow> Inl e | None \<Rightarrow> Inr certs) }) }"

fun ensureExist :: "string list \<Rightarrow> fs \<Rightarrow> cert_error option" where
  "ensureExist [] fs = None"
| "ensureExist (f # names) fs =
     (case stat_f [f] fs of
        Inr _ \<Rightarrow> ensureExist names fs
      | Inl ENOENT \<Rightarrow> Some NotFoundErr
      | Inl e \<Rightarrow> Some (FileFailed e))"

definition read_certs :: "fs \<Rightarrow> cert_error + Artifacts" where
  "read_certs fs =
     (case ensureExist filenames fs of
        Some e \<Rightarrow> Inl e
      | None \<Rightarrow>
          (case readFile_f [CAKeyName] fs of Inl e \<Rightarrow> Inl (FileFailed e) | Inr caKeyBytes \<Rightarrow>
          (case readFile_f [CACertName] fs of Inl e \<Rightarrow> Inl (FileFailed e) | Inr caCertBytes \<Rightarrow>
          (case readFile_f [ServerCertName] fs of Inl e \<Rightarrow> Inl (FileFailed e) | Inr certBytes \<Rightarrow>
          (case readFile_f [ServerKeyName] fs of Inl e \<Rightarrow> Inl (FileFailed e) | Inr keyBytes \<Rightarrow>
             Inr \<lparr>art_Key = Some keyBytes, art_Cert = Some certBytes, art_CAKey = Some caKeyBytes,
                  art_CACert = Some caCertBytes, art_ResourceVersion = ''''\<rparr>)))))"

definition fsCertWriter ::
    "('k, 'c) crypto \<Rightarrow> int \<Rightarrow> (int \<Rightarrow> int) \<Rightarrow> string \<Rightarrow> ('k, 'z) cert_world_scheme certReadWriter" where
  "fsCertWriter cr now masked dnsName =
     \<lparr>rw_read = reads read_certs, rw_write = doWrite cr now masked dnsName, rw_overwrite = (\<lambda>_. doWrite cr now masked dnsName)\<rparr>"

definition secret_EnsureCert ::
    "('k, 'c) crypto \<Rightarrow> int \<Rightarrow> string \<Rightarrow> string \<Rightarrow> string \<Rightarrow> (('k, 'z) cert_world_scheme, (cert_error + Artifacts) \<times> bool) state" where
  "secret_EnsureCert cr now ns n dnsName = handleCommon cr now dnsName (secretCertWriter cr now ns n dnsName)"

definition fs_EnsureCert ::
    "('k, 'c) crypto \<Rightarrow> int \<Rightarrow> (int \<Rightarrow> int) \<Rightarrow> string \<Rightarrow> (('k, 'z) cert_world_scheme, (cert_error + Artifacts) \<times> bool) state" where
  "fs_EnsureCert cr now masked dnsName = handleCommon cr now dnsName (fsCertWriter cr now masked dnsName)"

subsection \<open>The interface, and the common code over it\<close>

text \<open>
  \<open>stored\<close>: the certificates the store holds, without their version. \<open>tagged s v b\<close>: if
  the store still has version \<open>v\<close>, it holds \<open>b\<close>. \<open>absent\<close>: what a read that
  found nothing guarantees. \<open>sound s s'\<close>: between two states this process replaced no valid
  certificates.
\<close>

definition strip :: "Artifacts \<Rightarrow> Artifacts" where
  "strip a = a\<lparr>art_ResourceVersion := ''''\<rparr>"

lemma strip_simps [simp]:
  "strip (strip a) = strip a" "validCert cr now (strip a) dnsName = validCert cr now a dnsName"
  by (simp_all add: strip_def validCert_def)

lemma strip_eqD:
  assumes "strip a = strip b"
  shows "art_CAKey a = art_CAKey b" "art_CACert a = art_CACert b" "art_Key a = art_Key b" "art_Cert a = art_Cert b"
  using assms by (cases a; cases b; simp add: strip_def)+

locale cert_store =
  fixes cr :: "('k, 'c) crypto" and now :: int and dnsName :: string and ch :: "('s, 'y) certReadWriter_scheme"
    and inv absent :: "'s \<Rightarrow> bool" and stored :: "'s \<Rightarrow> Artifacts option"
    and tagged :: "'s \<Rightarrow> string \<Rightarrow> Artifacts \<Rightarrow> bool" and sound :: "'s \<Rightarrow> 's \<Rightarrow> bool"
  assumes sound_refl: "sound s s"
    and sound_trans: "sound s s1 \<Longrightarrow> sound s1 s2 \<Longrightarrow> sound s s2"
    and read_law: "run_state (rw_read ch) s = (r, s') \<Longrightarrow> inv s \<Longrightarrow> inv s' \<and> sound s s'
      \<and> (\<forall>a. r = Inr a \<longrightarrow> stored s' = Some (strip a) \<and> tagged s' (art_ResourceVersion a) (strip a))
      \<and> (r = Inl NotFoundErr \<longrightarrow> absent s')"
    and write_law: "run_state (rw_write ch) s = (r, s') \<Longrightarrow> inv s \<Longrightarrow> absent s \<Longrightarrow> inv s' \<and> sound s s'
      \<and> (\<forall>a. r = Inr a \<longrightarrow> stored s' = Some (strip a) \<and> validCert cr now a dnsName)"
    and overwrite_law: "run_state (rw_overwrite ch v) s = (r, s') \<Longrightarrow> inv s \<Longrightarrow> tagged s v b \<Longrightarrow> \<not> validCert cr now b dnsName
      \<Longrightarrow> inv s' \<and> sound s s' \<and> (\<forall>a. r = Inr a \<longrightarrow> stored s' = Some (strip a) \<and> validCert cr now a dnsName)"
begin

lemma createIfNotExists_ok:
  assumes "run_state (createIfNotExists ch) s = ((r, changed), s')" and "inv s"
  shows "inv s' \<and> sound s s' \<and> (\<forall>a. r = Inr a \<longrightarrow> stored s' = Some (strip a)
    \<and> (validCert cr now a dnsName \<or> tagged s' (art_ResourceVersion a) (strip a)))"
proof -
  obtain r1 s1 where 1: "run_state (rw_read ch) s = (r1, s1)" by (cases "run_state (rw_read ch) s")
  note a1 = read_law [OF 1 assms(2)]
  show ?thesis
  proof (cases "r1 = Inl NotFoundErr")
    case False
    with assms(1) 1 a1 show ?thesis by (simp add: createIfNotExists_def)
  next
    case True
    obtain r2 s2 where 2: "run_state (rw_write ch) s1 = (r2, s2)" by (cases "run_state (rw_write ch) s1")
    have a2: "inv s2 \<and> sound s1 s2 \<and> (\<forall>a. r2 = Inr a \<longrightarrow> stored s2 = Some (strip a) \<and> validCert cr now a dnsName)"
      using write_law [OF 2] a1 True by blast
    show ?thesis
    proof (cases "r2 = Inl AlreadyExistErr")
      case False
      with assms(1) 1 2 True have "r = r2" "s' = s2" by (simp_all add: createIfNotExists_def)
      with a1 a2 sound_trans show ?thesis by blast
    next
      case exists: True
      obtain r3 s3 where 3: "run_state (rw_read ch) s2 = (r3, s3)" by (cases "run_state (rw_read ch) s2")
      with assms(1) 1 2 True exists have "r = r3" "s' = s3" by (simp_all add: createIfNotExists_def)
      with a1 a2 read_law [OF 3] sound_trans show ?thesis by blast
    qed
  qed
qed

lemma handleCommon_ok:
  assumes "run_state (handleCommon cr now dnsName ch) s = ((r, changed), s')" and "inv s"
  shows "inv s' \<and> sound s s' \<and> (\<forall>a. r = Inr a \<longrightarrow> stored s' = Some (strip a) \<and> validCert cr now a dnsName)"
proof (cases "dnsName = []")
  case True
  with assms show ?thesis by (auto simp: handleCommon_def sound_refl)
next
  case False
  obtain r1 c1 s1 where 1: "run_state (createIfNotExists ch) s = ((r1, c1), s1)"
    by (cases "run_state (createIfNotExists ch) s") auto
  note a1 = createIfNotExists_ok [OF 1 assms(2)]
  show ?thesis
  proof (cases "\<exists>a. r1 = Inr a \<and> \<not> validCert cr now a dnsName")
    case ok: False
    with assms(1) 1 False have "r = r1" "s' = s1" by (auto simp: handleCommon_def split: sum.splits)
    with ok a1 show ?thesis by blast
  next
    case True
    then obtain a where a: "r1 = Inr a" "\<not> validCert cr now a dnsName" by blast
    with a1 have t: "tagged s1 (art_ResourceVersion a) (strip a)" by blast
    obtain r2 s2 where 2: "run_state (rw_overwrite ch (art_ResourceVersion a)) s1 = (r2, s2)"
      by (cases "run_state (rw_overwrite ch (art_ResourceVersion a)) s1")
    have a2: "inv s2 \<and> sound s1 s2 \<and> (\<forall>a. r2 = Inr a \<longrightarrow> stored s2 = Some (strip a) \<and> validCert cr now a dnsName)"
      using overwrite_law [OF 2 _ t] a1 a(2) by simp
    from assms(1) 1 2 a False have "r = r2" "s' = s2" by (auto simp: handleCommon_def split: sum.splits)
    with a1 a2 sound_trans show ?thesis by blast
  qed
qed

end

text \<open>
  The second contract is about a store that holds valid certificates \<open>b\<close> and that no other
  process changes (\<open>quiet b\<close>): nothing the common code does then changes it (\<open>same\<close>).
\<close>

locale steady_store =
  fixes cr :: "('k, 'c) crypto" and now :: int and dnsName :: string and ch :: "('s, 'y) certReadWriter_scheme"
    and quiet :: "Artifacts \<Rightarrow> 's \<Rightarrow> bool" and absent :: "'s \<Rightarrow> bool" and same :: "'s \<Rightarrow> 's \<Rightarrow> bool"
  assumes same_refl: "same s s"
    and same_trans: "same s s1 \<Longrightarrow> same s1 s2 \<Longrightarrow> same s s2"
    and quiet_read: "run_state (rw_read ch) s = (r, s') \<Longrightarrow> quiet b s \<Longrightarrow> quiet b s' \<and> same s s'
      \<and> (\<forall>a. r = Inr a \<longrightarrow> strip a = b \<and> validCert cr now a dnsName) \<and> (r = Inl NotFoundErr \<longrightarrow> absent s')"
    and quiet_write: "run_state (rw_write ch) s = (r, s') \<Longrightarrow> quiet b s \<Longrightarrow> absent s \<Longrightarrow> quiet b s' \<and> same s s' \<and> (\<forall>a. r \<noteq> Inr a)"
begin

lemma createIfNotExists_steady:
  assumes "run_state (createIfNotExists ch) s = ((r, changed), s')" and "quiet b s"
  shows "same s s' \<and> (\<forall>a. r = Inr a \<longrightarrow> strip a = b \<and> validCert cr now a dnsName)"
proof -
  obtain r1 s1 where 1: "run_state (rw_read ch) s = (r1, s1)" by (cases "run_state (rw_read ch) s")
  note a1 = quiet_read [OF 1 assms(2)]
  show ?thesis
  proof (cases "r1 = Inl NotFoundErr")
    case False
    with assms(1) 1 a1 show ?thesis by (simp add: createIfNotExists_def)
  next
    case True
    obtain r2 s2 where 2: "run_state (rw_write ch) s1 = (r2, s2)" by (cases "run_state (rw_write ch) s1")
    have a2: "quiet b s2 \<and> same s1 s2 \<and> (\<forall>a. r2 \<noteq> Inr a)" using quiet_write [OF 2] a1 True by blast
    show ?thesis
    proof (cases "r2 = Inl AlreadyExistErr")
      case False
      with assms(1) 1 2 True have "r = r2" "s' = s2" by (simp_all add: createIfNotExists_def)
      with a1 a2 same_trans show ?thesis by blast
    next
      case exists: True
      obtain r3 s3 where 3: "run_state (rw_read ch) s2 = (r3, s3)" by (cases "run_state (rw_read ch) s2")
      with assms(1) 1 2 True exists have "r = r3" "s' = s3" by (simp_all add: createIfNotExists_def)
      with a1 a2 quiet_read [OF 3] same_trans show ?thesis by blast
    qed
  qed
qed

lemma handleCommon_steady:
  assumes "run_state (handleCommon cr now dnsName ch) s = ((r, changed), s')" and "quiet b s"
  shows "same s s' \<and> (\<forall>a. r = Inr a \<longrightarrow> strip a = b)"
proof (cases "dnsName = []")
  case True
  with assms show ?thesis by (auto simp: handleCommon_def same_refl)
next
  case False
  obtain r1 c1 s1 where 1: "run_state (createIfNotExists ch) s = ((r1, c1), s1)"
    by (cases "run_state (createIfNotExists ch) s") auto
  note a1 = createIfNotExists_steady [OF 1 assms(2)]
  with assms(1) 1 False have "r = r1" "s' = s1" by (auto simp: handleCommon_def split: sum.splits)
  with a1 show ?thesis by blast
qed

end

subsection \<open>The Secret is a store\<close>

definition secret_inv :: "('k, 'z) cert_world_scheme \<Rightarrow> bool" where
  "secret_inv w \<longleftrightarrow> (\<forall>x. kw_secret w = Some x \<longrightarrow> (\<exists>n\<le>kw_revision w. secr_ResourceVersion x = utoa n))"

definition secret_root_good :: "('k, 'c) crypto \<Rightarrow> ('c \<Rightarrow> 'k \<Rightarrow> int \<Rightarrow> bool) \<Rightarrow> int \<Rightarrow> secret \<Rightarrow> bool" where
  "secret_root_good cr signs now x \<longleftrightarrow>
     (\<forall>caKey caCert. art_CAKey (secretToCerts x) = Some caKey \<and> art_CACert (secretToCerts x) = Some caCert \<longrightarrow>
        root_good cr signs now (SetCA caKey caCert new_generator))"

definition stored_roots_good :: "('k, 'c) crypto \<Rightarrow> ('c \<Rightarrow> 'k \<Rightarrow> int \<Rightarrow> bool) \<Rightarrow> int \<Rightarrow> ('k, 'z) cert_world_scheme \<Rightarrow> bool" where
  \<comment> \<open>whoever stores a root in the Secret that this process might sign with, stores a certificate authority\<close>
  "stored_roots_good cr signs now w \<longleftrightarrow> (\<forall>x. kw_secret w = Some x \<longrightarrow> secret_root_good cr signs now x)
     \<and> (\<forall>n x. kw_env w n = Some (Some x) \<longrightarrow> secret_root_good cr signs now x)"

definition roots_good :: "('k, 'c) crypto \<Rightarrow> ('c \<Rightarrow> 'k \<Rightarrow> int \<Rightarrow> bool) \<Rightarrow> int \<Rightarrow> ('k, 'z) cert_world_scheme \<Rightarrow> bool" where
  "roots_good cr signs now w \<longleftrightarrow> root_good cr signs now (kw_gen w) \<and> stored_roots_good cr signs now w"

definition secret_ready :: "('k, 'c) crypto \<Rightarrow> ('c \<Rightarrow> 'k \<Rightarrow> int \<Rightarrow> bool) \<Rightarrow> int \<Rightarrow> string \<Rightarrow> ('k, 'z) cert_world_scheme \<Rightarrow> bool" where
  "secret_ready cr signs now dnsName w \<longleftrightarrow>
     x509_laws cr signs now \<and> servable_host cr dnsName \<and> secret_inv w \<and> roots_good cr signs now w"

definition secret_stored :: "('k, 'z) cert_world_scheme \<Rightarrow> Artifacts option" where
  "secret_stored w = map_option (strip \<circ> secretToCerts) (kw_secret w)"

definition secret_tagged :: "('k, 'z) cert_world_scheme \<Rightarrow> string \<Rightarrow> Artifacts \<Rightarrow> bool" where
  "secret_tagged w v b \<longleftrightarrow> (\<exists>n\<le>kw_revision w. v = utoa n)
     \<and> (\<forall>x. kw_secret w = Some x \<and> secr_ResourceVersion x = v \<longrightarrow> strip (secretToCerts x) = b)"

definition replaced_invalid ::
    "('k, 'c) crypto \<Rightarrow> int \<Rightarrow> string \<Rightarrow> ('k, 'z) cert_world_scheme \<Rightarrow> ('k, 'z) cert_world_scheme \<Rightarrow> bool" where
  "replaced_invalid cr now dnsName w w' \<longleftrightarrow>
     (\<exists>l. kw_writes w' = kw_writes w @ l
        \<and> (\<forall>old new. (Some old, new) \<in> set l \<longrightarrow> \<not> validCert cr now (secretToCerts old) dnsName))"

lemma utoa_eq [simp]: "utoa m = utoa n \<longleftrightarrow> m = n"
  by (metis atou_utoa option.inject)

lemma replaced_invalid_trans:
  assumes "replaced_invalid cr now dnsName w w1" and "replaced_invalid cr now dnsName w1 w2"
  shows "replaced_invalid cr now dnsName w w2"
proof -
  from assms obtain l l' where "kw_writes w1 = kw_writes w @ l" "kw_writes w2 = kw_writes w1 @ l'"
    "\<forall>old new. (Some old, new) \<in> set l \<longrightarrow> \<not> validCert cr now (secretToCerts old) dnsName"
    "\<forall>old new. (Some old, new) \<in> set l' \<longrightarrow> \<not> validCert cr now (secretToCerts old) dnsName"
    unfolding replaced_invalid_def by blast
  then have "kw_writes w2 = kw_writes w @ (l @ l')"
    "\<forall>old new. (Some old, new) \<in> set (l @ l') \<longrightarrow> \<not> validCert cr now (secretToCerts old) dnsName" by auto
  then show ?thesis unfolding replaced_invalid_def by blast
qed

text \<open>
  What the store's operations guarantee from one state to a later one: only invalid
  certificates were replaced, and the directory and the rest of the world are untouched.
\<close>

definition secret_sound ::
    "('k, 'c) crypto \<Rightarrow> int \<Rightarrow> string \<Rightarrow> ('k, 'z) cert_world_scheme \<Rightarrow> ('k, 'z) cert_world_scheme \<Rightarrow> bool" where
  "secret_sound cr now dnsName w w' \<longleftrightarrow> replaced_invalid cr now dnsName w w'
     \<and> w_fs w' = w_fs w \<and> kw_stamp w' = kw_stamp w \<and> cert_world.more w' = cert_world.more w
     \<and> kw_env w' = kw_env w"

lemma secret_sound_trans:
  "secret_sound cr now dnsName w w1 \<Longrightarrow> secret_sound cr now dnsName w1 w2 \<Longrightarrow> secret_sound cr now dnsName w w2"
  using replaced_invalid_trans [of cr now dnsName w w1 w2] by (simp add: secret_sound_def)

lemma secret_parts [simp]:
  "art_CAKey (secretToCerts (x\<lparr>secr_ResourceVersion := v\<rparr>)) = art_CAKey (secretToCerts x)"
  "art_CACert (secretToCerts (x\<lparr>secr_ResourceVersion := v\<rparr>)) = art_CACert (secretToCerts x)"
  "secret_root_good cr signs now (x\<lparr>secr_ResourceVersion := v\<rparr>) = secret_root_good cr signs now x"
proof -
  show ca: "art_CAKey (secretToCerts (x\<lparr>secr_ResourceVersion := v\<rparr>)) = art_CAKey (secretToCerts x)"
    "art_CACert (secretToCerts (x\<lparr>secr_ResourceVersion := v\<rparr>)) = art_CACert (secretToCerts x)"
    by (simp_all add: secretToCerts_def split: option.splits)
  show "secret_root_good cr signs now (x\<lparr>secr_ResourceVersion := v\<rparr>) = secret_root_good cr signs now x"
    unfolding secret_root_good_def ca ..
qed

lemma SetCA_any: "SetCA caKey caCert g = SetCA caKey caCert g'"
  by (cases g; cases g'; simp add: SetCA_def)

lemma secret_sound_idle:
  "secret_sound cr now dnsName w w" "secret_sound cr now dnsName w (w\<lparr>kw_gen := g\<rparr>)" "secret_sound cr now dnsName w (w\<lparr>kw_rnds := n\<rparr>)"
  by (simp_all add: secret_sound_def replaced_invalid_def)

lemma interfere_ok:
  assumes "secret_ready cr signs now dnsName w"
  shows "secret_ready cr signs now dnsName (interfere w)" "secret_sound cr now dnsName w (interfere w)"
    "secret_tagged w v b \<Longrightarrow> secret_tagged (interfere w) v b"
  using assms
  by (auto simp: secret_ready_def roots_good_def stored_roots_good_def secret_inv_def secret_tagged_def secret_sound_def replaced_invalid_def interfere_def
      Let_def split: option.splits)

lemma certsToSecret_roundtrip: "strip (secretToCerts (certsToSecret a ns n\<lparr>secr_ResourceVersion := v\<rparr>)) = strip a"
  by (simp add: strip_def secretToCerts_def certsToSecret_def CAKeyName_def CACertName_def ServerKeyName_def
      ServerKeyName2_def ServerCertName_def ServerCertName2_def)

lemma store_secret_ok:
  assumes "store_secret s w = (r, w')" and "secret_ready cr signs now dnsName w" and "secret_root_good cr signs now s"
  shows "secret_ready cr signs now dnsName w'" "secret_stored w' = Some (strip (secretToCerts s))"
    "(\<And>old. kw_secret w = Some old \<Longrightarrow> \<not> validCert cr now (secretToCerts old) dnsName) \<Longrightarrow> secret_sound cr now dnsName w w'"
proof -
  show "secret_ready cr signs now dnsName w'" "secret_stored w' = Some (strip (secretToCerts s))"
    using assms by (auto simp: store_secret_def Let_def secret_ready_def roots_good_def stored_roots_good_def secret_inv_def secret_stored_def strip_def secretToCerts_def split: option.splits)
  show "secret_sound cr now dnsName w w'" if "\<And>old. kw_secret w = Some old \<Longrightarrow> \<not> validCert cr now (secretToCerts old) dnsName"
    using assms that by (auto simp: store_secret_def Let_def secret_sound_def replaced_invalid_def)
qed

lemma get_secret_ok:
  assumes "run_state get_secret w = (r, w')" and "secret_ready cr signs now dnsName w"
  shows "secret_ready cr signs now dnsName w'" "secret_sound cr now dnsName w w'" "r = Inr s \<Longrightarrow> kw_secret w' = Some s"
  using assms interfere_ok [OF assms(2)]
  by (auto simp: get_secret_def request_def Let_def split: api_fate.splits option.splits)

lemma create_secret_ok:
  assumes "run_state (create_secret s) w = (r, w')" and "secret_ready cr signs now dnsName w" and good: "secret_root_good cr signs now s"
  shows "secret_ready cr signs now dnsName w'" "secret_sound cr now dnsName w w'" "r = Inr x \<Longrightarrow> secret_stored w' = Some (strip (secretToCerts s))"
proof -
  note i = interfere_ok [OF assms(2)]
  obtain r1 w1 where st: "store_secret s (interfere w) = (r1, w1)" by (cases "store_secret s (interfere w)")
  note k = store_secret_ok [OF st i(1) good]
  have "w' = interfere w \<and> (\<forall>x. r \<noteq> Inr x) \<or> kw_secret (interfere w) = None \<and> w' = w1"
    using assms(1) st by (auto simp: create_secret_def request_def Let_def split: api_fate.splits option.splits)
  then show "secret_ready cr signs now dnsName w'" "secret_sound cr now dnsName w w'" "r = Inr x \<Longrightarrow> secret_stored w' = Some (strip (secretToCerts s))"
    using i(1,2) k secret_sound_trans [OF i(2), of w1] by auto
qed

lemma update_secret_ok:
  assumes "run_state (update_secret (s\<lparr>secr_ResourceVersion := v\<rparr>)) w = (r, w')" and "secret_ready cr signs now dnsName w"
    and good: "secret_root_good cr signs now s" and "secret_tagged w v b" and "\<not> validCert cr now b dnsName"
  shows "secret_ready cr signs now dnsName w'" "secret_sound cr now dnsName w w'"
    "r = Inr x \<Longrightarrow> secret_stored w' = Some (strip (secretToCerts (s\<lparr>secr_ResourceVersion := v\<rparr>)))"
proof -
  let ?s = "s\<lparr>secr_ResourceVersion := v\<rparr>"
  note i = interfere_ok [OF assms(2)]
  note t = i(3) [OF assms(4)]
  obtain r1 w1 where st: "store_secret ?s (interfere w) = (r1, w1)" by (cases "store_secret ?s (interfere w)")
  note k = store_secret_ok [OF st i(1), simplified, OF good]
  have v: "v \<noteq> []" using assms(4) by (auto simp: secret_tagged_def)
  have "w' = interfere w \<and> (\<forall>x. r \<noteq> Inr x)
    \<or> (\<exists>old. kw_secret (interfere w) = Some old \<and> secr_ResourceVersion old = v \<and> w' = w1)"
    using assms(1) st v by (auto simp: update_secret_def request_def Let_def split: api_fate.splits option.splits if_splits)
  moreover have "\<not> validCert cr now (secretToCerts old) dnsName"
    if "kw_secret (interfere w) = Some old" "secr_ResourceVersion old = v" for old
    using t that assms(5) strip_simps(2) [of cr now "secretToCerts old" dnsName] by (auto simp: secret_tagged_def)
  ultimately show "secret_ready cr signs now dnsName w'" "secret_sound cr now dnsName w w'"
    "r = Inr x \<Longrightarrow> secret_stored w' = Some (strip (secretToCerts ?s))"
    using i(1,2) k secret_sound_trans [OF i(2), of w1] by auto
qed

lemma generate_ok:
  assumes "run_state (generate cr now dnsName) w = (r, w')" and laws: "x509_laws cr signs now" "servable_host cr dnsName"
    and good: "root_good cr signs now (kw_gen w)"
  shows "w' = w\<lparr>kw_rnds := Suc (kw_rnds w)\<rparr>" "r = Inr a \<Longrightarrow> validCert cr now a dnsName"
    "r = Inr a \<Longrightarrow> secret_root_good cr signs now (certsToSecret a ns n)"
    "r = Inr a \<Longrightarrow> art_CAKey a \<noteq> None \<and> art_ResourceVersion a = []"
proof -
  show "w' = w\<lparr>kw_rnds := Suc (kw_rnds w)\<rparr>" using assms(1) by (auto simp: generate_def)
  assume "r = Inr a"
  then obtain rnd where gen: "Generate cr now rnd (kw_gen w) dnsName = Inr a" using assms(1) by (auto simp: generate_def)
  from Generate_verifies [OF laws(1) good laws(2) gen] show "validCert cr now a dnsName" by (auto simp: validCert_def)
  show "art_CAKey a \<noteq> None \<and> art_ResourceVersion a = []" by (rule Generate_parts [OF gen]) simp
  have "strip (secretToCerts (certsToSecret a ns n)) = strip a"
    using certsToSecret_roundtrip [where a = a and ns = ns and n = n and v = "[]"] by (simp add: certsToSecret_def)
  then have "art_CAKey (secretToCerts (certsToSecret a ns n)) = art_CAKey a" "art_CACert (secretToCerts (certsToSecret a ns n)) = art_CACert a"
    by (rule strip_eqD)+
  with Generate_root_good [OF laws(1) good gen] show "secret_root_good cr signs now (certsToSecret a ns n)"
    by (simp add: secret_root_good_def)
qed

lemma other_fields [simp]:
  "secret_inv (w\<lparr>kw_rnds := n\<rparr>) = secret_inv w" "secret_inv (w\<lparr>kw_gen := g\<rparr>) = secret_inv w"
  "secret_tagged (w\<lparr>kw_rnds := n\<rparr>) v b = secret_tagged w v b" "secret_stored (w\<lparr>kw_gen := g\<rparr>) = secret_stored w"
  "secret_tagged (w\<lparr>kw_gen := g\<rparr>) v b = secret_tagged w v b"
  "secret_ready cr signs now dnsName (w\<lparr>kw_rnds := n\<rparr>) = secret_ready cr signs now dnsName w"
  by (simp_all add: secret_inv_def secret_tagged_def secret_stored_def secret_ready_def roots_good_def stored_roots_good_def)

lemma secret_read_ok:
  assumes "run_state secret_read w = (r, w')" and "secret_ready cr signs now dnsName w"
  shows "secret_ready cr signs now dnsName w' \<and> secret_sound cr now dnsName w w'
    \<and> (\<forall>a. r = Inr a \<longrightarrow> secret_stored w' = Some (strip a) \<and> secret_tagged w' (art_ResourceVersion a) (strip a))"
proof -
  obtain r1 w1 where 1: "run_state get_secret w = (r1, w1)" by (cases "run_state get_secret w")
  note g = get_secret_ok [OF 1 assms(2)]
  have w': "w' = w1 \<or> (\<exists>s caKey caCert g. r1 = Inr s \<and> art_CAKey (secretToCerts s) = Some caKey \<and> art_CACert (secretToCerts s) = Some caCert
      \<and> w' = w1\<lparr>kw_gen := SetCA caKey caCert g\<rparr>)" and r: "r = Inr a \<Longrightarrow> \<exists>s. r1 = Inr s \<and> a = secretToCerts s" for a
    using assms(1) 1 by (auto simp: secret_read_def Let_def split: sum.splits api_error.splits option.splits)
  have "root_good cr signs now (SetCA caKey caCert g0)"
    if "r1 = Inr s" "art_CAKey (secretToCerts s) = Some caKey" "art_CACert (secretToCerts s) = Some caCert" for s caKey caCert g0
    unfolding SetCA_any [of caKey caCert g0 new_generator]
    using g(1) g(3) [OF that(1)] that(2,3) by (simp add: secret_ready_def roots_good_def stored_roots_good_def secret_root_good_def)
  then have "secret_ready cr signs now dnsName w'"
    using w' g(1) by (auto simp: secret_ready_def roots_good_def stored_roots_good_def)
  moreover have "secret_sound cr now dnsName w w'" using w' g(2) secret_sound_trans [OF g(2) secret_sound_idle(2)] by auto
  moreover have "secret_stored w' = Some (strip a) \<and> secret_tagged w' (art_ResourceVersion a) (strip a)" if "r = Inr a" for a
  proof -
    from r [OF that] obtain s where s: "r1 = Inr s" "a = secretToCerts s" by blast
    have k: "kw_secret w1 = Some s" using g(3) [OF s(1)] .
    then have "\<exists>n\<le>kw_revision w1. secr_ResourceVersion s = utoa n" using g(1) by (simp add: secret_ready_def secret_inv_def)
    moreover have "art_ResourceVersion a = secr_ResourceVersion s" by (simp add: s secretToCerts_def split: option.splits)
    ultimately have "secret_stored w1 = Some (strip a) \<and> secret_tagged w1 (art_ResourceVersion a) (strip a)"
      using k s(2) by (simp add: secret_stored_def secret_tagged_def)
    with w' show ?thesis by auto
  qed
  ultimately show ?thesis by blast
qed

lemma secret_write_ok:
  assumes "run_state (secret_write cr now ns n dnsName) w = (r, w')" and "secret_ready cr signs now dnsName w"
  shows "secret_ready cr signs now dnsName w' \<and> secret_sound cr now dnsName w w'
    \<and> (\<forall>a. r = Inr a \<longrightarrow> secret_stored w' = Some (strip a) \<and> validCert cr now a dnsName)"
proof -
  have rdy: "x509_laws cr signs now" "servable_host cr dnsName" "root_good cr signs now (kw_gen w)"
    using assms(2) by (simp_all add: secret_ready_def roots_good_def stored_roots_good_def)
  obtain r1 w1 where 1: "run_state (generate cr now dnsName) w = (r1, w1)" by (cases "run_state (generate cr now dnsName) w")
  note g = generate_ok [OF 1 rdy]
  have s1: "secret_sound cr now dnsName w w1" unfolding g(1) by (rule secret_sound_idle)
  show ?thesis
  proof (cases r1)
    case (Inl e)
    with assms 1 g(1) show ?thesis by (auto simp: secret_write_def buildSecret_def secret_sound_idle)
  next
    case (Inr a)
    obtain r2 w2 where 2: "run_state (create_secret (certsToSecret a ns n)) w1 = (r2, w2)"
      by (cases "run_state (create_secret (certsToSecret a ns n)) w1")
    have "secret_ready cr signs now dnsName w1" using assms(2) g(1) by simp
    note c = create_secret_ok [OF 2 this g(3) [OF Inr]]
    have "w' = w2" and "r = Inr b \<Longrightarrow> b = a \<and> (\<exists>x. r2 = Inr x)" for b
      using assms(1) 1 2 Inr by (auto simp: secret_write_def buildSecret_def split: sum.splits api_error.splits)
    then show ?thesis
      using c g(2) [OF Inr] s1 certsToSecret_roundtrip [where a = a and ns = ns and n = n and v = "[]"]
      by (auto simp: certsToSecret_def intro: secret_sound_trans)
  qed
qed

lemma secret_overwrite_ok:
  assumes "run_state (secret_overwrite cr now ns n dnsName v) w = (r, w')" and "secret_ready cr signs now dnsName w"
    and "secret_tagged w v b" and "\<not> validCert cr now b dnsName"
  shows "secret_ready cr signs now dnsName w' \<and> secret_sound cr now dnsName w w'
    \<and> (\<forall>a. r = Inr a \<longrightarrow> secret_stored w' = Some (strip a) \<and> validCert cr now a dnsName)"
proof -
  have rdy: "x509_laws cr signs now" "servable_host cr dnsName" "root_good cr signs now (kw_gen w)"
    using assms(2) by (simp_all add: secret_ready_def roots_good_def stored_roots_good_def)
  obtain r1 w1 where 1: "run_state (generate cr now dnsName) w = (r1, w1)" by (cases "run_state (generate cr now dnsName) w")
  note g = generate_ok [OF 1 rdy]
  have s1: "secret_sound cr now dnsName w w1" unfolding g(1) by (rule secret_sound_idle)
  show ?thesis
  proof (cases r1)
    case (Inl e)
    with assms 1 g(1) show ?thesis by (auto simp: secret_overwrite_def buildSecret_def secret_sound_idle)
  next
    case (Inr a)
    let ?s = "certsToSecret a ns n\<lparr>secr_ResourceVersion := v\<rparr>"
    obtain r2 w2 where 2: "run_state (update_secret ?s) w1 = (r2, w2)" by (cases "run_state (update_secret ?s) w1")
    have "secret_ready cr signs now dnsName w1" "secret_tagged w1 v b" using assms(2,3) g(1) by simp_all
    note c = update_secret_ok [OF 2 this(1) g(3) [OF Inr] this(2) assms(4)]
    have "w' = w2" and "r = Inr b \<Longrightarrow> b = a \<and> (\<exists>x. r2 = Inr x)" for b
      using assms(1) 1 2 Inr by (auto simp: secret_overwrite_def buildSecret_def split: sum.splits)
    then show ?thesis
      using c g(2) [OF Inr] s1 by (auto simp: certsToSecret_roundtrip intro: secret_sound_trans)
  qed
qed

interpretation secret_store: cert_store cr now dnsName "secretCertWriter cr now ns n dnsName"
    "secret_ready cr signs now dnsName" "\<lambda>_. True" secret_stored secret_tagged "secret_sound cr now dnsName" for cr signs now dnsName ns n
  by unfold_locales
    (auto simp: secretCertWriter_def secret_sound_idle intro: secret_sound_trans dest: secret_read_ok secret_write_ok secret_overwrite_ok)

definition undisturbed :: "('k, 'z) cert_world_scheme \<Rightarrow> bool" where
  "undisturbed w \<longleftrightarrow> (\<forall>n\<ge>kw_calls w. kw_env w n = None)"

definition secret_quiet :: "('k, 'c) crypto \<Rightarrow> int \<Rightarrow> string \<Rightarrow> Artifacts \<Rightarrow> ('k, 'z) cert_world_scheme \<Rightarrow> bool" where
  "secret_quiet cr now dnsName b w \<longleftrightarrow> undisturbed w \<and> secret_stored w = Some b \<and> validCert cr now b dnsName"

definition secret_same :: "('k, 'z) cert_world_scheme \<Rightarrow> ('k, 'z) cert_world_scheme \<Rightarrow> bool" where
  "secret_same w w' \<longleftrightarrow> kw_secret w' = kw_secret w \<and> w_fs w' = w_fs w \<and> kw_stamp w' = kw_stamp w
     \<and> cert_world.more w' = cert_world.more w"

lemma interfere_undisturbed: "undisturbed w \<Longrightarrow> interfere w = w\<lparr>kw_calls := Suc (kw_calls w)\<rparr>"
  by (simp add: interfere_def undisturbed_def)

lemma secret_read_steady:
  assumes "run_state secret_read w = (r, w')" and "secret_quiet cr now dnsName b w"
  shows "secret_quiet cr now dnsName b w' \<and> secret_same w w' \<and> (\<forall>a. r = Inr a \<longrightarrow> strip a = b \<and> validCert cr now a dnsName)"
proof -
  let ?w = "w\<lparr>kw_calls := Suc (kw_calls w)\<rparr>"
  obtain x where x: "kw_secret w = Some x" "strip (secretToCerts x) = b"
    using assms(2) by (auto simp: secret_quiet_def secret_stored_def)
  have i: "interfere w = ?w" using assms(2) by (simp add: secret_quiet_def interfere_undisturbed)
  have "\<exists>r1. run_state get_secret w = (r1, ?w) \<and> (r1 = Inr x \<or> (\<exists>e. r1 = Inl e))"
    using x(1) by (simp add: get_secret_def request_def i Let_def split: api_fate.split)
  then obtain r1 where 1: "run_state get_secret w = (r1, ?w)" and r1: "r1 = Inr x \<or> (\<exists>e. r1 = Inl e)" by blast
  have "w' = ?w \<or> (\<exists>g. w' = ?w\<lparr>kw_gen := g\<rparr>)" and r: "r = Inr a \<Longrightarrow> a = secretToCerts x" for a
    using assms(1) 1 r1 by (auto simp: secret_read_def Let_def split: sum.splits api_error.splits option.splits)
  moreover have "validCert cr now a dnsName" if "a = secretToCerts x" for a
    using assms(2) x(2) that strip_simps(2) [of cr now a dnsName] by (simp add: secret_quiet_def)
  ultimately show ?thesis
    using assms(2) x by (auto simp: secret_quiet_def secret_same_def secret_stored_def undisturbed_def)
qed

lemma secret_write_steady:
  assumes "run_state (secret_write cr now ns n dnsName) w = (r, w')" and "secret_quiet cr now dnsName b w"
  shows "secret_quiet cr now dnsName b w' \<and> secret_same w w' \<and> (\<forall>a. r \<noteq> Inr a)"
proof -
  obtain r1 where 1: "run_state (generate cr now dnsName) w = (r1, w\<lparr>kw_rnds := Suc (kw_rnds w)\<rparr>)"
    by (auto simp: generate_def)
  let ?w1 = "w\<lparr>kw_rnds := Suc (kw_rnds w)\<rparr>"
  let ?w2 = "?w1\<lparr>kw_calls := Suc (kw_calls w)\<rparr>"
  obtain x where x: "kw_secret w = Some x" using assms(2) by (auto simp: secret_quiet_def secret_stored_def)
  have i: "interfere ?w1 = ?w2" using assms(2) by (simp add: secret_quiet_def undisturbed_def interfere_def)
  have 2: "\<exists>e. run_state (create_secret s) ?w1 = (Inl e, ?w2)" for s
    using x by (auto simp: create_secret_def request_def i Let_def split: api_fate.splits)
  have "w' = ?w1 \<or> w' = ?w2" "\<forall>a. r \<noteq> Inr a"
  proof -
    have "(w' = ?w1 \<or> w' = ?w2) \<and> (\<forall>a. r \<noteq> Inr a)"
    proof (cases r1)
      case (Inl e)
      with assms(1) 1 show ?thesis by (auto simp: secret_write_def buildSecret_def)
    next
      case (Inr a)
      from 2 [of "certsToSecret a ns n"] obtain e where "run_state (create_secret (certsToSecret a ns n)) ?w1 = (Inl e, ?w2)" ..
      with assms(1) 1 Inr show ?thesis by (auto simp: secret_write_def buildSecret_def split: api_error.splits)
    qed
    then show "w' = ?w1 \<or> w' = ?w2" "\<forall>a. r \<noteq> Inr a" by blast+
  qed
  with assms(2) show ?thesis by (auto simp: secret_quiet_def secret_same_def secret_stored_def undisturbed_def)
qed

interpretation secret_steady: steady_store cr now dnsName "secretCertWriter cr now ns n dnsName"
    "secret_quiet cr now dnsName" "\<lambda>_. True" secret_same for cr now dnsName ns n
proof (unfold_locales, goal_cases)
  case (3 s r s' b)
  then show ?case using secret_read_steady [of s r s' cr now dnsName b] by (simp add: secretCertWriter_def)
next
  case (4 s r s' b)
  then show ?case using secret_write_steady [of cr now ns n dnsName s r s' b] by (simp add: secretCertWriter_def)
qed (auto simp: secret_same_def)

subsection \<open>The directory is a store\<close>

definition fs_inv :: "('k, 'z) cert_world_scheme \<Rightarrow> bool" where
  \<comment> \<open>the directory is well-formed or does not exist yet\<close>
  "fs_inv w \<longleftrightarrow> (dir_ok (w_fs w) \<or> w_fs w = []) \<and> (\<forall>n. stamp_ok (fst (kw_stamp w n)))"

definition fs_ready :: "('k, 'c) crypto \<Rightarrow> ('c \<Rightarrow> 'k \<Rightarrow> int \<Rightarrow> bool) \<Rightarrow> int \<Rightarrow> string \<Rightarrow> ('k, 'z) cert_world_scheme \<Rightarrow> bool" where
  \<comment> \<open>this writer never gives its generator a root\<close>
  "fs_ready cr signs now dnsName w \<longleftrightarrow>
     x509_laws cr signs now \<and> servable_host cr dnsName \<and> root_good cr signs now (kw_gen w) \<and> fs_inv w"

definition complete :: "fs \<Rightarrow> bool" where
  "complete fs \<longleftrightarrow> (\<forall>f\<in>set filenames. view fs [f] \<noteq> None)"

definition dir_certs :: "fs \<Rightarrow> Artifacts option" where
  "dir_certs fs =
     (case (view fs [ServerKeyName], view fs [ServerCertName], view fs [CAKeyName], view fs [CACertName]) of
        (Some key, Some cert, Some caKey, Some caCert) \<Rightarrow>
          Some \<lparr>art_Key = Some key, art_Cert = Some cert, art_CAKey = Some caKey, art_CACert = Some caCert, art_ResourceVersion = ''''\<rparr>
      | _ \<Rightarrow> None)"

definition kept_valid ::
    "('k, 'c) crypto \<Rightarrow> int \<Rightarrow> string \<Rightarrow> ('k, 'z) cert_world_scheme \<Rightarrow> ('k, 'z) cert_world_scheme \<Rightarrow> bool" where
  "kept_valid cr now dnsName w w' \<longleftrightarrow>
     (\<forall>a. complete (w_fs w) \<and> dir_certs (w_fs w) = Some a \<and> validCert cr now a dnsName \<longrightarrow>
        (\<forall>p. visible p \<longrightarrow> view (w_fs w') p = view (w_fs w) p))"

definition same_cluster :: "('k, 'z) cert_world_scheme \<Rightarrow> ('k, 'z) cert_world_scheme \<Rightarrow> bool" where
  "same_cluster w w' \<longleftrightarrow> kw_secret w' = kw_secret w \<and> kw_revision w' = kw_revision w \<and> kw_writes w' = kw_writes w
     \<and> kw_env w' = kw_env w \<and> kw_calls w' = kw_calls w \<and> kw_gen w' = kw_gen w \<and> cert_world.more w' = cert_world.more w"

definition dir_sound ::
    "('k, 'c) crypto \<Rightarrow> int \<Rightarrow> string \<Rightarrow> ('k, 'z) cert_world_scheme \<Rightarrow> ('k, 'z) cert_world_scheme \<Rightarrow> bool" where
  "dir_sound cr now dnsName w w' \<longleftrightarrow> kept_valid cr now dnsName w w' \<and> same_cluster w w'"

lemmas cert_file_names = CAKeyName_def CACertName_def ServerKeyName_def ServerKeyName2_def ServerCertName_def ServerCertName2_def

lemma filenames_plain: "f \<in> set filenames \<Longrightarrow> \<not> reserved f \<and> visible [f]"
  by (auto simp: filenames_def cert_file_names reserved_def hasPrefix_def visible_def)

lemma views_certs:
  assumes "\<forall>p. visible p \<longrightarrow> view fs' p = view fs p"
  shows "complete fs' = complete fs" "dir_certs fs' = dir_certs fs"
proof -
  have v: "view fs' [f] = view fs [f]" if "f \<in> set filenames" for f using assms filenames_plain [OF that] by blast
  then show "complete fs' = complete fs" by (simp add: complete_def)
  from v show "dir_certs fs' = dir_certs fs" by (simp add: dir_certs_def filenames_def)
qed

lemma projected_certs:
  "projected (certToProjectionMap c) [CAKeyName] = Some (nil_bytes (art_CAKey c))"
  "projected (certToProjectionMap c) [CACertName] = Some (nil_bytes (art_CACert c))"
  "projected (certToProjectionMap c) [ServerCertName] = Some (nil_bytes (art_Cert c))"
  "projected (certToProjectionMap c) [ServerCertName2] = Some (nil_bytes (art_Cert c))"
  "projected (certToProjectionMap c) [ServerKeyName] = Some (nil_bytes (art_Key c))"
  "projected (certToProjectionMap c) [ServerKeyName2] = Some (nil_bytes (art_Key c))"
  by (simp_all add: projected_def certToProjectionMap_def cert_file_names clean_path_def)

lemma unreserved_certs: "unreserved (certToProjectionMap c)"
  by (simp add: unreserved_def certToProjectionMap_def cert_file_names clean_path_def reserved_def hasPrefix_def)

lemma written_certs:
  assumes "\<forall>p. visible p \<longrightarrow> view fs p = projected (certToProjectionMap c) p"
  shows "complete fs" "dir_certs fs = Some \<lparr>art_Key = Some (nil_bytes (art_Key c)), art_Cert = Some (nil_bytes (art_Cert c)),
    art_CAKey = Some (nil_bytes (art_CAKey c)), art_CACert = Some (nil_bytes (art_CACert c)), art_ResourceVersion = ''''\<rparr>"
proof -
  have v: "view fs [f] = projected (certToProjectionMap c) [f]" if "f \<in> set filenames" for f
    using assms filenames_plain [OF that] by blast
  then show "complete fs" by (simp add: complete_def filenames_def projected_certs)
  from v show "dir_certs fs = Some \<lparr>art_Key = Some (nil_bytes (art_Key c)), art_Cert = Some (nil_bytes (art_Cert c)),
    art_CAKey = Some (nil_bytes (art_CAKey c)), art_CACert = Some (nil_bytes (art_CACert c)), art_ResourceVersion = ''''\<rparr>"
    by (simp add: dir_certs_def filenames_def projected_certs)
qed

lemma each_idle: "(\<And>x. x \<in> set xs \<Longrightarrow> run_state (f x) w = (None, w)) \<Longrightarrow> run_state (each f xs) w = (None, w)"
  by (induction xs) (simp_all add: then_ok_def)

lemma prepare_file_idle:
  assumes "dir_ok (w_fs w)" and "\<not> reserved f"
  shows "run_state (prepare_file f) w = (None, w)"
proof (cases "map_of (w_fs w) [f]")
  case None
  then have "stat_f [f] (w_fs w) = Inl ENOENT"
    using tree_root [OF dir_tree [OF assms(1)]] by (simp add: stat_f_def node_at_def)
  then show ?thesis by (simp add: prepare_file_def reads_def)
next
  case (Some nd)
  then have "map_of (w_fs w) [f] = Some (LinkN [dataDirName, f])" using dir_link [OF assms] by simp
  then have "readlink_f [f] (w_fs w) = Inr [dataDirName, f]"
    using locate_top [OF dir_tree [OF assms(1)]] by (simp add: readlink_f_def lstat_f_def node_at_def)
  then show ?thesis by (simp add: prepare_file_def reads_def)
qed

lemma stat_root: "dir_ok fs \<Longrightarrow> stat_f [] fs = Inr DirN"
  using tree_root [OF dir_tree] by (simp add: stat_f_def node_at_def)

lemma new_dir_ok: "dir_ok [([], DirN)]"
  by (rule dir_okI, rule tree_okI) (auto simp: append_eq_Cons_conv split: if_splits)

lemma no_views: "visible p \<Longrightarrow> view [] p = None" "visible p \<Longrightarrow> view [([], DirN)] p = None"
  by (cases p; simp add: view_def readFile_f_def stat_f_def node_at_def visible_def)+

lemma prepareToWrite_ok:
  assumes "run_state prepareToWrite w = (e, w')" and "dir_ok (w_fs w) \<or> w_fs w = []"
  shows "world.more w' = world.more w" "if e = None then dir_ok (w_fs w') else w_fs w' = []"
    "\<forall>p. visible p \<longrightarrow> view (w_fs w') p = view (w_fs w) p"
proof -
  have idle: "run_state (each prepare_file filenames) w1 = (None, w1)" if "dir_ok (w_fs w1)" for w1 :: "'a world_scheme"
    by (rule each_idle, rule prepare_file_idle [OF that]) (simp add: filenames_plain)
  have "world.more w' = world.more w \<and> (if e = None then dir_ok (w_fs w') else w_fs w' = [])
    \<and> (\<forall>p. visible p \<longrightarrow> view (w_fs w') p = view (w_fs w) p)"
  proof (cases "w_fs w = []")
    case False
    with assms idle [of w] have "e = None" "w' = w" by (simp_all add: prepareToWrite_def reads_def stat_root)
    with assms(2) False show ?thesis by simp
  next
    case True
    then have st: "stat_f [] (w_fs w) = Inl ENOENT" by (simp add: stat_f_def node_at_def)
    have mk: "mkdir_f [] [] = Inr [([], DirN)]" by (simp add: mkdir_f_def put_new_def locate_def)
    obtain r w1 where m: "run_state (MkdirAll []) w = (r, w1)" by (cases "run_state (MkdirAll []) w")
    then have "world.more w1 = world.more w" "w_fs w1 = (if r = None then [([], DirN)] else [])"
      using True st mk by (auto simp: MkdirAll_def reads_def writes_def Let_def split: option.splits)
    with assms(1) m st idle [of w1] new_dir_ok True show ?thesis
      by (cases r) (auto simp: prepareToWrite_def reads_def no_views)
  qed
  then show "world.more w' = world.more w" "if e = None then dir_ok (w_fs w') else w_fs w' = []"
    "\<forall>p. visible p \<longrightarrow> view (w_fs w') p = view (w_fs w) p" by blast+
qed

lemma more_fields:
  assumes "world.more w' = world.more w"
  shows "kw_stamp w' = kw_stamp w" "same_cluster w w'"
  using assms by (cases w; cases w'; simp add: same_cluster_def)+

lemma same_cluster_trans: "same_cluster w w1 \<Longrightarrow> same_cluster w1 w2 \<Longrightarrow> same_cluster w w2"
  by (simp add: same_cluster_def)

lemma kept_valid_trans:
  assumes "kept_valid cr now dnsName w w1" and "kept_valid cr now dnsName w1 w2"
  shows "kept_valid cr now dnsName w w2"
  unfolding kept_valid_def
proof (intro allI impI)
  fix a p
  assume a: "complete (w_fs w) \<and> dir_certs (w_fs w) = Some a \<and> validCert cr now a dnsName" and p: "visible p"
  with assms(1) have v: "\<forall>p. visible p \<longrightarrow> view (w_fs w1) p = view (w_fs w) p" by (simp add: kept_valid_def)
  with a have "complete (w_fs w1)" "dir_certs (w_fs w1) = Some a" using views_certs [OF v] by simp_all
  with assms(2) a p v show "view (w_fs w2) p = view (w_fs w) p" by (simp add: kept_valid_def)
qed

lemma WriteCertsToDir_ok:
  assumes "run_state (WriteCertsToDir masked c) w = (e, w')" and "fs_inv w"
  shows "fs_inv w'" "same_cluster w w'"
    "(\<forall>p. visible p \<longrightarrow> view (w_fs w') p = view (w_fs w) p)
      \<or> (\<forall>p. visible p \<longrightarrow> view (w_fs w') p = projected (certToProjectionMap c) p)"
    "e = None \<Longrightarrow> \<forall>p. visible p \<longrightarrow> view (w_fs w') p = projected (certToProjectionMap c) p"
proof -
  obtain r1 w1 where 1: "run_state prepareToWrite w = (r1, w1)" by (cases "run_state prepareToWrite w")
  have ok: "dir_ok (w_fs w) \<or> w_fs w = []" and st: "\<And>n. stamp_ok (fst (kw_stamp w n))"
    using assms(2) by (simp_all add: fs_inv_def)
  note p = prepareToWrite_ok [OF 1 ok] and m = more_fields [OF prepareToWrite_ok(1) [OF 1 ok]]
  have "fs_inv w' \<and> same_cluster w w'
    \<and> ((\<forall>p. visible p \<longrightarrow> view (w_fs w') p = view (w_fs w) p) \<or> (\<forall>p. visible p \<longrightarrow> view (w_fs w') p = projected (certToProjectionMap c) p))
    \<and> (e = None \<longrightarrow> (\<forall>p. visible p \<longrightarrow> view (w_fs w') p = projected (certToProjectionMap c) p))"
  proof (cases r1)
    case (Some x)
    with assms(1) 1 have "w' = w1" "e = Some x" by (simp_all add: WriteCertsToDir_def then_ok_def)
    with p m st Some show ?thesis by (simp add: fs_inv_def)
  next
    case None
    then have d: "dir_ok (w_fs w1)" using p(2) by simp
    obtain stamp rnd where s: "kw_stamp w1 (kw_stamps w1) = (stamp, rnd)" by (cases "kw_stamp w1 (kw_stamps w1)")
    let ?w1 = "w1\<lparr>kw_stamps := Suc (kw_stamps w1)\<rparr>"
    have so: "stamp_ok stamp" using st [of "kw_stamps w1"] m(1) s by simp
    obtain r2 w2 where 2: "run_state (Write False masked stamp rnd (certToProjectionMap c)) ?w1 = (r2, w2)"
      by (cases "run_state (Write False masked stamp rnd (certToProjectionMap c)) ?w1")
    have w': "w' = w2" "e = map_option WriteFailed r2"
      using assms(1) 1 2 None s by (simp_all add: WriteCertsToDir_def then_ok_def reads_def stat_root [OF d] next_stamp_def)
    have d1: "dir_ok (w_fs ?w1)" using d by simp
    note tr = ensuresD [OF Write_triple [OF d1 so unreserved_certs] 2]
    have q: "dir_ok (w_fs w2) \<and> ((\<forall>p. visible p \<longrightarrow> view (w_fs w2) p = view (w_fs w1) p)
        \<or> (\<forall>p. visible p \<longrightarrow> view (w_fs w2) p = projected (certToProjectionMap c) p))
      \<and> (r2 = None \<longrightarrow> (\<forall>p. visible p \<longrightarrow> view (w_fs w2) p = projected (certToProjectionMap c) p))"
      using tr(1) by simp
    have "world.more w2 = world.more ?w1" using tr(3) by simp
    note m2 = more_fields [OF this]
    have "fs_inv w2" using q m2 m st by (simp add: fs_inv_def)
    moreover have "same_cluster w w2" using m2(2) m(2) by (simp add: same_cluster_def)
    moreover have "e = None \<longleftrightarrow> r2 = None" using w' by simp
    moreover have "\<forall>p. visible p \<longrightarrow> view (w_fs w1) p = view (w_fs w) p" by (rule p(3))
    ultimately show ?thesis using q w'(1) by simp
  qed
  then show "fs_inv w'" "same_cluster w w'"
    "(\<forall>p. visible p \<longrightarrow> view (w_fs w') p = view (w_fs w) p)
      \<or> (\<forall>p. visible p \<longrightarrow> view (w_fs w') p = projected (certToProjectionMap c) p)"
    "e = None \<Longrightarrow> \<forall>p. visible p \<longrightarrow> view (w_fs w') p = projected (certToProjectionMap c) p"
    by blast+
qed

lemma valid_parts:
  assumes "validCert cr now a dnsName" and "art_CAKey a \<noteq> None \<and> art_ResourceVersion a = []"
  shows "\<exists>key cert caKey caCert. a = \<lparr>art_Key = Some key, art_Cert = Some cert, art_CAKey = Some caKey,
    art_CACert = Some caCert, art_ResourceVersion = []\<rparr>"
  using assms by (cases a) (auto simp: validCert_def split: option.splits)

lemma doWrite_ok:
  assumes "run_state (doWrite cr now masked dnsName) w = (r, w')" and "fs_ready cr signs now dnsName w"
  shows "fs_ready cr signs now dnsName w' \<and> same_cluster w w'
    \<and> (\<forall>a. r = Inr a \<longrightarrow> dir_certs (w_fs w') = Some (strip a) \<and> validCert cr now a dnsName)"
proof -
  have rdy: "x509_laws cr signs now" "servable_host cr dnsName" "root_good cr signs now (kw_gen w)" "fs_inv w"
    using assms(2) by (simp_all add: fs_ready_def)
  obtain r1 w1 where 1: "run_state (generate cr now dnsName) w = (r1, w1)" by (cases "run_state (generate cr now dnsName) w")
  note g = generate_ok [OF 1 rdy(1-3)]
  have i: "fs_inv w1" "same_cluster w w1" using rdy(4) g(1) by (simp_all add: fs_inv_def same_cluster_def)
  show ?thesis
  proof (cases r1)
    case (Inl e)
    with assms 1 i g(1) show ?thesis by (auto simp: doWrite_def fs_ready_def)
  next
    case (Inr a)
    obtain e w2 where 2: "run_state (WriteCertsToDir masked a) w1 = (e, w2)" by (cases "run_state (WriteCertsToDir masked a) w1")
    note k = WriteCertsToDir_ok [OF 2 i(1)]
    have w': "w' = w2" and r: "r = (case e of Some e \<Rightarrow> Inl e | None \<Rightarrow> Inr a)"
      using assms(1) 1 2 Inr by (simp_all add: doWrite_def)
    have sc: "same_cluster w w2" using same_cluster_trans [OF i(2) k(2)] .
    then have "fs_ready cr signs now dnsName w2" using rdy k(1) by (simp add: fs_ready_def same_cluster_def)
    moreover have "dir_certs (w_fs w2) = Some (strip a)" if "e = None"
      using written_certs(2) [OF k(4) [OF that]] valid_parts [OF g(2) [OF Inr] g(4) [OF Inr]] by (auto simp: nil_bytes_def strip_def)
    ultimately show ?thesis using sc w' r g(2) [OF Inr] by (auto split: option.splits)
  qed
qed

lemma ensureExist_missing: "ensureExist names fs = Some NotFoundErr \<Longrightarrow> \<exists>f\<in>set names. view fs [f] = None"
proof (induction names)
  case (Cons f names)
  then show ?case
    by (cases "stat_f [f] fs") (auto simp: view_def readFile_f_def split: sum.splits errno.splits)
qed simp

lemma read_certs_ok:
  "read_certs fs = Inr a \<Longrightarrow> dir_certs fs = Some (strip a)" "read_certs fs = Inl NotFoundErr \<Longrightarrow> \<not> complete fs"
  using ensureExist_missing [of filenames fs]
  by (auto simp: read_certs_def dir_certs_def view_def strip_def complete_def split: option.splits sum.splits)

interpretation dir_store: cert_store cr now dnsName "fsCertWriter cr now masked dnsName" "fs_ready cr signs now dnsName" "\<lambda>w. \<not> complete (w_fs w)"
    "\<lambda>w. dir_certs (w_fs w)" "\<lambda>w _ b. dir_certs (w_fs w) = Some b" "dir_sound cr now dnsName" for cr signs now masked dnsName
proof (unfold_locales, goal_cases)
  case (2 s s1 s2)
  then show ?case using kept_valid_trans same_cluster_trans unfolding dir_sound_def by blast
next
  case (3 s r s')
  then show ?case using read_certs_ok [of "w_fs s"] by (auto simp: fsCertWriter_def reads_def dir_sound_def kept_valid_def same_cluster_def)
next
  case (4 s r s')
  then show ?case using doWrite_ok [of cr now masked dnsName s r s' signs] by (auto simp: fsCertWriter_def dir_sound_def kept_valid_def)
next
  case (5 v s r s' b)
  then show ?case using doWrite_ok [of cr now masked dnsName s r s' signs] by (auto simp: fsCertWriter_def dir_sound_def kept_valid_def)
qed (auto simp: dir_sound_def kept_valid_def same_cluster_def)

definition dir_quiet :: "('k, 'c) crypto \<Rightarrow> int \<Rightarrow> string \<Rightarrow> Artifacts \<Rightarrow> ('k, 'z) cert_world_scheme \<Rightarrow> bool" where
  "dir_quiet cr now dnsName b w \<longleftrightarrow> complete (w_fs w) \<and> dir_certs (w_fs w) = Some b \<and> validCert cr now b dnsName"

interpretation dir_steady: steady_store cr now dnsName "fsCertWriter cr now masked dnsName"
    "dir_quiet cr now dnsName" "\<lambda>w. \<not> complete (w_fs w)" "(=)" for cr now masked dnsName
proof (unfold_locales, goal_cases)
  case (3 s r s' b)
  then have "s' = s" "r = read_certs (w_fs s)" by (auto simp: fsCertWriter_def reads_def)
  with 3 read_certs_ok [of "w_fs s"] strip_simps(2) [of cr now _ dnsName] show ?case by (fastforce simp: dir_quiet_def)
qed (auto simp: dir_quiet_def)

subsection \<open>Theorems\<close>

lemma secret_EnsureCert_ok:
  assumes "secret_ready cr signs now dnsName w" and "run_state (secret_EnsureCert cr now ns n dnsName) w = ((r, changed), w')"
  shows "secret_ready cr signs now dnsName w' \<and> secret_sound cr now dnsName w w'
    \<and> (\<forall>a. r = Inr a \<longrightarrow> secret_stored w' = Some (strip a) \<and> validCert cr now a dnsName)"
  by (rule secret_store.handleCommon_ok [OF assms(2) [unfolded secret_EnsureCert_def] assms(1)])

lemma fs_EnsureCert_ok:
  assumes "fs_ready cr signs now dnsName w" and "run_state (fs_EnsureCert cr now masked dnsName) w = ((r, changed), w')"
  shows "fs_ready cr signs now dnsName w' \<and> dir_sound cr now dnsName w w'
    \<and> (\<forall>a. r = Inr a \<longrightarrow> dir_certs (w_fs w') = Some (strip a) \<and> validCert cr now a dnsName)"
  by (rule dir_store.handleCommon_ok [OF assms(2) [unfolded fs_EnsureCert_def] assms(1)])

lemma secret_EnsureCert_steady:
  assumes "secret_quiet cr now dnsName b w" and "run_state (secret_EnsureCert cr now ns n dnsName) w = ((r, changed), w')"
  shows "secret_same w w' \<and> (\<forall>a. r = Inr a \<longrightarrow> strip a = b)"
  by (rule secret_steady.handleCommon_steady [OF assms(2) [unfolded secret_EnsureCert_def] assms(1)])

lemma fs_EnsureCert_steady:
  assumes "dir_quiet cr now dnsName b w" and "run_state (fs_EnsureCert cr now masked dnsName) w = ((r, changed), w')"
  shows "w' = w \<and> (\<forall>a. r = Inr a \<longrightarrow> strip a = b)"
  using dir_steady.handleCommon_steady [OF assms(2) [unfolded fs_EnsureCert_def] assms(1)] by blast

definition example_crypto :: "(nat, string) crypto" where
  \<comment> \<open>a certificate is the host name it is for; months are the unit of time\<close>
  "example_crypto =
     \<lparr>cr_X509KeyPair = (\<lambda>_ _. True), cr_AppendCertsFromPEM = (\<lambda>p. [p]), cr_pemDecode = Some, cr_pemEncode = (\<lambda>_ b. b),
      cr_ParseCertificate = Some, cr_Verify = (\<lambda>c host _ _. host = c \<or> host = [] \<or> host = ''localhost''),
      cr_ParsePrivateKeyPEM = (\<lambda>s. map_option Some (atou s)), cr_ParseCertsPEM = (\<lambda>p. Some [p]),
      cr_NewSelfSignedCACert = (\<lambda>_ cn _. Some cn),
      cr_CreateCertificate = (\<lambda>tmpl _ _ _. case ct_DNSNames tmpl of [l, h] \<Rightarrow> if l = ''localhost'' then Some h else None | _ \<Rightarrow> None),
      cr_MarshalPKCS1PrivateKey = utoa, cr_Raw = (\<lambda>c. c), cr_NotBefore = (\<lambda>_. 0),
      cr_ParseIP = (\<lambda>_. None), cr_To4 = (\<lambda>_. None), cr_AddDate = (\<lambda>t y m. t + 12 * y + m)\<rparr>"

lemma example_laws: "x509_laws example_crypto (\<lambda>_ _ _. True) 0"
  by (auto simp: x509_laws_def example_crypto_def EncodeCertPEM_def EncodePrivateKeyPEM_def parsed_def host_matches_def tenYears_def
      second_def split: list.splits if_splits)

lemma example_roots: "root_good example_crypto (\<lambda>_ _ _. True) 0 g" "servable_host example_crypto ''h''"
  by (simp_all add: root_good_def servable_host_def example_crypto_def)

lemma utoa_stamp_ok: "stamp_ok (utoa n)"
proof -
  obtain m where "hd (utoa n) = digit m" using hd_utoa by blast
  moreover have "digit m \<in> set ''0123456789''" unfolding digit_def by (rule nth_mem) simp
  ultimately show ?thesis by (simp add: stamp_ok_def)
qed

definition example_certs :: "string \<Rightarrow> Artifacts" where
  "example_certs host = \<lparr>art_Key = Some ''k'', art_Cert = Some host, art_CAKey = Some ''k'', art_CACert = Some ''ca'', art_ResourceVersion = ''''\<rparr>"

definition example_world :: "secret option \<Rightarrow> (nat \<Rightarrow> secret option option) \<Rightarrow> fs \<Rightarrow> nat cert_world" where
  "example_world sec env fs =
     \<lparr>w_fs = fs, w_sched = (\<lambda>_. None), w_tick = 0, kw_secret = sec, kw_revision = 0, kw_env = env, kw_fate = (\<lambda>_. Executed),
      kw_calls = 0, kw_writes = [], kw_gen = new_generator,
      kw_rnd = (\<lambda>_. \<lparr>rn_caKey = Some 1, rn_key = Some 2, rn_serial = Some 3\<rparr>), kw_rnds = 0,
      kw_stamp = (\<lambda>n. (utoa n, [''x''])), kw_stamps = 0\<rparr>"

text \<open>
  C8. Replicas agree on one certificate. The host is a name or an IPv4 address, and a root that
  others have stored in the Secret is a certificate authority if the generator accepts it. Whatever
  other processes do to the Secret between the requests, and whatever requests fail, be it with
  or without effect: if the certificates are ensured, the ones returned are those the Secret
  holds at that moment, and they are valid for the host for at least six months; and no request
  of this process replaces certificates that are still valid.
\<close>

theorem secret_EnsureCert_agrees:
  assumes "x509_laws cr signs now" and "servable_host cr dnsName" and "secret_inv w" and "roots_good cr signs now w"
    and "run_state (secret_EnsureCert cr now ns n dnsName) w = ((r, changed), w')"
  shows "secret_inv w' \<and> roots_good cr signs now w' \<and> replaced_invalid cr now dnsName w w'
    \<and> (\<forall>a. r = Inr a \<longrightarrow> secret_stored w' = Some (strip a) \<and> validCert cr now a dnsName)"
  using secret_EnsureCert_ok [of cr signs now dnsName w] assms by (simp add: secret_ready_def secret_sound_def)

theorem secret_EnsureCert_agrees_witness:
  "\<exists>w'. run_state (secret_EnsureCert example_crypto 0 ''ns'' ''s'' ''h'')
       (example_world None (\<lambda>n. if n = 1 then Some (Some (certsToSecret (example_certs ''h'') ''ns'' ''s'')) else None) [])
       = ((Inr (example_certs ''h''\<lparr>art_ResourceVersion := ''1''\<rparr>), True), w')
     \<and> secret_stored w' = Some (example_certs ''h'') \<and> kw_writes w' = []"
proof -
  let ?w = "example_world None (\<lambda>n. if n = 1 then Some (Some (certsToSecret (example_certs ''h'') ''ns'' ''s'')) else None) []"
  let ?run = "run_state (secret_EnsureCert example_crypto 0 ''ns'' ''s'' ''h'') ?w"
  obtain r c w' where run: "?run = ((r, c), w')" by (cases ?run) auto
  have inv: "secret_inv ?w" by (simp add: secret_inv_def example_world_def)
  have roots: "roots_good example_crypto (\<lambda>_ _ _. True) 0 ?w" by (simp add: roots_good_def stored_roots_good_def secret_root_good_def example_roots(1))
  note t = secret_EnsureCert_agrees [OF example_laws example_roots(2) inv roots run]
  have "fst ?run = (Inr (example_certs ''h''\<lparr>art_ResourceVersion := ''1''\<rparr>), True) \<and> kw_writes (snd ?run) = []" by code_simp
  with run have "r = Inr (example_certs ''h''\<lparr>art_ResourceVersion := ''1''\<rparr>)" "c" "kw_writes w' = []" by auto
  with t run show ?thesis by (auto simp: strip_def example_certs_def)
qed

text \<open>
  C39. The certificate directory as a store, for a host name or an IPv4 address. From a
  directory in any state the writer can leave behind, or from none, and whatever calls fail: if a
  new writer has ensured the certificates, they are valid and a later read finds exactly them;
  and a complete directory with valid certificates is left as it is.
\<close>

theorem fs_EnsureCert_roundtrip:
  assumes "x509_laws cr signs now" and "servable_host cr dnsName" and "kw_gen w = new_generator" and "fs_inv w"
    and "run_state (fs_EnsureCert cr now masked dnsName) w = ((r, changed), w')"
  shows "fs_inv w' \<and> kept_valid cr now dnsName w w'
    \<and> (\<forall>a. r = Inr a \<longrightarrow> dir_certs (w_fs w') = Some (strip a) \<and> validCert cr now a dnsName)"
  using fs_EnsureCert_ok [of cr signs now dnsName w] new_generator_good [of cr signs now] assms
  by (simp add: fs_ready_def dir_sound_def)

theorem fs_EnsureCert_roundtrip_witness:
  "\<exists>a w'. run_state (fs_EnsureCert example_crypto 0 id ''h'') (example_world None (\<lambda>_. None) []) = ((Inr a, True), w')
     \<and> dir_certs (w_fs w') = Some a \<and> art_Cert a = Some ''h''"
proof -
  let ?w = "example_world None (\<lambda>_. None) []"
  let ?run = "run_state (fs_EnsureCert example_crypto 0 id ''h'') ?w"
  obtain r c w' where run: "?run = ((r, c), w')" by (cases ?run) auto
  have inv: "fs_inv ?w" using utoa_stamp_ok by (simp add: fs_inv_def example_world_def)
  have gen: "kw_gen ?w = new_generator" by (simp add: example_world_def)
  note t = fs_EnsureCert_roundtrip [OF example_laws example_roots(2) gen inv run]
  have "(case fst ?run of (Inr a, c) \<Rightarrow> c \<and> strip a = a \<and> art_Cert a = Some ''h'' | _ \<Rightarrow> False)" by code_simp
  with run t show ?thesis by (auto split: sum.splits)
qed

end
