(* ===== verification/Webhook_Controller.thy ===== *)
theory Webhook_Controller
  imports Cert_Writer Webhook_Util
begin

section \<open>The webhook controller of the manager (\<^verbatim>\<open>webhook/util/controller\<close>, \<^verbatim>\<open>webhook/server.go\<close>)\<close>

text \<open>
  Every replica of the manager keeps the serving certificates, the certificate directory and
  the two webhook configurations of the cluster in agreement. The world of
  \<^theory_text>\<open>Cert_Writer\<close> is extended by the configurations; nobody else changes them during one
  run of \<open>sync\<close>, but requests for them can fail with or without effect. Parts of the
  configurations that the code does not touch are opaque strings. A nil dereference and the
  end of the process on a malformed port are the outcome \<open>Crashed\<close>.

  Also here: the table of admission handlers, the health check and the wait for it.
\<close>

subsection \<open>Data\<close>

record service_ref =
  srf_Namespace :: string
  srf_Name :: string
  srf_Path :: "string option"
  srf_Port :: "int option"

record client_config =
  wcc_URL :: "string option"
  wcc_Service :: "service_ref option"
  wcc_CABundle :: "string option"

record admission_webhook =
  awh_ClientConfig :: client_config
  awh_Rest :: string

record webhook_configuration =
  wcf_Webhooks :: "admission_webhook list"
  wcf_Rest :: string

record 'k ctl_world = "'k cert_world" +
  hw_mutating :: "webhook_configuration option"
  hw_validating :: "webhook_configuration option"
  hw_fate :: "nat \<Rightarrow> api_fate"
  hw_calls :: nat
  hw_initialized :: bool

datatype sync_error =
    EnsureCertsFailed cert_error
  | WriteCertsFailed cert_error
  | NoMutatingConfig
  | NoValidatingConfig
  | UpdateConfigFailed api_error

datatype outcome = Fine | Erred sync_error | Crashed

definition FsCertWriter :: string where
  "FsCertWriter = ''fs''"

definition mutatingWebhookConfigurationName :: string where
  "mutatingWebhookConfigurationName = ''ctrlmesh-mutating-webhook-configuration''"

definition validatingWebhookConfigurationName :: string where
  "validatingWebhookConfigurationName = ''ctrlmesh-validating-webhook-configuration''"

subsection \<open>Configurations\<close>

definition convertClientConfig :: "client_config \<Rightarrow> string \<Rightarrow> int \<Rightarrow> client_config option" where
  "convertClientConfig cc host port =
     (case wcc_Service cc of
        None \<Rightarrow> None
      | Some s \<Rightarrow> (case srf_Path s of
                     None \<Rightarrow> None
                   | Some p \<Rightarrow> Some (cc\<lparr>wcc_URL := Some (''https://'' @ host @ '':'' @ itoa port @ p), wcc_Service := None\<rparr>)))"

definition ensure_webhook :: "environ \<Rightarrow> string option \<Rightarrow> admission_webhook \<Rightarrow> admission_webhook option" where
  "ensure_webhook env caBundle wh =
     (let cc = (awh_ClientConfig wh)\<lparr>wcc_CABundle := caBundle\<rparr>;
          cc = cc\<lparr>wcc_Service := map_option (\<lambda>s. s\<lparr>srf_Namespace := GetNamespace env, srf_Name := GetServiceName env\<rparr>) (wcc_Service cc)\<rparr>;
          host = GetHost env in
      if length host > 0 \<and> wcc_Service cc \<noteq> None then
        (case GetPort env of
           None \<Rightarrow> None
         | Some port \<Rightarrow> map_option (\<lambda>cc. wh\<lparr>awh_ClientConfig := cc\<rparr>) (convertClientConfig cc host port))
      else Some (wh\<lparr>awh_ClientConfig := cc\<rparr>))"

definition ensure_webhooks :: "environ \<Rightarrow> string option \<Rightarrow> webhook_configuration \<Rightarrow> webhook_configuration option" where
  "ensure_webhooks env caBundle conf =
     map_option (\<lambda>whs. conf\<lparr>wcf_Webhooks := whs\<rparr>) (those (map (ensure_webhook env caBundle) (wcf_Webhooks conf)))"

definition config_request ::
    "(('k, 'z) ctl_world_scheme \<Rightarrow> (api_error + 'a) \<times> ('k, 'z) ctl_world_scheme) \<Rightarrow> (('k, 'z) ctl_world_scheme, api_error + 'a) state" where
  "config_request f = State (\<lambda>w.
     (let w1 = w\<lparr>hw_calls := Suc (hw_calls w)\<rparr> in
      case hw_fate w (hw_calls w) of
        Rejected e \<Rightarrow> (Inl e, w1)
      | Unreported e \<Rightarrow> (Inl e, snd (f w1))
      | Executed \<Rightarrow> f w1))"

definition get_config ::
    "(('k, 'z) ctl_world_scheme \<Rightarrow> webhook_configuration option) \<Rightarrow> (('k, 'z) ctl_world_scheme, api_error + webhook_configuration) state" where
  "get_config get = config_request (\<lambda>w. (case get w of None \<Rightarrow> Inl NotFound | Some c \<Rightarrow> Inr c, w))"

definition update_config ::
    "(webhook_configuration \<Rightarrow> ('k, 'z) ctl_world_scheme \<Rightarrow> ('k, 'z) ctl_world_scheme)
      \<Rightarrow> webhook_configuration \<Rightarrow> webhook_configuration \<Rightarrow> (('k, 'z) ctl_world_scheme, outcome) state" where
  "update_config put old conf =
     (if conf \<noteq> old then do {
        r \<leftarrow> config_request (\<lambda>w. (Inr (), put conf w));
        ret (case r of Inl e \<Rightarrow> Erred (UpdateConfigFailed e) | Inr _ \<Rightarrow> Fine) }
      else ret Fine)"

definition ensureConfigurations :: "environ \<Rightarrow> string option \<Rightarrow> (('k, 'z) ctl_world_scheme, outcome) state" where
  "ensureConfigurations env caBundle = do {
     m \<leftarrow> get_config hw_mutating;
     (case m of
        Inl _ \<Rightarrow> ret (Erred NoMutatingConfig)
      | Inr oldMutatingConfig \<Rightarrow> do {
          v \<leftarrow> get_config hw_validating;
          (case v of
             Inl _ \<Rightarrow> ret (Erred NoValidatingConfig)
           | Inr oldValidatingConfig \<Rightarrow>
               (case ensure_webhooks env caBundle oldMutatingConfig of
                  None \<Rightarrow> ret Crashed
                | Some mutatingConfig \<Rightarrow>
                    (case ensure_webhooks env caBundle oldValidatingConfig of
                       None \<Rightarrow> ret Crashed
                     | Some validatingConfig \<Rightarrow> do {
                         r \<leftarrow> update_config (\<lambda>c. hw_mutating_update (\<lambda>_. Some c)) oldMutatingConfig mutatingConfig;
                         (if r = Fine
                          then update_config (\<lambda>c. hw_validating_update (\<lambda>_. Some c)) oldValidatingConfig validatingConfig
                          else ret r) }))) }) }"

subsection \<open>The control loop\<close>

definition sync_dnsName :: "environ \<Rightarrow> string" where
  "sync_dnsName env =
     (let dnsName = GetHost env in
      if length dnsName = 0 then ServiceToCommonName (GetNamespace env) (GetServiceName env) else dnsName)"

definition uses_fs :: "environ \<Rightarrow> bool" where
  "uses_fs env \<longleftrightarrow>
     (let certWriterType = GetCertWriter env in
      certWriterType = FsCertWriter \<or> (length certWriterType = 0 \<and> length (GetHost env) \<noteq> 0))"

definition new_writer :: "(('k, 'z) cert_world_scheme, unit) state" where
  \<comment> \<open>a new writer has a new generator\<close>
  "new_writer = State (\<lambda>w. ((), w\<lparr>kw_gen := new_generator\<rparr>))"

definition sync_certs ::
    "('k, 'c) crypto \<Rightarrow> int \<Rightarrow> (int \<Rightarrow> int) \<Rightarrow> environ \<Rightarrow> (('k, 'z) cert_world_scheme, (cert_error + Artifacts) \<times> bool) state" where
  "sync_certs cr now masked env = do {
     _ \<leftarrow> new_writer;
     (if uses_fs env then
        (case NewFSCertWriter (GetCertDir env) of
           Some e \<Rightarrow> ret (Inl e, False)
         | None \<Rightarrow> fs_EnsureCert cr now masked (sync_dnsName env))
      else secret_EnsureCert cr now (GetNamespace env) (GetSecretName env) (sync_dnsName env)) }"

definition sync ::
    "('k, 'c) crypto \<Rightarrow> int \<Rightarrow> (int \<Rightarrow> int) \<Rightarrow> environ \<Rightarrow> (('k, 'z) ctl_world_scheme, outcome) state" where
  "sync cr now masked env = do {
     x \<leftarrow> sync_certs cr now masked env;
     (case x of
        (Inl e, _) \<Rightarrow> ret (Erred (EnsureCertsFailed e))
      | (Inr certs, _) \<Rightarrow> do {
          e \<leftarrow> WriteCertsToDir masked certs;
          (case e of
             Some e \<Rightarrow> ret (Erred (WriteCertsFailed e))
           | None \<Rightarrow> do {
               r \<leftarrow> ensureConfigurations env (art_CACert certs);
               (if r = Fine then State (\<lambda>w. (Fine, w\<lparr>hw_initialized := True\<rparr>)) else ret r) }) }) }"

datatype queue_op = Add string | AddAfter string int | AddRateLimited string | Forget string | Done string

definition on_add :: "string \<Rightarrow> string \<Rightarrow> queue_op list" where
  \<comment> \<open>the three \<^verbatim>\<open>AddFunc\<close>s; the first argument is the name that is watched\<close>
  "on_add watched name = (if name = watched then [Add ''''] else [])"

definition on_update :: "string \<Rightarrow> string \<Rightarrow> queue_op list" where
  "on_update watched name = (if name = watched then [AddAfter '''' 100] else [])"

definition processNextWorkItem ::
    "(string \<times> bool) \<Rightarrow> ('s, outcome) state \<Rightarrow> ('s, (bool \<times> queue_op list) option) state" where
  \<comment> \<open>what the queue returns, and the call of \<open>sync\<close>; \<^const>\<open>None\<close> for a crash\<close>
  "processNextWorkItem item run =
     (case item of (key, quit) \<Rightarrow>
        if quit then ret (Some (False, []))
        else do {
          r \<leftarrow> run;
          ret (case r of
                 Fine \<Rightarrow> Some (True, [Forget key, Done key])
               | Erred _ \<Rightarrow> Some (True, [AddRateLimited key, Done key])
               | Crashed \<Rightarrow> None) })"

subsection \<open>The webhook server\<close>

fun addHandlers :: "(string, 'h) gomap \<Rightarrow> (string, 'h) gomap \<Rightarrow> (string, 'h) gomap" where
  "addHandlers [] handlerMap = handlerMap"
| "addHandlers ((path, handler) # m) handlerMap =
     (case path of
        [] \<Rightarrow> addHandlers m handlerMap
      | c # _ \<Rightarrow> addHandlers m (AList.update (if c \<noteq> CHR ''/'' then ''/'' @ path else path) handler handlerMap))"

record 'c checker =
  \<comment> \<open>the package variables; \<open>chk_client\<close> holds the pool of the client\<close>
  chk_once :: bool
  chk_client :: "'c list option"
  chk_initErr :: "errno option"

datatype check_error = InitError errno | RequestFailed

definition Checker ::
    "('k, 'c) crypto \<Rightarrow> ('c list \<Rightarrow> bool) \<Rightarrow> fs \<Rightarrow> 'c checker \<Rightarrow> check_error option \<times> 'c checker" where
  \<comment> \<open>the second argument: whether a request of a client with this pool succeeds; without an error
      the initialization has set the client, so the last branch is never taken\<close>
  "Checker cr accepts fs st =
     (let st1 = (if chk_once st then st
                 else (case readFile_f [''ca-cert.pem''] fs of
                         Inl e \<Rightarrow> st\<lparr>chk_once := True, chk_initErr := Some e\<rparr>
                       | Inr caCert \<Rightarrow> st\<lparr>chk_once := True, chk_initErr := None, chk_client := Some (cr_AppendCertsFromPEM cr caCert)\<rparr>)) in
      case chk_initErr st1 of
        Some e \<Rightarrow> (Some (InitError e), st1)
      | None \<Rightarrow> (case chk_client st1 of
                   Some pool \<Rightarrow> (if accepts pool then None else Some RequestFailed, st1)
                 | None \<Rightarrow> (Some RequestFailed, st1)))"

fun WaitReady :: "(nat \<Rightarrow> int) \<Rightarrow> (nat \<Rightarrow> 's \<Rightarrow> 'e option \<times> 's) \<Rightarrow> nat \<Rightarrow> nat \<Rightarrow> 's \<Rightarrow> ('e option \<times> 's) option" where
  \<comment> \<open>\<open>duration i\<close>: milliseconds since the start in round \<open>i\<close>; \<open>check i\<close>: the health check then\<close>
  "WaitReady duration check 0 i st = None"
| "WaitReady duration check (Suc fuel) i st =
     (case check i st of
        (None, st) \<Rightarrow> Some (None, st)
      | (Some e, st) \<Rightarrow>
          if duration i > 60000 then Some (Some e, st)
          else WaitReady duration check fuel (Suc i) st)"

subsection \<open>What the configurations say\<close>

definition points_here :: "environ \<Rightarrow> string option \<Rightarrow> admission_webhook \<Rightarrow> bool" where
  \<comment> \<open>the webhook trusts this root, and is called at the service or, with a host set, at a URL\<close>
  "points_here env caBundle wh \<longleftrightarrow> wcc_CABundle (awh_ClientConfig wh) = caBundle
     \<and> (case wcc_Service (awh_ClientConfig wh) of
          None \<Rightarrow> True
        | Some s \<Rightarrow> GetHost env = '''' \<and> srf_Namespace s = GetNamespace env \<and> srf_Name s = GetServiceName env)"

definition config_ok :: "environ \<Rightarrow> string option \<Rightarrow> webhook_configuration option \<Rightarrow> bool" where
  "config_ok env caBundle conf \<longleftrightarrow> (\<exists>c. conf = Some c \<and> (\<forall>wh\<in>set (wcf_Webhooks c). points_here env caBundle wh))"

text \<open>
  What becomes of one webhook: it trusts the root; one that is reached through a service is then
  reached through this service or, with a host set, at the host's URL with the same path; one
  that has a URL of its own keeps it; nothing else changes.
\<close>

definition called_at :: "environ \<Rightarrow> string option \<Rightarrow> admission_webhook \<Rightarrow> admission_webhook \<Rightarrow> bool" where
  "called_at env caBundle wh wh' \<longleftrightarrow> awh_Rest wh' = awh_Rest wh \<and> wcc_CABundle (awh_ClientConfig wh') = caBundle
     \<and> (case wcc_Service (awh_ClientConfig wh) of
          None \<Rightarrow> wcc_Service (awh_ClientConfig wh') = None \<and> wcc_URL (awh_ClientConfig wh') = wcc_URL (awh_ClientConfig wh)
        | Some s \<Rightarrow>
            if GetHost env = [] then
              (\<exists>s'. wcc_Service (awh_ClientConfig wh') = Some s' \<and> srf_Namespace s' = GetNamespace env \<and> srf_Name s' = GetServiceName env
                 \<and> srf_Path s' = srf_Path s \<and> srf_Port s' = srf_Port s)
              \<and> wcc_URL (awh_ClientConfig wh') = wcc_URL (awh_ClientConfig wh)
            else
              wcc_Service (awh_ClientConfig wh') = None
              \<and> (\<exists>path port. srf_Path s = Some path \<and> GetPort env = Some port
                   \<and> wcc_URL (awh_ClientConfig wh') = Some (''https://'' @ GetHost env @ '':'' @ itoa port @ path)))"

definition directed :: "environ \<Rightarrow> string option \<Rightarrow> webhook_configuration option \<Rightarrow> webhook_configuration option \<Rightarrow> bool" where
  "directed env caBundle conf conf' \<longleftrightarrow>
     (\<exists>c c'. conf = Some c \<and> conf' = Some c' \<and> wcf_Rest c' = wcf_Rest c
        \<and> list_all2 (called_at env caBundle) (wcf_Webhooks c) (wcf_Webhooks c'))"

lemma ensure_webhook_called_at: "ensure_webhook env ca wh = Some wh' \<Longrightarrow> called_at env ca wh wh'"
  by (cases "wcc_Service (awh_ClientConfig wh)"; cases "GetHost env = []")
    (auto simp: ensure_webhook_def convertClientConfig_def called_at_def Let_def split: option.splits)

lemma those_map_all2: "those (map f xs) = Some ys \<Longrightarrow> list_all2 (\<lambda>x y. f x = Some y) xs ys"
  by (induction xs arbitrary: ys) (auto split: option.splits)

lemma ensure_webhooks_directed: "ensure_webhooks env ca c = Some c' \<Longrightarrow> directed env ca (Some c) (Some c')"
  by (auto simp: ensure_webhooks_def directed_def dest!: those_map_all2 elim!: list_all2_mono intro: ensure_webhook_called_at)

lemma ensure_webhook_points: "ensure_webhook env ca wh = Some wh' \<Longrightarrow> points_here env ca wh'"
  by (auto simp: ensure_webhook_def convertClientConfig_def points_here_def Let_def split: if_splits option.splits)

lemma ensure_webhook_idle: "points_here env ca wh \<Longrightarrow> ensure_webhook env ca wh = Some wh"
  by (cases "wcc_Service (awh_ClientConfig wh)") (auto simp: ensure_webhook_def points_here_def Let_def)

lemma those_map_Some: "those (map f xs) = Some ys \<Longrightarrow> length ys = length xs \<and> (\<forall>y\<in>set ys. \<exists>x\<in>set xs. f x = Some y)"
  by (induction xs arbitrary: ys) (force split: option.splits)+

lemma those_map_id: "(\<forall>x\<in>set xs. f x = Some x) \<Longrightarrow> those (map f xs) = Some xs"
  by (induction xs) simp_all

lemma those_map_None: "x \<in> set xs \<Longrightarrow> f x = None \<Longrightarrow> those (map f xs) = None"
  by (induction xs) (auto split: option.splits)

lemma ensure_webhooks_ok: "ensure_webhooks env ca c = Some c' \<Longrightarrow> config_ok env ca (Some c')"
  by (auto simp: ensure_webhooks_def config_ok_def dest!: those_map_Some ensure_webhook_points)

lemma ensure_webhooks_idle: "config_ok env ca (Some c) \<Longrightarrow> ensure_webhooks env ca c = Some c"
  by (auto simp: ensure_webhooks_def config_ok_def ensure_webhook_idle those_map_id)

lemma get_config_ok:
  assumes "run_state (get_config get) w = (r, w')"
  shows "w' = w\<lparr>hw_calls := Suc (hw_calls w)\<rparr>" "r = Inr c \<Longrightarrow> get w' = Some c"
  using assms by (auto simp: get_config_def config_request_def Let_def split: api_fate.splits option.splits)

lemma update_mutating_ok:
  assumes "run_state (update_config (\<lambda>c. hw_mutating_update (\<lambda>_. Some c)) old conf) w = (r, w')" and "hw_mutating w = Some old"
  shows "\<exists>n x. w' = w\<lparr>hw_mutating := x, hw_calls := n\<rparr> \<and> r \<noteq> Crashed \<and> (r = Fine \<longrightarrow> x = Some conf) \<and> (conf = old \<longrightarrow> x = Some old)"
proof (cases "conf = old")
  case True
  with assms have "w' = w" "r = Fine" by (simp_all add: update_config_def)
  with True assms(2) show ?thesis by (intro exI [of _ "hw_calls w"] exI [of _ "hw_mutating w"]) simp
next
  case False
  let ?n = "Suc (hw_calls w)"
  show ?thesis
  proof (cases "hw_fate w (hw_calls w)")
    case (Rejected e)
    with assms(1) False have "w' = w\<lparr>hw_calls := ?n\<rparr>" "r = Erred (UpdateConfigFailed e)"
      by (simp_all add: update_config_def config_request_def Let_def)
    with False show ?thesis by (intro exI [of _ ?n] exI [of _ "hw_mutating w"]) simp
  next
    case Executed
    with assms(1) False have "w' = w\<lparr>hw_calls := ?n, hw_mutating := Some conf\<rparr>" "r = Fine"
      by (simp_all add: update_config_def config_request_def Let_def)
    with False show ?thesis by (intro exI [of _ ?n] exI [of _ "Some conf"]) simp
  next
    case (Unreported e)
    with assms(1) False have "w' = w\<lparr>hw_calls := ?n, hw_mutating := Some conf\<rparr>" "r = Erred (UpdateConfigFailed e)"
      by (simp_all add: update_config_def config_request_def Let_def)
    with False show ?thesis by (intro exI [of _ ?n] exI [of _ "Some conf"]) simp
  qed
qed

lemma update_validating_ok:
  assumes "run_state (update_config (\<lambda>c. hw_validating_update (\<lambda>_. Some c)) old conf) w = (r, w')" and "hw_validating w = Some old"
  shows "\<exists>n x. w' = w\<lparr>hw_validating := x, hw_calls := n\<rparr> \<and> r \<noteq> Crashed \<and> (r = Fine \<longrightarrow> x = Some conf) \<and> (conf = old \<longrightarrow> x = Some old)"
proof (cases "conf = old")
  case True
  with assms have "w' = w" "r = Fine" by (simp_all add: update_config_def)
  with True assms(2) show ?thesis by (intro exI [of _ "hw_calls w"] exI [of _ "hw_validating w"]) simp
next
  case False
  let ?n = "Suc (hw_calls w)"
  show ?thesis
  proof (cases "hw_fate w (hw_calls w)")
    case (Rejected e)
    with assms(1) False have "w' = w\<lparr>hw_calls := ?n\<rparr>" "r = Erred (UpdateConfigFailed e)"
      by (simp_all add: update_config_def config_request_def Let_def)
    with False show ?thesis by (intro exI [of _ ?n] exI [of _ "hw_validating w"]) simp
  next
    case Executed
    with assms(1) False have "w' = w\<lparr>hw_calls := ?n, hw_validating := Some conf\<rparr>" "r = Fine"
      by (simp_all add: update_config_def config_request_def Let_def)
    with False show ?thesis by (intro exI [of _ ?n] exI [of _ "Some conf"]) simp
  next
    case (Unreported e)
    with assms(1) False have "w' = w\<lparr>hw_calls := ?n, hw_validating := Some conf\<rparr>" "r = Erred (UpdateConfigFailed e)"
      by (simp_all add: update_config_def config_request_def Let_def)
    with False show ?thesis by (intro exI [of _ ?n] exI [of _ "Some conf"]) simp
  qed
qed

lemma update_both_ok:
  assumes "run_state (do {
      r \<leftarrow> update_config (\<lambda>c. hw_mutating_update (\<lambda>_. Some c)) m m';
      (if r = Fine then update_config (\<lambda>c. hw_validating_update (\<lambda>_. Some c)) v v' else ret r) }) w = (r, w')"
    and hw: "hw_mutating w = Some m" "hw_validating w = Some v"
  shows "\<exists>n x y. w' = w\<lparr>hw_mutating := x, hw_validating := y, hw_calls := n\<rparr> \<and> r \<noteq> Crashed
    \<and> (r = Fine \<longrightarrow> x = Some m' \<and> y = Some v') \<and> (m' = m \<and> v' = v \<longrightarrow> x = Some m \<and> y = Some v)"
proof -
  let ?m = "update_config (\<lambda>c. hw_mutating_update (\<lambda>_. Some c)) m m'"
  let ?v = "update_config (\<lambda>c. hw_validating_update (\<lambda>_. Some c)) v v'"
  obtain r1 w1 where 1: "run_state ?m w = (r1, w1)" by (cases "run_state ?m w")
  obtain r2 w2 where 2: "run_state ?v w1 = (r2, w2)" by (cases "run_state ?v w1")
  from update_mutating_ok [OF 1 hw(1)] obtain n x where w1: "w1 = w\<lparr>hw_mutating := x, hw_calls := n\<rparr>" "r1 \<noteq> Crashed"
    and x: "r1 = Fine \<longrightarrow> x = Some m'" "m' = m \<longrightarrow> x = Some m" by blast
  show ?thesis
  proof (cases "r1 = Fine")
    case False
    with assms(1) 1 have w': "w' = w1" "r = r1" by simp_all
    have "w' = w\<lparr>hw_mutating := x, hw_validating := hw_validating w, hw_calls := n\<rparr>" unfolding w' w1(1) by simp
    then show ?thesis unfolding hw(2) w'(2) using False w1(2) x(2) by blast
  next
    case True
    with assms(1) 1 2 have w': "w' = w2" "r = r2" by simp_all
    have "hw_validating w1 = Some v" using w1(1) hw(2) by simp
    from update_validating_ok [OF 2 this] obtain n' y where w2: "w2 = w1\<lparr>hw_validating := y, hw_calls := n'\<rparr>" "r2 \<noteq> Crashed"
      and y: "r2 = Fine \<longrightarrow> y = Some v'" "v' = v \<longrightarrow> y = Some v" by blast
    have "w' = w\<lparr>hw_mutating := x, hw_validating := y, hw_calls := n'\<rparr>" unfolding w' w2(1) w1(1) by simp
    then show ?thesis unfolding w'(2) using w2(2) x y True by blast
  qed
qed

lemma ensureConfigurations_ok:
  assumes "run_state (ensureConfigurations env ca) w = (r, w')"
  shows "\<exists>n m v. w' = w\<lparr>hw_mutating := m, hw_validating := v, hw_calls := n\<rparr>
    \<and> (r = Fine \<longrightarrow> config_ok env ca m \<and> config_ok env ca v \<and> directed env ca (hw_mutating w) m \<and> directed env ca (hw_validating w) v)
    \<and> (config_ok env ca (hw_mutating w) \<and> config_ok env ca (hw_validating w) \<longrightarrow> r \<noteq> Crashed \<and> m = hw_mutating w \<and> v = hw_validating w)"
proof -
  have early: ?thesis if "w' = w\<lparr>hw_calls := n\<rparr>" "r \<noteq> Fine"
      "r = Crashed \<Longrightarrow> \<not> (config_ok env ca (hw_mutating w) \<and> config_ok env ca (hw_validating w))" for n
    using that by (intro exI [of _ n] exI [of _ "hw_mutating w"] exI [of _ "hw_validating w"]) auto
  obtain r1 w1 where 1: "run_state (get_config hw_mutating) w = (r1, w1)" by (cases "run_state (get_config hw_mutating) w")
  obtain r2 w2 where 2: "run_state (get_config hw_validating) w1 = (r2, w2)" by (cases "run_state (get_config hw_validating) w1")
  have w1: "w1 = w\<lparr>hw_calls := Suc (hw_calls w)\<rparr>" using get_config_ok(1) [OF 1] .
  have w2: "w2 = w\<lparr>hw_calls := Suc (Suc (hw_calls w))\<rparr>" using w1 get_config_ok(1) [OF 2] by simp
  show ?thesis
  proof (cases r1)
    case (Inl e)
    with assms 1 have "w' = w1" "r = Erred NoMutatingConfig" by (simp_all add: ensureConfigurations_def)
    with w1 have e: "w' = w\<lparr>hw_calls := Suc (hw_calls w)\<rparr>" "r \<noteq> Fine" "r \<noteq> Crashed" by simp_all
    show ?thesis by (rule early [OF e(1,2)]) (use e(3) in simp)
  next
    case m: (Inr m)
    show ?thesis
    proof (cases r2)
      case (Inl e)
      with assms 1 2 m have "w' = w2" "r = Erred NoValidatingConfig" by (simp_all add: ensureConfigurations_def)
      with w2 have e: "w' = w\<lparr>hw_calls := Suc (Suc (hw_calls w))\<rparr>" "r \<noteq> Fine" "r \<noteq> Crashed" by simp_all
      show ?thesis by (rule early [OF e(1,2)]) (use e(3) in simp)
    next
      case v: (Inr v)
      have hw: "hw_mutating w = Some m" "hw_validating w = Some v"
        using get_config_ok(2) [OF 1 m] get_config_ok(2) [OF 2 v] w1 w2 by simp_all
      show ?thesis
      proof (cases "ensure_webhooks env ca m = None \<or> ensure_webhooks env ca v = None")
        case True
        with assms 1 2 m v have e: "w' = w2" "r = Crashed" by (auto simp: ensureConfigurations_def split: option.splits)
        have c: "\<not> (config_ok env ca (hw_mutating w) \<and> config_ok env ca (hw_validating w))"
          unfolding hw using True ensure_webhooks_idle by fastforce
        have "w' = w\<lparr>hw_calls := Suc (Suc (hw_calls w))\<rparr>" "r \<noteq> Fine" using e w2 by simp_all
        from early [OF this c] show ?thesis .
      next
        case False
        then obtain m' v' where e: "ensure_webhooks env ca m = Some m'" "ensure_webhooks env ca v = Some v'" by auto
        have "run_state (do {
          r \<leftarrow> update_config (\<lambda>c. hw_mutating_update (\<lambda>_. Some c)) m m';
          (if r = Fine then update_config (\<lambda>c. hw_validating_update (\<lambda>_. Some c)) v v' else ret r) }) w2 = (r, w')"
          using assms 1 2 m v e by (simp add: ensureConfigurations_def)
        from update_both_ok [OF this] hw w2 obtain n x y where u: "w' = w2\<lparr>hw_mutating := x, hw_validating := y, hw_calls := n\<rparr>"
          "r \<noteq> Crashed" "r = Fine \<longrightarrow> x = Some m' \<and> y = Some v'" "m' = m \<and> v' = v \<longrightarrow> x = Some m \<and> y = Some v" by auto
        have "m' = m" if "config_ok env ca (Some m)" using ensure_webhooks_idle [OF that] e(1) by simp
        moreover have "v' = v" if "config_ok env ca (Some v)" using ensure_webhooks_idle [OF that] e(2) by simp
        moreover have "config_ok env ca (Some m')" "config_ok env ca (Some v')" using e ensure_webhooks_ok by blast+
        moreover have "directed env ca (Some m) (Some m')" "directed env ca (Some v) (Some v')" using e ensure_webhooks_directed by blast+
        ultimately have c: "r = Fine \<longrightarrow> config_ok env ca x \<and> config_ok env ca y
            \<and> directed env ca (hw_mutating w) x \<and> directed env ca (hw_validating w) y"
          "config_ok env ca (hw_mutating w) \<and> config_ok env ca (hw_validating w) \<longrightarrow> r \<noteq> Crashed \<and> x = hw_mutating w \<and> y = hw_validating w"
          unfolding hw using u(2-4) by simp_all
        have "w' = w\<lparr>hw_mutating := x, hw_validating := y, hw_calls := n\<rparr>" unfolding u(1) w2 by simp
        with c show ?thesis by blast
      qed
    qed
  qed
qed

subsection \<open>One run of the controller\<close>

lemma more_hw:
  assumes "cert_world.more w' = cert_world.more w"
  shows "hw_mutating w' = hw_mutating w" "hw_validating w' = hw_validating w" "hw_initialized w' = hw_initialized w"
  using assms by (cases w; cases w'; simp)+

definition store_certs :: "environ \<Rightarrow> ('k, 'z) cert_world_scheme \<Rightarrow> Artifacts option" where
  "store_certs env w = (if uses_fs env then dir_certs (w_fs w) else secret_stored w)"

definition published :: "Artifacts \<Rightarrow> fs \<Rightarrow> bool" where
  "published a fs \<longleftrightarrow> (\<forall>p. visible p \<longrightarrow> view fs p = projected (certToProjectionMap a) p)"

definition in_sync :: "('k, 'c) crypto \<Rightarrow> int \<Rightarrow> environ \<Rightarrow> ('k, 'z) ctl_world_scheme \<Rightarrow> Artifacts \<Rightarrow> bool" where
  \<comment> \<open>store, directory and configurations agree on valid certificates\<close>
  "in_sync cr now env w a \<longleftrightarrow> validCert cr now a (sync_dnsName env)
     \<and> store_certs env w = Some (strip a) \<and> published a (w_fs w)
     \<and> config_ok env (art_CACert a) (hw_mutating w) \<and> config_ok env (art_CACert a) (hw_validating w)"

lemma GetCertDir_set: "GetCertDir env \<noteq> []"
  by (simp add: GetCertDir_def Let_def)

lemma sync_certs_ok:
  assumes laws: "x509_laws cr signs now" "servable_host cr (sync_dnsName env)"
    and inv: "secret_inv w" "stored_roots_good cr signs now w" "fs_inv w"
    and "run_state (sync_certs cr now masked env) w = ((r, changed), w')"
  shows "secret_inv w'" "stored_roots_good cr signs now w'" "fs_inv w'" "cert_world.more w' = cert_world.more w" "kw_env w' = kw_env w"
    "r = Inr a \<Longrightarrow> validCert cr now a (sync_dnsName env) \<and> store_certs env w' = Some (strip a)"
proof -
  let ?w = "w\<lparr>kw_gen := new_generator\<rparr>" and ?d = "sync_dnsName env"
  have "secret_inv w' \<and> stored_roots_good cr signs now w' \<and> fs_inv w' \<and> cert_world.more w' = cert_world.more w \<and> kw_env w' = kw_env w
    \<and> (\<forall>a. r = Inr a \<longrightarrow> validCert cr now a ?d \<and> store_certs env w' = Some (strip a))"
  proof (cases "uses_fs env")
    case True
    then have run: "run_state (fs_EnsureCert cr now masked ?d) ?w = ((r, changed), w')"
      using assms(6) by (simp add: sync_certs_def new_writer_def NewFSCertWriter_def GetCertDir_set)
    have "fs_ready cr signs now ?d ?w" using laws inv(3) new_generator_good by (simp add: fs_ready_def fs_inv_def)
    note k = fs_EnsureCert_ok [OF this run]
    then have "same_cluster ?w w'" by (simp add: dir_sound_def)
    with k True inv show ?thesis
      by (simp add: same_cluster_def secret_inv_def stored_roots_good_def store_certs_def fs_ready_def)
  next
    case False
    then have run: "run_state (secret_EnsureCert cr now (GetNamespace env) (GetSecretName env) ?d) ?w = ((r, changed), w')"
      using assms(6) by (simp add: sync_certs_def new_writer_def)
    have "secret_ready cr signs now ?d ?w"
      using laws inv new_generator_good by (simp add: secret_ready_def roots_good_def stored_roots_good_def)
    note k = secret_EnsureCert_ok [OF this run]
    then show ?thesis
      using False inv by (simp add: store_certs_def secret_sound_def fs_inv_def secret_ready_def roots_good_def)
  qed
  then show "secret_inv w'" "stored_roots_good cr signs now w'" "fs_inv w'" "cert_world.more w' = cert_world.more w" "kw_env w' = kw_env w"
    "r = Inr a \<Longrightarrow> validCert cr now a ?d \<and> store_certs env w' = Some (strip a)"
    by blast+
qed

lemma published_certs:
  assumes "published a fs"
  shows "complete fs" "dir_certs fs = Some \<lparr>art_Key = Some (nil_bytes (art_Key a)), art_Cert = Some (nil_bytes (art_Cert a)),
    art_CAKey = Some (nil_bytes (art_CAKey a)), art_CACert = Some (nil_bytes (art_CACert a)), art_ResourceVersion = ''''\<rparr>"
  using written_certs [of fs a] assms by (simp_all add: published_def)

lemma published_same: "published a fs \<Longrightarrow> (\<forall>p. visible p \<longrightarrow> view fs' p = view fs p) \<Longrightarrow> published a fs'"
  by (simp add: published_def)

lemma dir_certs_full:
  assumes "dir_certs fs = Some a"
  shows "dir_certs fs = Some \<lparr>art_Key = Some (nil_bytes (art_Key a)), art_Cert = Some (nil_bytes (art_Cert a)),
    art_CAKey = Some (nil_bytes (art_CAKey a)), art_CACert = Some (nil_bytes (art_CACert a)), art_ResourceVersion = ''''\<rparr>"
  using assms by (auto simp: dir_certs_def nil_bytes_def split: option.splits)

lemma strip_parts:
  assumes "strip c = strip a"
  shows "certToProjectionMap c = certToProjectionMap a" "art_CACert c = art_CACert a" "published c = published a"
proof -
  show "certToProjectionMap c = certToProjectionMap a" "art_CACert c = art_CACert a"
    using assms by (cases c; cases a; simp add: strip_def certToProjectionMap_def)+
  then show "published c = published a" by (simp add: published_def fun_eq_iff)
qed

lemma store_after_write:
  assumes "run_state (WriteCertsToDir masked c) w = (None, w')" and "fs_inv w" and "store_certs env w = Some (strip c)"
  shows "published c (w_fs w') \<and> store_certs env w' = Some (strip c)"
proof -
  note k = WriteCertsToDir_ok [OF assms(1,2)]
  have p: "published c (w_fs w')" using k(4) by (simp add: published_def)
  have "store_certs env w' = Some (strip c)"
  proof (cases "uses_fs env")
    case True
    with assms(3) have "dir_certs (w_fs w) = Some (strip c)" by (simp add: store_certs_def)
    with dir_certs_full [OF this] published_certs(2) [OF p] True show ?thesis by (simp add: store_certs_def strip_def)
  next
    case False
    with assms(3) k(2) show ?thesis by (simp add: store_certs_def secret_stored_def same_cluster_def)
  qed
  with p show ?thesis ..
qed

lemma inv_hw [simp]:
  "secret_inv (w\<lparr>hw_mutating := m, hw_validating := v, hw_calls := n\<rparr>) = secret_inv w"
  "fs_inv (w\<lparr>hw_mutating := m, hw_validating := v, hw_calls := n\<rparr>) = fs_inv w"
  "stored_roots_good cr signs now (w\<lparr>hw_mutating := m, hw_validating := v, hw_calls := n\<rparr>) = stored_roots_good cr signs now w"
  "stored_roots_good cr signs now (w\<lparr>hw_initialized := b\<rparr>) = stored_roots_good cr signs now w"
  "secret_inv (w\<lparr>hw_initialized := b\<rparr>) = secret_inv w" "fs_inv (w\<lparr>hw_initialized := b\<rparr>) = fs_inv w"
  "store_certs env (w\<lparr>hw_mutating := m, hw_validating := v, hw_calls := n\<rparr>) = store_certs env w"
  "store_certs env (w\<lparr>hw_initialized := b\<rparr>) = store_certs env w"
  by (simp_all add: secret_inv_def fs_inv_def store_certs_def secret_stored_def stored_roots_good_def)

lemma sync_ok:
  assumes laws: "x509_laws cr signs now" "servable_host cr (sync_dnsName env)"
    and inv: "secret_inv w" "stored_roots_good cr signs now w" "fs_inv w"
    and run: "run_state (sync cr now masked env) w = (r, w')"
  shows "secret_inv w' \<and> stored_roots_good cr signs now w' \<and> fs_inv w' \<and> kw_env w' = kw_env w
    \<and> (r = Fine \<longrightarrow> hw_initialized w' \<and> (\<exists>a. in_sync cr now env w' a
         \<and> directed env (art_CACert a) (hw_mutating w) (hw_mutating w') \<and> directed env (art_CACert a) (hw_validating w) (hw_validating w')))"
proof -
  obtain r1 ch w1 where 1: "run_state (sync_certs cr now masked env) w = ((r1, ch), w1)"
    by (cases "run_state (sync_certs cr now masked env) w") auto
  note k1 = sync_certs_ok [OF laws inv 1]
  show ?thesis
  proof (cases r1)
    case (Inl e)
    with run 1 k1(1-3,5) show ?thesis by (auto simp: sync_def)
  next
    case (Inr c)
    obtain e w2 where 2: "run_state (WriteCertsToDir masked c) w1 = (e, w2)" by (cases "run_state (WriteCertsToDir masked c) w1")
    note k2 = WriteCertsToDir_ok [OF 2 k1(3)]
    have i2: "secret_inv w2" "stored_roots_good cr signs now w2" "fs_inv w2" "kw_env w2 = kw_env w"
      using k1(1,2,5) k2(1,2) by (simp_all add: secret_inv_def stored_roots_good_def same_cluster_def)
    show ?thesis
    proof (cases e)
      case (Some x)
      with run 1 2 Inr i2 show ?thesis by (auto simp: sync_def)
    next
      case None
      note s = store_after_write [OF 2 [unfolded None] k1(3) conjunct2 [OF k1(6) [OF Inr]]]
      have "cert_world.more w2 = cert_world.more w" using k2(2) k1(4) by (simp add: same_cluster_def)
      note h2 = more_hw [OF this]
      obtain r3 w3 where 3: "run_state (ensureConfigurations env (art_CACert c)) w2 = (r3, w3)"
        by (cases "run_state (ensureConfigurations env (art_CACert c)) w2")
      from ensureConfigurations_ok [OF 3] h2 obtain n m v where w3: "w3 = w2\<lparr>hw_mutating := m, hw_validating := v, hw_calls := n\<rparr>"
        and c: "r3 = Fine \<longrightarrow> config_ok env (art_CACert c) m \<and> config_ok env (art_CACert c) v"
          "r3 = Fine \<longrightarrow> directed env (art_CACert c) (hw_mutating w) m \<and> directed env (art_CACert c) (hw_validating w) v" by auto
      have fin: "r = r3" "w' = (if r3 = Fine then w3\<lparr>hw_initialized := True\<rparr> else w3)"
        using run 1 2 3 Inr None by (cases "r3 = Fine"; simp add: sync_def)+
      have "in_sync cr now env (w3\<lparr>hw_initialized := True\<rparr>) c" if "r3 = Fine"
        using s c that k1(6) [OF Inr] w3 by (simp add: in_sync_def)
      with fin i2 w3 c(2) show ?thesis by auto
    qed
  qed
qed

lemma sync_certs_steady:
  assumes "undisturbed w" and "in_sync cr now env w a" and run: "run_state (sync_certs cr now masked env) w = ((r, ch), w')"
  shows "kw_secret w' = kw_secret w" "w_fs w' = w_fs w" "kw_stamp w' = kw_stamp w" "cert_world.more w' = cert_world.more w"
    "r = Inr c \<Longrightarrow> strip c = strip a"
proof -
  let ?w = "w\<lparr>kw_gen := new_generator\<rparr>" and ?d = "sync_dnsName env"
  note s = assms(2) [unfolded in_sync_def]
  have st: "store_certs env w = Some (strip a)" and v: "validCert cr now (strip a) ?d" using s by simp_all
  have "kw_secret w' = kw_secret w \<and> w_fs w' = w_fs w \<and> kw_stamp w' = kw_stamp w \<and> cert_world.more w' = cert_world.more w
    \<and> (\<forall>c. r = Inr c \<longrightarrow> strip c = strip a)"
  proof (cases "uses_fs env")
    case True
    then have fs: "run_state (fs_EnsureCert cr now masked ?d) ?w = ((r, ch), w')"
      using run by (simp add: sync_certs_def new_writer_def NewFSCertWriter_def GetCertDir_set)
    have "dir_quiet cr now ?d (strip a) ?w"
      using True st v s published_certs(1) [of a "w_fs w"] by (simp add: dir_quiet_def store_certs_def)
    from fs_EnsureCert_steady [OF this fs] show ?thesis by auto
  next
    case False
    then have sec: "run_state (secret_EnsureCert cr now (GetNamespace env) (GetSecretName env) ?d) ?w = ((r, ch), w')"
      using run by (simp add: sync_certs_def new_writer_def)
    have "secret_quiet cr now ?d (strip a) ?w"
      using False st v assms(1) by (simp add: secret_quiet_def store_certs_def undisturbed_def)
    from secret_EnsureCert_steady [OF this sec] show ?thesis by (simp add: secret_same_def)
  qed
  then show "kw_secret w' = kw_secret w" "w_fs w' = w_fs w" "kw_stamp w' = kw_stamp w" "cert_world.more w' = cert_world.more w"
    "r = Inr c \<Longrightarrow> strip c = strip a" by blast+
qed

lemma sync_steady:
  assumes "fs_inv w" and "undisturbed w" and sy: "in_sync cr now env w a" and run: "run_state (sync cr now masked env) w = (r, w')"
  shows "r \<noteq> Crashed \<and> kw_secret w' = kw_secret w \<and> (\<forall>p. visible p \<longrightarrow> view (w_fs w') p = view (w_fs w) p)
    \<and> hw_mutating w' = hw_mutating w \<and> hw_validating w' = hw_validating w"
proof -
  obtain r1 ch w1 where 1: "run_state (sync_certs cr now masked env) w = ((r1, ch), w1)"
    by (cases "run_state (sync_certs cr now masked env) w") auto
  note t1 = sync_certs_steady [OF assms(2) sy 1]
  note h1 = more_hw [OF t1(4)]
  have i1: "fs_inv w1" using assms(1) t1(2,3) by (simp add: fs_inv_def)
  show ?thesis
  proof (cases r1)
    case (Inl e)
    with run 1 t1 h1 show ?thesis by (auto simp: sync_def)
  next
    case (Inr c)
    note p = strip_parts [OF t1(5) [OF Inr]]
    obtain e w2 where 2: "run_state (WriteCertsToDir masked c) w1 = (e, w2)" by (cases "run_state (WriteCertsToDir masked c) w1")
    note k2 = WriteCertsToDir_ok [OF 2 i1]
    have "\<forall>p. visible p \<longrightarrow> view (w_fs w) p = projected (certToProjectionMap c) p"
      using sy p(1) by (simp add: in_sync_def published_def)
    with k2(3) t1(2) have views: "\<forall>p. visible p \<longrightarrow> view (w_fs w2) p = view (w_fs w) p" by auto
    have "cert_world.more w2 = cert_world.more w1" using k2(2) by (simp add: same_cluster_def)
    note h2 = more_hw [OF this]
    have sec: "kw_secret w2 = kw_secret w" using k2(2) t1(1) by (simp add: same_cluster_def)
    show ?thesis
    proof (cases e)
      case (Some x)
      with run 1 2 Inr views sec h1 h2 show ?thesis by (auto simp: sync_def)
    next
      case None
      obtain r3 w3 where 3: "run_state (ensureConfigurations env (art_CACert c)) w2 = (r3, w3)"
        by (cases "run_state (ensureConfigurations env (art_CACert c)) w2")
      have "config_ok env (art_CACert c) (hw_mutating w2) \<and> config_ok env (art_CACert c) (hw_validating w2)"
        using sy h1 h2 p(2) by (simp add: in_sync_def)
      with ensureConfigurations_ok [OF 3] obtain n where w3: "r3 \<noteq> Crashed"
        "w3 = w2\<lparr>hw_mutating := hw_mutating w2, hw_validating := hw_validating w2, hw_calls := n\<rparr>" by blast
      have "r = r3" "w' = (if r3 = Fine then w3\<lparr>hw_initialized := True\<rparr> else w3)"
        using run 1 2 3 Inr None by (cases "r3 = Fine"; simp add: sync_def)+
      with w3 views sec h1 h2 show ?thesis by simp
    qed
  qed
qed

subsection \<open>Serving and health\<close>

lemma addHandlers_lookup:
  "\<forall>p\<in>fst ` set m. p \<noteq> [] \<and> hd p = CHR ''/'' \<Longrightarrow> distinct (map fst m) \<Longrightarrow> map_of (addHandlers m hm) = map_of hm ++ map_of m"
proof (induction m arbitrary: hm)
  case (Cons x m)
  obtain p h where x: "x = (p, h)" by (cases x)
  with Cons.prems obtain cs where p: "p = CHR ''/'' # cs" by (cases p) auto
  have "p \<notin> dom (map_of m)" using Cons.prems(2) x by (simp add: dom_map_of_conv_image_fst)
  then have "map_of m p = None" by blast
  with Cons x p show ?case by (auto simp: update_conv' fun_eq_iff map_add_def split: option.splits)
qed simp

text \<open>
  The health check reads the root certificate once. If that fails, all later checks fail; if
  the root is replaced later, the checks go on with the old one.
\<close>

lemma Checker_keeps_first_root:
  assumes "\<not> chk_once st" and "Checker cr accepts0 fs0 st = (r0, st1)"
  shows "Checker cr accepts fs st1 =
    (case readFile_f [''ca-cert.pem''] fs0 of
       Inl e \<Rightarrow> (Some (InitError e), st1)
     | Inr ca \<Rightarrow> (if accepts (cr_AppendCertsFromPEM cr ca) then None else Some RequestFailed, st1))"
  using assms by (auto simp: Checker_def Let_def split: sum.splits if_splits)

lemma missing_path_crashes:
  assumes "GetHost env \<noteq> []" and "wcc_Service (awh_ClientConfig wh) = Some s" and "srf_Path s = None"
    and "wh \<in> set (wcf_Webhooks conf)"
  shows "ensure_webhooks env ca conf = None"
proof -
  have "ensure_webhook env ca wh = None"
    using assms(1-3) by (auto simp: ensure_webhook_def convertClientConfig_def Let_def split: option.splits)
  with those_map_None [of wh "wcf_Webhooks conf" "ensure_webhook env ca"] assms(4) show ?thesis by (simp add: ensure_webhooks_def)
qed

lemma WaitReady_result:
  "WaitReady duration check n i st = Some (r, st') \<Longrightarrow>
   \<exists>j\<ge>i. \<exists>st1. check j st1 = (r, st') \<and> (r \<noteq> None \<longrightarrow> duration j > 60000)"
proof (induction n arbitrary: i st)
  case (Suc n)
  obtain c st1 where c: "check i st = (c, st1)" by (cases "check i st")
  show ?case
  proof (cases "c = None \<or> duration i > 60000")
    case True
    with Suc.prems c have "check i st = (r, st')" "r \<noteq> None \<longrightarrow> duration i > 60000" by (auto split: option.splits)
    then show ?thesis by blast
  next
    case False
    with Suc.prems c have "WaitReady duration check n (Suc i) st1 = Some (r, st')" by auto
    with Suc.IH obtain j st2 where "j \<ge> Suc i" "check j st2 = (r, st')" "r \<noteq> None \<longrightarrow> duration j > 60000" by blast
    then show ?thesis by (meson Suc_leD)
  qed
qed simp

lemma WaitReady_total:
  assumes "\<And>j. duration j + 2000 \<le> duration (Suc j)" and "duration i > 60000 - 2000 * int k"
  shows "\<exists>x. WaitReady duration check (Suc k) i st = Some x"
  using assms(2)
proof (induction k arbitrary: i st)
  case 0
  then show ?case by (auto split: prod.splits option.splits)
next
  case (Suc k)
  have "duration (Suc i) > 60000 - 2000 * int k" using assms(1) [of i] Suc.prems by simp
  from Suc.IH [OF this] have IH: "\<exists>a b. WaitReady duration check (Suc k) (Suc i) s = Some (a, b)" for s
    by (simp del: WaitReady.simps)
  show ?case
    by (subst WaitReady.simps) (auto split: prod.split option.split simp del: WaitReady.simps simp: IH)
qed

lemma WaitReady_returns:
  assumes "\<And>j. duration j + 2000 \<le> duration (Suc j)" and "0 \<le> duration 0"
  shows "\<exists>r st'. WaitReady duration check 32 0 st = Some (r, st')
    \<and> (\<exists>j st1. check j st1 = (r, st') \<and> (r \<noteq> None \<longrightarrow> duration j > 60000))"
proof -
  obtain r st' where "WaitReady duration check (Suc 31) 0 st = Some (r, st')"
    using WaitReady_total [where duration = duration and i = 0 and k = 31 and check = check and st = st, OF assms(1)] assms(2) by auto
  moreover have "32 = Suc 31" by simp
  ultimately have w: "WaitReady duration check 32 0 st = Some (r, st')" by (simp only:)
  from WaitReady_result [OF w] show ?thesis using w by blast
qed

subsection \<open>Theorems\<close>

text \<open>
  C9. A successful run of the webhook controller leaves everything in agreement. The host is a
  name or an IPv4 address, and a root that others have stored in the Secret is a certificate
  authority if the generator accepts it. Whatever other replicas do to the Secret meanwhile:
  the certificates in the store are valid for the host, the certificate directory shows exactly
  these, and the manager is released to start; every webhook of both configurations trusts their
  root, and if it was reached through a service it is now reached through this service or, with
  a host set, at the URL of that host, port and path, while everything else is as it was. Runs
  that fail keep the invariants of the store and of the directory.
\<close>

theorem sync_agrees:
  assumes "x509_laws cr signs now" and "servable_host cr (sync_dnsName env)"
    and "secret_inv w" and "stored_roots_good cr signs now w" and "fs_inv w"
    and "run_state (sync cr now masked env) w = (r, w')"
  shows "secret_inv w' \<and> stored_roots_good cr signs now w' \<and> fs_inv w'
    \<and> (r = Fine \<longrightarrow> hw_initialized w' \<and> (\<exists>a. in_sync cr now env w' a
         \<and> directed env (art_CACert a) (hw_mutating w) (hw_mutating w') \<and> directed env (art_CACert a) (hw_validating w) (hw_validating w')))"
  using sync_ok [OF assms] by blast

definition example_settings :: environ where
  "example_settings v = ''''"

definition example_webhooks :: webhook_configuration where
  "example_webhooks = \<lparr>wcf_Webhooks =
     [\<lparr>awh_ClientConfig = \<lparr>wcc_URL = None,
         wcc_Service = Some \<lparr>srf_Namespace = ''x'', srf_Name = ''y'', srf_Path = Some ''/p'', srf_Port = None\<rparr>,
         wcc_CABundle = None\<rparr>, awh_Rest = ''''\<rparr>], wcf_Rest = ''''\<rparr>"

definition example_ctl_world :: "nat ctl_world" where
  "example_ctl_world =
     \<lparr>w_fs = [], w_sched = (\<lambda>_. None), w_tick = 0, kw_secret = None, kw_revision = 0, kw_env = (\<lambda>_. None), kw_fate = (\<lambda>_. Executed),
      kw_calls = 0, kw_writes = [], kw_gen = new_generator,
      kw_rnd = (\<lambda>_. \<lparr>rn_caKey = Some 1, rn_key = Some 2, rn_serial = Some 3\<rparr>), kw_rnds = 0,
      kw_stamp = (\<lambda>n. (utoa n, [''x''])), kw_stamps = 0, hw_mutating = Some example_webhooks, hw_validating = Some example_webhooks,
      hw_fate = (\<lambda>_. Executed), hw_calls = 0, hw_initialized = False\<rparr>"

lemma example_ctl_world_inv:
  "secret_inv example_ctl_world" "stored_roots_good cr signs now example_ctl_world" "fs_inv example_ctl_world"
  "servable_host example_crypto (sync_dnsName example_settings)"
  using utoa_stamp_ok
  by (simp_all add: secret_inv_def stored_roots_good_def fs_inv_def example_ctl_world_def servable_host_def example_crypto_def
      sync_dnsName_def GetHost_def GetNamespace_def GetServiceName_def ServiceToCommonName_def example_settings_def Let_def)

lemma example_sync_fine: "fst (run_state (sync example_crypto 0 id example_settings) example_ctl_world) = Fine"
  by code_simp

theorem sync_agrees_witness:
  "\<exists>w' a. run_state (sync example_crypto 0 id example_settings) example_ctl_world = (Fine, w') \<and> in_sync example_crypto 0 example_settings w' a"
proof -
  obtain w' where run: "run_state (sync example_crypto 0 id example_settings) example_ctl_world = (Fine, w')"
    using example_sync_fine by (cases "run_state (sync example_crypto 0 id example_settings) example_ctl_world") auto
  from sync_agrees [OF example_laws example_ctl_world_inv(4,1,2,3) run] run show ?thesis by blast
qed

text \<open>
  C40. The controller comes to rest. Once store, directory and configurations agree, and while
  nobody else changes the Secret, a further run changes none of the things the controller
  watches, the Secret and the two configurations, nor any file, even if some of its calls
  fail; and it does not crash. Nothing is assumed of the crypto packages.
\<close>

theorem sync_comes_to_rest:
  assumes "fs_inv w" and "undisturbed w" and "in_sync cr now env w a" and "run_state (sync cr now masked env) w = (r, w')"
  shows "r \<noteq> Crashed \<and> kw_secret w' = kw_secret w \<and> (\<forall>p. visible p \<longrightarrow> view (w_fs w') p = view (w_fs w) p)
    \<and> hw_mutating w' = hw_mutating w \<and> hw_validating w' = hw_validating w"
  using assms by (rule sync_steady)

theorem sync_comes_to_rest_witness:
  "\<exists>w1 r w2. run_state (sync example_crypto 0 id example_settings) example_ctl_world = (Fine, w1)
     \<and> run_state (sync example_crypto 0 id example_settings) w1 = (r, w2)
     \<and> kw_secret w2 = kw_secret w1 \<and> hw_mutating w2 = hw_mutating w1 \<and> hw_validating w2 = hw_validating w1"
proof -
  let ?sync = "sync example_crypto 0 id example_settings"
  obtain w1 where 1: "run_state ?sync example_ctl_world = (Fine, w1)"
    using example_sync_fine by (cases "run_state ?sync example_ctl_world") auto
  obtain r w2 where 2: "run_state ?sync w1 = (r, w2)" by (cases "run_state ?sync w1")
  have k: "fs_inv w1" "kw_env w1 = kw_env example_ctl_world" "\<exists>a. in_sync example_crypto 0 example_settings w1 a"
    using sync_ok [OF example_laws example_ctl_world_inv(4,1,2,3) 1] by blast+
  then obtain a where a: "in_sync example_crypto 0 example_settings w1 a" by blast
  have "undisturbed w1" using k(2) by (simp add: undisturbed_def example_ctl_world_def)
  from sync_comes_to_rest [OF k(1) this a 2] 1 2 show ?thesis by blast
qed

end
