(* ===== verification/Spec2Isabelle.thy ===== *)
theory Spec2Isabelle
  imports
    Internal_Spec
    Route_Gen
    VApp_Validation
    Spec_Manager
    Server_Reconcile
    Pod_Injection
    Apiserver_Handler
    Webhook_Proxy
    Grpc_Client
    Webhook_Controller
begin

text \<open>
  \<^bold>\<open>ControllerMesh in Isabelle/HOL\<close>

  ControllerMesh splits the controllers and admission webhooks of a Kubernetes cluster into
  subsets. A \<^emph>\<open>manager\<close> watches the \<^verbatim>\<open>VirtualApp\<close> resource, which says which namespaces
  and objects belong to which subset, injects a \<^emph>\<open>proxy\<close> container into the controller's
  pods, and sends each proxy a spec over a gRPC stream. The proxy stands between the
  controller and the API server, and between the API server and the controller's webhooks:
  it rejects, restricts, filters or redirects requests according to its spec. This
  development models both programs, from the parsing of query strings to the protocol
  between them. All paths below are relative to \<^verbatim>\<open>src/\<close>.

  \<^bold>\<open>Conventions.\<close> Go structs are records, enumerations and errors are datatypes, each function
  or method is one definition with the source's name where it is free. Go maps are association
  lists with distinct keys, in the order of one iteration; what holds of a range loop is
  proved for every order. A nil dereference, an index out of range and the end of the
  process are \<^const>\<open>None\<close> (or a constructor that is named so); errors are values of a sum or
  an option. Code outside the repository (the vendored codecs, regular expressions, JSON, MD5,
  the token bucket, crypto, the API server's answers) is a parameter, with what is used of
  it as a named hypothesis. Definitions are executable; loops are structural recursions, have a
  termination proof, or are the partial functions and the fuel named below.

  \<^bold>\<open>The theories.\<close>
  \<^item> \<open>Prelude\<close>: maps, sets, strings and numbers of Go; the locale \<open>inductive_invariant\<close> of
    transition systems. \<open>Kube_Types\<close>: Kubernetes objects, \<^verbatim>\<open>virtualapp_types.go\<close>,
    \<^verbatim>\<open>util/pod.go\<close>. \<open>Http_Types\<close>: requests, responses, headers. \<open>Webhook_Util\<close>: settings
    from the environment.
  \<^item> Rules. \<open>Label_Selector\<close> (\<^verbatim>\<open>util/selector.go\<close>): merging is conjunction unless a label has two
    values, negation excludes (locale \<open>selector_algebra\<close>). \<open>Internal_Spec\<close>
    (\<^verbatim>\<open>apis/ctrlmesh/proto\<close>): every routing decision of the proxy; for a resource that is not
    public a namespace belongs to at most one subset, and the selector of a subset with
    object selectors of its own excludes those of later subsets. \<open>Route_Gen\<close>
    (\<^verbatim>\<open>controllers/server/server_util.go\<close>): from a VirtualApp to the message; the proxy's
    decision on it refines the VirtualApp's meaning. \<open>VApp_Validation\<close>, \<open>Pod_Injection\<close>
    (\<^verbatim>\<open>webhook/virtualapp\<close>, \<^verbatim>\<open>webhook/pod\<close>): what the webhooks admit and inject; a decoded
    selector keeps the difference between nil and empty, which the comparison on update sees.
  \<^item> Manager. \<open>Grpc_Server\<close> (\<^verbatim>\<open>grpc_server.go\<close>, \<^verbatim>\<open>virtualapp_event_handler.go\<close>) with
    connection objects on a heap; \<open>Server_Reconcile\<close> (\<^verbatim>\<open>virtualapp_controller.go\<close>): one
    reconcile with its effects as a trace; along the steps of the manager between two
    reconciles (\<open>manager_event\<close>) nothing is done before the pods have acknowledged;
    \<open>Manager_State\<close> (\<^verbatim>\<open>controllers/managerstate\<close>, \<^verbatim>\<open>grpcregistry\<close>).
  \<^item> Proxy state. \<open>Requests_Store\<close>, \<open>Spec_Manager\<close> (\<^verbatim>\<open>proxy/protomanager\<close>): storage, history of
    decisions, loading of specs under the reader lock, as a transition system whose invariant
    is that the history agrees with the current spec. \<open>Grpc_Client\<close>
    (\<^verbatim>\<open>proto_manager_grpc.go\<close>): the stream's client side, composed with the server side into one
    round of the protocol, and its goroutines as a transition system with a reachable deadlock.
  \<^item> Proxy of the API server. \<open>Query_String\<close>, \<open>Watch_Stream\<close>, \<open>Traffic_Control\<close> (\<^verbatim>\<open>proxy/filters\<close>),
    \<open>Apiserver_Router\<close> (\<^verbatim>\<open>proxy/apiserver/router\<close>, \<^verbatim>\<open>util/discovery\<close>), \<open>Leader_Election\<close>
    (locale \<open>lock_adapter\<close>), \<open>Reverse_Proxy\<close> (locale \<open>hook_invariant\<close>), joined in
    \<open>Apiserver_Handler\<close> (\<^verbatim>\<open>apiserver_handler.go\<close>): what a client receives of a list and of a watch.
    \<open>Webhook_Proxy\<close> (\<^verbatim>\<open>proxy/webhook\<close>): dispatch to other pods, start-up.
  \<^item> Certificates. \<open>File_System\<close>: a directory with symbolic links, programs over it in the
    state monad with a schedule of failures, Hoare triples. \<open>Atomic_Writer\<close>, \<open>Atomic_Update\<close>
    (\<^verbatim>\<open>webhook/util/writer/atomic\<close>): updates are atomic under failures and crashes.
    \<open>Cert_Generator\<close> (\<^verbatim>\<open>webhook/util/generator\<close>): generated certificates verify if the host is a
    name or an IPv4 address. \<open>Cert_Writer\<close> (\<^verbatim>\<open>webhook/util/writer\<close>): the locales \<open>cert_store\<close> and
    \<open>steady_store\<close> are the interface \<^verbatim>\<open>certReadWriter\<close>, the second for a store that nobody else
    changes, both interpreted for the Secret and for the directory. \<open>Webhook_Controller\<close>
    (\<^verbatim>\<open>webhook/util/controller\<close>, \<^verbatim>\<open>webhook/server.go\<close>, \<^verbatim>\<open>webhook/util/health\<close>): store,
    directory and webhook configurations come to agree and then stay.

  This theory holds the property that spans manager, spec and API-server proxy: the isolation
  of writes that go through the router.

  \<^bold>\<open>Bounds and fuel.\<close> \<open>WaitReady\<close> has fuel; \<open>WaitReady_returns\<close> shows that 32 rounds suffice,
  because each waits two seconds and the loop gives up after a minute. \<open>maxLinks\<close> is the
  kernel's bound on links in a path. Recursive writers of the webhook proxy that may not
  return are partial functions, and it is proved when they do.

  \<^bold>\<open>Concurrency.\<close> Lock regions are atomic steps. Interleaving is modelled where the code
  depends on it: readers and the writer of the spec, the traffic counters, the goroutines of
  the gRPC client, old and new streams of one pod, and the replicas that share the Secret.

  \<^bold>\<open>Not modelled.\<close> Generated code (deep copies, clients, protobuf accessors): values are
  immutable here and messages are records. Process entry points (\<^verbatim>\<open>main.go\<close>, \<^verbatim>\<open>cmd\<close>),
  construction of clients, API-server options and registration with controller-runtime: wiring
  without decisions of its own. The certificate watcher reacts to inotify events of a vendored
  package. Metrics, log formatting and the gzip pool do not influence the results. Of the reverse
  proxy, the two copying goroutines of an upgraded connection and cancellation by the client
  are left out; of the API-server proxy, the vendored upgrade handler. In \<open>sync\<close> nobody else
  changes the webhook configurations during one run.
\<close>

section \<open>Properties of the whole system\<close>

text \<open>
  C1. Isolation of writes. Two proxies hold specs made from one route for two different
  subsets, and each forwards, through its router, a request other than list and watch to
  the API server, both for the same known resource and namespace. Then the resource is
  declared public for all subsets, unless a subset carries the reserved name
  \<^verbatim>\<open>AllSubsetPublic\<close>. Two kinds of requests do not go through the router and are not covered:
  those for the election lock that the leader election handler takes over, and the
  upgrades for exec and attach, which are forwarded unchecked.
\<close>

theorem writes_are_isolated:
  assumes "apiserver_ServeHTTP ae h (Some ri) r rw st = Some (Proxied oc rw', st')"
    and "apiserver_ServeHTTP ae2 h2 (Some ri2) r2 rw2 st2 = Some (Proxied oc2 rw2', st2')"
    and "\<not> takes_lock ae h ri r" and "\<not> takes_lock ae2 h2 ri2 r2"
    and "ri_IsResourceRequest ri" and "ri_IsResourceRequest ri2"
    and "ri_Verb ri \<notin> {''list'', ''watch''}" and "ri_Verb ri2 \<notin> {''list'', ''watch''}"
    and "fst (DiscoverGVR (re_hasClient (ae_router ae)) (re_answers (ae_router ae) (request_gvr ri)) (request_gvr ri)
        (as_cache st)) = Inr ar"
    and "fst (DiscoverGVR (re_hasClient (ae_router ae2)) (re_answers (ae_router ae2) (request_gvr ri2)) (request_gvr ri2)
        (as_cache st2)) = Inr ar2"
    and "ri_Namespace ri2 = ri_Namespace ri" and "gvr_GroupResource (request_gvr ri2) = gvr_GroupResource (request_gvr ri)"
    and "smg_currentSpec (px_manager (as_proxy st)) = Some (ConvertProtoSpecToInternal ju p)"
    and "smg_currentSpec (px_manager (as_proxy st2)) = Some (ConvertProtoSpecToInternal ju q)"
    and "ps_Route p = Some route" and "ps_Route q = Some (route\<lparr>rt_Subset := t\<rparr>)" and "t \<noteq> rt_Subset route"
  shows "isGRMatchedAPIResources (gvr_GroupResource (request_gvr ri)) (rt_SubsetPublicResources route)
    \<or> AllSubsetPublic \<in> sl_Subset ` set (rt_SubsetLimits route)"
proof -
  have "IsNamespaceMatch (ConvertProtoSpecToInternal ju p) (ri_Namespace ri) (gvr_GroupResource (request_gvr ri)) = Some True"
    using served_write_matches [OF assms(1,3,5) _ _ assms(9)] assms(7,13) by auto
  moreover have "IsNamespaceMatch (ConvertProtoSpecToInternal ju q) (ri_Namespace ri) (gvr_GroupResource (request_gvr ri)) = Some True"
    using served_write_matches [OF assms(2,4,6) _ _ assms(10)] assms(8,11,12,14) by auto
  ultimately show ?thesis by (rule two_subsets_public [OF assms(15-17)])
qed

definition example_subset_spec :: "string \<Rightarrow> proxy_spec_v1" where
  "example_subset_spec sub = example_spec (example_public_route\<lparr>rt_Subset := sub\<rparr>)"

definition example_subset_state :: "string \<Rightarrow> api_state" where
  "example_subset_state sub =
     \<lparr>as_proxy = example_proxy\<lparr>px_manager :=
        example_start\<lparr>smg_currentSpec := Some (ConvertProtoSpecToInternal example_ju (example_subset_spec sub))\<rparr>\<rparr>,
      as_cache = [(request_gvr (example_resource_info ''get''), hc_apiResource example_config)]\<rparr>"

definition example_handler :: "string \<Rightarrow> api_handler" where
  "example_handler sub = \<lparr>ah_electionHandler = Some (example_election sub), ah_userAgentOverride = ''''\<rparr>"

lemma example_not_lock:
  "election_Handle lc (example_election sub) (example_resource_info ''get'') r = Some (NotHandled, r)"
  by (simp add: election_Handle_def example_election_def example_resource_info_def)

lemma example_get_forwarded:
  "\<exists>rw' st'. apiserver_ServeHTTP example_env (example_handler sub) (Some (example_resource_info ''get'')) example_http_request
     fresh_writer (example_subset_state sub) = Some (Proxied Served rw', st')"
proof -
  let ?ri = "example_resource_info ''get''" and ?st = "example_subset_state sub"
    and ?sp = "ConvertProtoSpecToInternal example_ju (example_subset_spec sub)"
  have gr: "gvr_GroupResource (request_gvr ?ri) = example_gr" by code_simp
  have match: "IsUserAgentMatch ?sp ua = Some True" "IsNamespaceMatch ?sp ''ns'' example_gr = Some True" for ua
    by (simp_all add: example_subset_spec_def IsUserAgentMatch_def IsNamespaceMatch_def ConvertProtoSpecToInternal_def
        convertRoute_def convertProtoMatchLimitRuleToInternal_def example_defs containsString_def ResourceAll_def route_defs)
  let ?rr = "user_agent_record example_gr (UserAgent example_http_request) True"
  obtain sm where sm: "ReleaseSpec example_codec (Some ?rr) (px_manager (as_proxy ?st)) = Some sm"
    using ReleaseSpec_total [of "px_manager (as_proxy ?st)"]
    by (auto simp: example_subset_state_def example_start_def newStorage_def mockFailure_def)
  have routed: "Route_with example_selectors (Inr (hc_apiResource example_config)) ?sp example_http_request ?ri
      = Some (example_http_request, Inr AcceptPlain, ?rr)"
    using match gr by (simp add: Route_with_def example_resource_info_def Let_def)
  have "Route (ae_router example_env) example_http_request ?ri (px_manager (as_proxy ?st), as_cache ?st)
      = Some ((example_http_request, Inr AcceptPlain), sm, as_cache ?st)"
    using routed sm
    by (simp add: Route_def example_subset_state_def example_env_def DiscoverGVR_def example_resource_info_def)
  moreover have "header_Get (rs_Header (strip_response example_response)) ''Content-Type'' \<noteq> ''text/event-stream''"
    by code_simp
  ultimately have "\<exists>rw' st'. serve_routed example_env ?ri example_http_request fresh_writer ?st = Some (Proxied Served rw', st')"
    using plain_through_proxy [where ae = example_env and res = example_response]
    by (fastforce simp: example_env_def example_response_def)
  then show ?thesis
    by (simp add: apiserver_ServeHTTP_def example_handler_def overrideUserAgent_def example_not_lock)
      (simp add: example_resource_info_def upgradeSubresources_def)
qed

theorem writes_are_isolated_witness:
  "isGRMatchedAPIResources example_gr (rt_SubsetPublicResources example_public_route)
   \<or> AllSubsetPublic \<in> sl_Subset ` set (rt_SubsetLimits example_public_route)"
proof -
  let ?ri = "example_resource_info ''get''"
  obtain rw1 st1 rw2 st2 where run:
    "apiserver_ServeHTTP example_env (example_handler ''v1'') (Some ?ri) example_http_request fresh_writer
       (example_subset_state ''v1'') = Some (Proxied Served rw1, st1)"
    "apiserver_ServeHTTP example_env (example_handler ''v2'') (Some ?ri) example_http_request fresh_writer
       (example_subset_state ''v2'') = Some (Proxied Served rw2, st2)"
    using example_get_forwarded by blast
  have lock: "\<not> takes_lock example_env (example_handler sub) ?ri r" for sub r
    by (simp add: takes_lock_def example_handler_def example_not_lock)
  have gr: "gvr_GroupResource (request_gvr ?ri) = example_gr" by code_simp
  have "isGRMatchedAPIResources (gvr_GroupResource (request_gvr ?ri)) (rt_SubsetPublicResources example_public_route)
    \<or> AllSubsetPublic \<in> sl_Subset ` set (rt_SubsetLimits example_public_route)"
    by (rule writes_are_isolated [OF run lock lock, where ju = example_ju and p = "example_subset_spec ''v1''"
          and q = "example_subset_spec ''v2''" and t = "''v2''"
          and ar = "hc_apiResource example_config" and ?ar2.0 = "hc_apiResource example_config"])
      (simp_all add: example_resource_info_def example_subset_state_def DiscoverGVR_def
        example_subset_spec_def example_spec_def example_public_route_def)
  then show ?thesis by (simp add: gr)
qed

end
